(* ===== verification/Prelude.thy ===== *)
theory Prelude
  imports Main "HOL-Library.Word" "HOL-Library.Monad_Syntax"
begin

text \<open>
  What every theory of the development shares: the widths of the C integers, the shape
  of an effectful C function, and the three small calculi that carry facts through sequences of
  such functions.

  An effectful function is a HOL function \<open>'s \<Rightarrow> ('a \<times> 's) option\<close>: it takes the state of
  the process and its environment and returns its result and the next state. \<open>None\<close> is
  the process having ended in \<open>die\<close> (config.c), which prints a message and calls
  \<open>exit(1)\<close>. The \<open>do\<close> blocks below are those of the library's option monad with the
  state passed explicitly.
\<close>

unbundle bit_operations_syntax

type_synonym u8 = "8 word"
type_synonym u16 = "16 word"
type_synonym u32 = "32 word"

type_synonym ('s, 'a) cmd = "'s \<Rightarrow> ('a \<times> 's) option"

named_theorems keeps_rules \<open>sequencing rules for relations kept by effectful functions\<close>
named_theorems lives_rules \<open>sequencing rules for functions that return\<close>


section \<open>Relations kept by effectful functions\<close>

text \<open>
  \<open>keeps R m\<close>: whenever \<open>m\<close> returns, the states before and after it are related by \<open>R\<close>.
  The rules for sequencing need \<open>R\<close> to be reflexive and transitive, which is what the
  locale below asks of it; Machine interprets it for the relations of this program.
\<close>

definition keeps :: "('s \<Rightarrow> 's \<Rightarrow> bool) \<Rightarrow> ('s, 'a) cmd \<Rightarrow> bool" where
  "keeps R m \<longleftrightarrow> (\<forall>s x t. m s = Some (x, t) \<longrightarrow> R s t)"

lemma keepsI: "(\<And>s x t. m s = Some (x, t) \<Longrightarrow> R s t) \<Longrightarrow> keeps R m"
  by (simp add: keeps_def)

lemma keepsD: "keeps R m \<Longrightarrow> m s = Some (x, t) \<Longrightarrow> R s t"
  by (simp add: keeps_def)

lemma keeps_fail [keeps_rules]: "keeps R (\<lambda>s. None)"
  by (simp add: keeps_def)

lemma keeps_if [keeps_rules]:
  "(b \<Longrightarrow> keeps R f) \<Longrightarrow> (\<not> b \<Longrightarrow> keeps R g) \<Longrightarrow> keeps R (\<lambda>s. if b then f s else g s)"
  by (cases b) (simp_all add: keeps_def)

lemma keeps_ifs [keeps_rules]:
  "keeps R f \<Longrightarrow> keeps R g \<Longrightarrow> keeps R (\<lambda>s. if b s then f s else g s)"
  by (simp add: keeps_def)

lemma keeps_let [keeps_rules]: "(\<And>x. keeps R (f x)) \<Longrightarrow> keeps R (\<lambda>s. let x = g s in f x s)"
  by (simp add: keeps_def Let_def)

lemma keeps_case_option [keeps_rules]:
  "keeps R f \<Longrightarrow> (\<And>x. keeps R (g x)) \<Longrightarrow>
   keeps R (\<lambda>s. case z of None \<Rightarrow> f s | Some x \<Rightarrow> g x s)"
  by (cases z) simp_all

lemma keeps_case_prod [keeps_rules]:
  "(\<And>x y. keeps R (g x y)) \<Longrightarrow> keeps R (\<lambda>s. case z of (x, y) \<Rightarrow> g x y s)"
  by (cases z) simp

lemma keeps_case_prod_fun [keeps_rules]:
  "(\<And>x y. keeps R (g x y)) \<Longrightarrow> keeps R (case z of (x, y) \<Rightarrow> g x y)"
  by (cases z) simp

text \<open>A function whose argument is read from the state: instantiated by hand.\<close>

lemma keeps_read: "(\<And>c. keeps R (f c)) \<Longrightarrow> keeps R (\<lambda>s. f (g s) s)"
  by (simp add: keeps_def)

locale frame_rel =
  fixes R :: "'s \<Rightarrow> 's \<Rightarrow> bool"
  assumes refl: "R s s"
    and trans: "R s t \<Longrightarrow> R t u \<Longrightarrow> R s u"
begin

lemma keeps_return: "keeps R (\<lambda>s. Some (x, s))"
  by (simp add: keeps_def refl)

lemma keeps_returns: "keeps R (\<lambda>s. Some (f s, s))"
  by (simp add: keeps_def refl)

lemma keeps_bind:
  assumes "keeps R m" and "\<And>x. keeps R (f x)"
  shows "keeps R (\<lambda>s. Option.bind (m s) (\<lambda>(x, s). f x s))"
  using assms by (fastforce simp: keeps_def Option.bind_eq_Some_conv intro: trans)

end


section \<open>Functions that return\<close>

text \<open>
  \<open>lives P m\<close>: from every state with \<open>P\<close> the function returns, in a state with \<open>P\<close>
  again. With \<open>P\<close> "the kernel refuses no further request" this is the statement that a
  function never ends the process.
\<close>

definition lives :: "('s \<Rightarrow> bool) \<Rightarrow> ('s, 'a) cmd \<Rightarrow> bool" where
  "lives P m \<longleftrightarrow> (\<forall>s. P s \<longrightarrow> (\<exists>x t. m s = Some (x, t) \<and> P t))"

lemma livesE: "lives P m \<Longrightarrow> P s \<Longrightarrow> (\<And>x t. m s = Some (x, t) \<Longrightarrow> P t \<Longrightarrow> Q) \<Longrightarrow> Q"
  by (auto simp: lives_def)

lemma lives_return [lives_rules]: "lives P (\<lambda>s. Some (x, s))"
  by (simp add: lives_def)

lemma lives_returns [lives_rules]: "lives P (\<lambda>s. Some (f s, s))"
  by (simp add: lives_def)

lemma lives_bind [lives_rules]:
  "lives P m \<Longrightarrow> (\<And>x. lives P (f x)) \<Longrightarrow>
   lives P (\<lambda>s. Option.bind (m s) (\<lambda>(x, s). f x s))"
  by (fastforce simp: lives_def Option.bind_eq_Some_conv)

lemma lives_if [lives_rules]:
  "(b \<Longrightarrow> lives P f) \<Longrightarrow> (\<not> b \<Longrightarrow> lives P g) \<Longrightarrow> lives P (\<lambda>s. if b then f s else g s)"
  by (cases b) (simp_all add: lives_def)

lemma lives_ifs [lives_rules]:
  "lives P f \<Longrightarrow> lives P g \<Longrightarrow> lives P (\<lambda>s. if b s then f s else g s)"
  by (simp add: lives_def)

lemma lives_let [lives_rules]: "(\<And>x. lives P (f x)) \<Longrightarrow> lives P (\<lambda>s. let x = g s in f x s)"
  by (simp add: lives_def Let_def)

lemma lives_case_option [lives_rules]:
  "lives P f \<Longrightarrow> (\<And>x. lives P (g x)) \<Longrightarrow>
   lives P (\<lambda>s. case z of None \<Rightarrow> f s | Some x \<Rightarrow> g x s)"
  by (cases z) simp_all

lemma lives_case_prod [lives_rules]:
  "(\<And>x y. lives P (g x y)) \<Longrightarrow> lives P (\<lambda>s. case z of (x, y) \<Rightarrow> g x y s)"
  by (cases z) simp

lemma lives_case_prod_fun [lives_rules]:
  "(\<And>x y. lives P (g x y)) \<Longrightarrow> lives P (case z of (x, y) \<Rightarrow> g x y)"
  by (cases z) simp

lemma lives_read: "(\<And>c. lives P (f c)) \<Longrightarrow> lives P (\<lambda>s. f (g s) s)"
  by (simp add: lives_def)


section \<open>What a function's result satisfies\<close>

text \<open>\<open>gives Q m\<close>: whatever the state, a result that \<open>m\<close> returns satisfies \<open>Q\<close>.\<close>

definition gives :: "('a \<Rightarrow> bool) \<Rightarrow> ('s, 'a) cmd \<Rightarrow> bool" where
  "gives Q m \<longleftrightarrow> (\<forall>s x t. m s = Some (x, t) \<longrightarrow> Q x)"

lemma givesD: "gives Q m \<Longrightarrow> m s = Some (x, t) \<Longrightarrow> Q x"
  by (auto simp: gives_def)

lemma gives_return: "Q x \<Longrightarrow> gives Q (\<lambda>s. Some (x, s))"
  by (simp add: gives_def)

lemma gives_fail: "gives Q (\<lambda>s. None)"
  by (simp add: gives_def)

lemma gives_true: "gives (\<lambda>x. True) m"
  by (simp add: gives_def)

lemma gives_bind:
  assumes "gives P m" and "\<And>x. P x \<Longrightarrow> gives Q (f x)"
  shows "gives Q (\<lambda>s. Option.bind (m s) (\<lambda>(x, s). f x s))"
  using assms by (fastforce simp: gives_def Option.bind_eq_Some_conv)

lemmas gives_then = gives_bind [where P = "\<lambda>x. True", OF gives_true]

lemma gives_if: "(b \<Longrightarrow> gives Q f) \<Longrightarrow> (\<not> b \<Longrightarrow> gives Q g) \<Longrightarrow> gives Q (\<lambda>s. if b then f s else g s)"
  by (cases b) (simp_all add: gives_def)

lemma gives_ifs: "gives Q f \<Longrightarrow> gives Q g \<Longrightarrow> gives Q (\<lambda>s. if b s then f s else g s)"
  by (simp add: gives_def)

lemma gives_case_prod: "(\<And>x y. z = (x, y) \<Longrightarrow> gives Q (g x y)) \<Longrightarrow> gives Q (\<lambda>s. case z of (x, y) \<Rightarrow> g x y s)"
  by (cases z) simp

lemma gives_case_prod_fun: "(\<And>x y. z = (x, y) \<Longrightarrow> gives Q (g x y)) \<Longrightarrow> gives Q (case z of (x, y) \<Rightarrow> g x y)"
  by (cases z) simp

lemma gives_case_option:
  "(z = None \<Longrightarrow> gives Q f) \<Longrightarrow> (\<And>x. z = Some x \<Longrightarrow> gives Q (g x)) \<Longrightarrow>
   gives Q (\<lambda>s. case z of None \<Rightarrow> f s | Some x \<Rightarrow> g x s)"
  by (cases z) simp_all

text \<open>Sequencing where the second function relies on the first one's result.\<close>

context frame_rel
begin

lemma keeps_bind_gives:
  assumes "gives P m" and "keeps R m" and "\<And>x. P x \<Longrightarrow> keeps R (f x)"
  shows "keeps R (\<lambda>s. Option.bind (m s) (\<lambda>(x, s). f x s))"
  using assms by (fastforce simp: keeps_def gives_def Option.bind_eq_Some_conv intro: trans)

end

lemma lives_bind_gives:
  assumes "gives P m" and "lives I m" and "\<And>x. P x \<Longrightarrow> lives I (f x)"
  shows "lives I (\<lambda>s. Option.bind (m s) (\<lambda>(x, s). f x s))"
  using assms by (fastforce simp: lives_def gives_def Option.bind_eq_Some_conv)


section \<open>Bytes and buffers\<close>

definition pad_to :: "nat \<Rightarrow> u8 \<Rightarrow> u8 list \<Rightarrow> u8 list" where
  \<comment> \<open>a buffer of \<open>n\<close> bytes that starts with \<open>xs\<close> and is filled up with \<open>c\<close>\<close>
  "pad_to n c xs = xs @ replicate (n - length xs) c"

lemma length_pad_to [simp]: "length xs \<le> n \<Longrightarrow> length (pad_to n c xs) = n"
  by (simp add: pad_to_def)

lemma take_pad_to [simp]: "take (length xs) (pad_to n c xs) = xs"
  by (simp add: pad_to_def)

lemma nth_pad_to: "i < length xs \<Longrightarrow> pad_to n c xs ! i = xs ! i"
  by (simp add: pad_to_def nth_append)

lemma xor_cancel [simp]: "(a XOR b) XOR b = (a :: 'a::len word)"
  by (simp add: xor.assoc)

lemma xor_zero: "(a :: 'a::len word) XOR b = 0 \<Longrightarrow> a = b"
  using xor_cancel [of a b] by simp

lemma xor_swap: assumes "(a :: 'a::len word) XOR b = c XOR d" shows "a XOR c = b XOR d"
proof (rule bit_eqI)
  fix n
  have "bit (a XOR b) n = bit (c XOR d) n" using assms by simp
  then show "bit (a XOR c) n = bit (b XOR d) n" by (auto simp: bit_xor_iff)
qed

lemma unat_u8_le: "unat (x :: u8) \<le> 255"
  using unsigned_less [of x, where 'a = nat] by simp

lemma and_7_eq: "x AND 7 = (x mod 8 :: u8)"
  using take_bit_eq_mask [of 3 x] take_bit_eq_mod [of 3 x] by (simp add: mask_eq_exp_minus_1)

lemma unat_and_7: "unat (x AND 7 :: u8) = unat x mod 8"
  by (simp add: and_7_eq unat_mod)

lemma unat_and_7_less [simp]: "unat (x AND 7 :: u8) < 8"
  by (simp add: unat_and_7)

end
