(* ===== verification/Machine.thy ===== *)
theory Machine
  imports Prelude
begin

text \<open>
  The process and what surrounds it: the configuration (\<open>struct cfg\<close> of ezsp-spi.h and its
  defaults in config.c), the static variables of the program, the kernel's answers, and
  the record of everything the process did to the outside (config.c, gpio.c).

  The kernel and the devices are not under src/. Each kind of answer the process gets from
  them is an input list of the state, consumed from the front: the bytes the NCP shifts
  out, which ioctl the kernel refuses, the levels read from nHOST_INT, and so on. Every
  theorem quantifies over these lists, so over every behaviour of the devices in a run.
  A list that is used up stands for the quiet answer: nothing refused, the SPI bus idle at
  0xFF, nHOST_INT released, a poll that times out, a write that takes everything.
  What the process prints to stdout and stderr is not part of the state.
\<close>

section \<open>Configuration\<close>

record cfg =
  cfg_spidev :: string
  cfg_gpiochip :: string
  cfg_reset_line :: u32
  cfg_wake_line :: u32
  cfg_int_line :: u32
  cfg_nssel_int_line :: u32
  cfg_reset_set :: bool
  cfg_wake_set :: bool
  cfg_int_set :: bool
  cfg_nssel_int_set :: bool
  cfg_cs_set :: bool
  cfg_cs_line :: u32
  cfg_nssel_int_mode :: string
  cfg_wait_bytes :: u32
  cfg_ezsp_version :: u32
  cfg_ezsp_want :: u32
  cfg_channel :: u32
  cfg_pan_id :: u16
  cfg_ext_pan_id :: "u8 list"
  cfg_have_pan_id :: bool
  cfg_have_ext_pan_id :: bool
  cfg_tx_power :: int
  cfg_sec_bitmask :: u16
  cfg_join_timeout :: u32
  cfg_join_retries :: u32
  cfg_report_secs :: u32
  cfg_no_precheck :: bool
  cfg_sock_path :: string
  cfg_bind_addr :: string
  cfg_bridge_port :: u32
  cfg_speed :: u32
  cfg_gap_us :: u32
  cfg_no_reset :: bool
  cfg_wake_handshake :: bool
  cfg_quiet :: bool
  cfg_verbose :: bool

definition SEC_TRUST_CENTER_GLOBAL_LINK_KEY :: u16 where "SEC_TRUST_CENTER_GLOBAL_LINK_KEY = 0x0004"
definition SEC_HAVE_PRECONFIGURED_KEY :: u16 where "SEC_HAVE_PRECONFIGURED_KEY = 0x0100"

definition default_cfg :: cfg where
  "default_cfg = \<lparr>
     cfg_spidev = ''/dev/spidev1.0'',
     cfg_gpiochip = ''/dev/gpiochip0'',
     cfg_reset_line = 49,
     cfg_wake_line = 31,
     cfg_int_line = 50,
     cfg_nssel_int_line = 29,
     cfg_reset_set = False, cfg_wake_set = False, cfg_int_set = False,
     cfg_nssel_int_set = False, cfg_cs_set = False,
     cfg_cs_line = 45,
     cfg_nssel_int_mode = ''follow'',
     cfg_wait_bytes = 512,
     cfg_ezsp_version = 4,
     cfg_ezsp_want = 4,
     cfg_channel = 0,
     cfg_pan_id = 0,
     cfg_ext_pan_id = replicate 8 0,
     cfg_have_pan_id = False, cfg_have_ext_pan_id = False,
     cfg_tx_power = 8,
     cfg_sec_bitmask = SEC_HAVE_PRECONFIGURED_KEY OR SEC_TRUST_CENTER_GLOBAL_LINK_KEY,
     cfg_join_timeout = 60,
     cfg_join_retries = 2,
     cfg_report_secs = 300,
     cfg_no_precheck = False,
     cfg_sock_path = ''/var/run/ezsp-spi.sock'',
     cfg_bind_addr = ''0.0.0.0'',
     cfg_bridge_port = 8888,
     cfg_speed = 1000000,
     cfg_gap_us = 2000,
     cfg_no_reset = False,
     cfg_wake_handshake = True,
     cfg_quiet = False,
     cfg_verbose = False\<rparr>"


section \<open>The kernel's answers and the process's actions\<close>

datatype line_res = \<comment> \<open>opening the chip and \<open>GPIO_V2_GET_LINE_IOCTL\<close>\<close>
    ChipErr | LineErr | Line nat

datatype edge_in = \<comment> \<open>one \<open>poll\<close> of a line request and the \<open>read\<close> that follows it\<close>
    PollIntr | PollErr | PollTimeout | ShortRead | Rising | Falling nat

datatype write_res = \<comment> \<open>one \<open>write\<close>: bytes taken, EINTR or EAGAIN, another error\<close>
    Wrote nat | WIntr | WErr

datatype client = \<comment> \<open>one connection on the control socket: \<open>accept\<close> and \<open>read\<close>\<close>
    NoClient               \<comment> \<open>\<open>accept\<close> failed\<close>
  | SilentClient           \<comment> \<open>nothing to read\<close>
  | Request string bool    \<comment> \<open>the bytes read; whether the client is still there for the reply\<close>

datatype daemon = \<comment> \<open>one attempt to reach a running daemon\<close>
    NoDaemon               \<comment> \<open>\<open>socket\<close>, \<open>connect\<close> or \<open>write\<close> failed\<close>
  | Answered string

datatype event =
    LineOut u32 bool           \<comment> \<open>GPIO offset requested as an output with this level\<close>
  | LineIn u32                 \<comment> \<open>GPIO offset requested as an input with edges\<close>
  | GpioSet int bool           \<comment> \<open>level driven on a requested line (its fd)\<close>
  | GpioWait int int           \<comment> \<open>wait for a falling edge on a line, with a timeout in ms\<close>
  | Sleep nat                  \<comment> \<open>microseconds slept\<close>
  | SpiXfer "u8 list" bool     \<comment> \<open>bytes clocked out, chip select kept after the transfer\<close>
  | TcpSend int "u8 list"      \<comment> \<open>bytes the kernel took for a client socket\<close>
  | SpiOpen string u32         \<comment> \<open>the SPI device and its clock\<close>
  | CloseFd int
  | LinePoll int               \<comment> \<open>the daemon's \<open>poll\<close>, with its timeout in ms\<close>
  | ControlReply string        \<comment> \<open>the reply written to a control client\<close>
  | ControlQuery string string \<comment> \<open>path and request of a query to a running daemon\<close>

text \<open>
  The static variables of the Zigbee node's side (zcl.c), with the answers only it and the
  daemon ask the kernel for.
\<close>

record node =
  zcl_tag :: u8                \<comment> \<open>the static \<open>tag\<close> of \<open>zcl_send\<close>\<close>
  report_count :: u32
  report_failed :: u32
  report_last :: int           \<comment> \<open>a \<open>time_t\<close>, 0 before the first report\<close>
  host :: string               \<comment> \<open>the static \<open>host\<close> of \<open>zcl_location\<close>\<close>
  hostname :: "string option"  \<comment> \<open>what \<open>gethostname\<close> leaves in its buffer, if it succeeds\<close>
  clock :: "int list"          \<comment> \<open>what each \<open>time(NULL)\<close> returns\<close>
  rands :: "nat list"          \<comment> \<open>what each \<open>rand()\<close> returns\<close>
  polls :: "(bool \<times> bool) list" \<comment> \<open>what the daemon's \<open>poll\<close> reports: nHOST_INT, control socket\<close>
  clients :: "client list"
  daemons :: "daemon list"

definition node0 :: node where
  "node0 = \<lparr>zcl_tag = 0, report_count = 0, report_failed = 0, report_last = 0, host = [],
     hostname = None, clock = [], rands = [], polls = [], clients = [], daemons = []\<rparr>"

record sys =
  cfg :: cfg                   \<comment> \<open>\<open>struct cfg cfg\<close>\<close>
  cs_follows :: bool           \<comment> \<open>\<open>int cs_follows\<close>\<close>
  ezsp_seq :: u8               \<comment> \<open>the static \<open>seq\<close> of \<open>ezsp_xfer\<close>\<close>
  node :: node                 \<comment> \<open>the statics of zcl.c and the daemon's inputs\<close>
  board_file :: "string option"    \<comment> \<open>what \<open>/tmp/sysinfo/board_name\<close> holds\<close>
  line_results :: "line_res list"
  spi_fd :: int                \<comment> \<open>the descriptor \<open>open\<close> gives for the SPI device\<close>
  kfail :: "bool list"         \<comment> \<open>for each SPI and GPIO-set request, whether it is refused\<close>
  miso :: "u8 list"            \<comment> \<open>the bytes the NCP shifts out as the host clocks\<close>
  levels :: "int list"         \<comment> \<open>what each \<open>gpio_get\<close> returns: 0, 1, or -1 on failure\<close>
  edges :: "edge_in list"
  writes :: "write_res list"
  trace :: "event list"        \<comment> \<open>what the process did, oldest first\<close>

definition sys0 :: sys where
  "sys0 = \<lparr>cfg = default_cfg, cs_follows = False, ezsp_seq = 0, node = node0, board_file = None,
     line_results = [], spi_fd = 0, kfail = [], miso = [], levels = [], edges = [], writes = [],
     trace = []\<rparr>"

definition emit :: "event \<Rightarrow> sys \<Rightarrow> sys" where
  "emit e s = s\<lparr>trace := trace s @ [e]\<rparr>"

definition ioctl :: "(sys, unit) cmd" where
  "ioctl s = (case kfail s of
      [] \<Rightarrow> Some ((), s)
    | True # fs \<Rightarrow> None
    | False # fs \<Rightarrow> Some ((), s\<lparr>kfail := fs\<rparr>))"

definition usleep :: "nat \<Rightarrow> (sys, unit) cmd" where
  "usleep us s = Some ((), emit (Sleep us) s)"

definition take_clock :: "sys \<Rightarrow> int \<times> sys" where
  \<comment> \<open>\<open>time(NULL)\<close>\<close>
  "take_clock s = (case clock (node s) of
      [] \<Rightarrow> (0, s)
    | t # ts \<Rightarrow> (t, s\<lparr>node := (node s)\<lparr>clock := ts\<rparr>\<rparr>))"

definition take_rand :: "sys \<Rightarrow> nat \<times> sys" where
  \<comment> \<open>\<open>rand()\<close>\<close>
  "take_rand s = (case rands (node s) of
      [] \<Rightarrow> (0, s)
    | r # rs \<Rightarrow> (r, s\<lparr>node := (node s)\<lparr>rands := rs\<rparr>\<rparr>))"

definition msleep :: "nat \<Rightarrow> (sys, unit) cmd" where
  "msleep ms s = Some ((), emit (Sleep (1000 * ms)) s)"


section \<open>GPIO lines (gpio.c)\<close>

definition take_line :: "sys \<Rightarrow> line_res \<times> sys" where
  "take_line s = (case line_results s of
      [] \<Rightarrow> (LineErr, s)
    | r # rs \<Rightarrow> (r, s\<lparr>line_results := rs\<rparr>))"

definition gpio_request_output :: "u32 \<Rightarrow> bool \<Rightarrow> (sys, int) cmd" where
  "gpio_request_output off v s = (case take_line s of
      (Line fd, s) \<Rightarrow> Some (int fd, emit (LineOut off v) s)
    | (_, s) \<Rightarrow> None)"

definition gpio_try_output :: "u32 \<Rightarrow> bool \<Rightarrow> (sys, int) cmd" where
  "gpio_try_output off v s = (case take_line s of
      (Line fd, s) \<Rightarrow> Some (int fd, emit (LineOut off v) s)
    | (_, s) \<Rightarrow> Some (-1, s))"

definition gpio_request_input_edges :: "u32 \<Rightarrow> (sys, int) cmd" where
  "gpio_request_input_edges off s = (case take_line s of
      (Line fd, s) \<Rightarrow> Some (int fd, emit (LineIn off) s)
    | (ChipErr, s) \<Rightarrow> None
    | (LineErr, s) \<Rightarrow> Some (-1, s))"

definition gpio_set :: "int \<Rightarrow> bool \<Rightarrow> (sys, unit) cmd" where
  "gpio_set fd v s = do {
     (_, s) \<leftarrow> ioctl s;
     Some ((), emit (GpioSet fd v) s)
   }"

definition gpio_get :: "int \<Rightarrow> (sys, int) cmd" where
  "gpio_get fd s = (case levels s of
      [] \<Rightarrow> Some (1, s)
    | l # ls \<Rightarrow> Some (l, s\<lparr>levels := ls\<rparr>))"

text \<open>
  The loop of \<open>gpio_wait_falling\<close>: a rising edge and an interrupted poll go round again.
  The elapsed time it returns is the difference of two \<open>CLOCK_MONOTONIC\<close> readings, which
  the falling edge of the input carries.
\<close>

fun wait_edges :: "edge_in list \<Rightarrow> int \<times> edge_in list" where
  "wait_edges [] = (-1, [])"
| "wait_edges (PollIntr # es) = wait_edges es"
| "wait_edges (PollErr # es) = (-1, es)"
| "wait_edges (PollTimeout # es) = (-1, es)"
| "wait_edges (ShortRead # es) = (-1, es)"
| "wait_edges (Rising # es) = wait_edges es"
| "wait_edges (Falling ms # es) = (int ms, es)"

definition gpio_wait_falling :: "int \<Rightarrow> int \<Rightarrow> (sys, int) cmd" where
  "gpio_wait_falling fd timeout_ms s =
     (let (r, es) = wait_edges (edges s)
      in Some (r, emit (GpioWait fd timeout_ms) (s\<lparr>edges := es\<rparr>)))"

fun drain_edges :: "edge_in list \<Rightarrow> edge_in list" where
  "drain_edges (Rising # es) = drain_edges es"
| "drain_edges (Falling ms # es) = drain_edges es"
| "drain_edges (e # es) = es"
| "drain_edges [] = []"

definition gpio_drain_events :: "int \<Rightarrow> (sys, unit) cmd" where
  "gpio_drain_events fd s = Some ((), s\<lparr>edges := drain_edges (edges s)\<rparr>)"


section \<open>What talking to the radio leaves alone\<close>

text \<open>
  \<open>radio s t\<close>: between \<open>s\<close> and \<open>t\<close> the process only drove lines, waited on them, slept
  and clocked the SPI bus. The configuration, the client's socket and the requested lines
  are untouched, and nothing that the kernel had not refused before is refused now. Every
  function of the SPI and GPIO layers keeps this relation; the components above use it to
  know that an exchange with the NCP writes nothing to a client.
\<close>

fun radio_event :: "event \<Rightarrow> bool" where
  "radio_event (GpioSet fd v) = True"
| "radio_event (GpioWait fd ms) = True"
| "radio_event (Sleep us) = True"
| "radio_event (SpiXfer bs keep) = True"
| "radio_event e = False"

definition radio :: "sys \<Rightarrow> sys \<Rightarrow> bool" where
  "radio s t \<longleftrightarrow> cfg t = cfg s \<and> cs_follows t = cs_follows s \<and> ezsp_seq t = ezsp_seq s \<and>
     board_file t = board_file s \<and> line_results t = line_results s \<and>
     spi_fd t = spi_fd s \<and> writes t = writes s \<and>
     node t = node s \<and>
     (kfail s = [] \<longrightarrow> kfail t = []) \<and>
     (\<exists>ev. trace t = trace s @ ev \<and> list_all radio_event ev)"

definition ioctls_ok :: "sys \<Rightarrow> bool" where
  "ioctls_ok s \<longleftrightarrow> kfail s = []"

lemma radio_refl: "radio s s"
  by (simp add: radio_def)

lemma radio_trans: "radio s t \<Longrightarrow> radio t u \<Longrightarrow> radio s u"
  by (fastforce simp: radio_def)

interpretation radio: frame_rel radio
  by unfold_locales (blast intro: radio_refl radio_trans)+

declare radio.keeps_return [keeps_rules]
  radio.keeps_returns [keeps_rules]
  radio.keeps_bind [keeps_rules]

lemma radio_emit: "radio_event e \<Longrightarrow> radio s (emit e s)"
  by (simp add: radio_def emit_def)

lemma radio_ioctl [keeps_rules]: "keeps radio ioctl"
  by (auto simp: keeps_def radio_def ioctl_def split: list.splits bool.splits)

lemma radio_usleep [keeps_rules]: "keeps radio (usleep us)"
  by (simp add: keeps_def usleep_def radio_emit)

lemma radio_msleep [keeps_rules]: "keeps radio (msleep ms)"
  by (simp add: keeps_def msleep_def radio_emit)

lemma radio_emits [keeps_rules]: "radio_event e \<Longrightarrow> keeps radio (\<lambda>s. Some (x, emit e s))"
  by (simp add: keeps_def radio_emit)

lemma radio_gpio_set [keeps_rules]: "keeps radio (gpio_set fd v)"
  unfolding gpio_set_def by (intro keeps_rules) simp

lemma radio_gpio_get [keeps_rules]: "keeps radio (gpio_get fd)"
  by (auto simp: keeps_def radio_def gpio_get_def split: list.splits)

lemma radio_gpio_wait [keeps_rules]: "keeps radio (gpio_wait_falling fd ms)"
  by (auto simp: keeps_def radio_def gpio_wait_falling_def emit_def split: prod.splits)

lemma radio_gpio_drain [keeps_rules]: "keeps radio (gpio_drain_events fd)"
  by (auto simp: keeps_def radio_def gpio_drain_events_def)

lemma lives_ioctl [lives_rules]: "lives ioctls_ok ioctl"
  by (simp add: lives_def ioctls_ok_def ioctl_def)

lemma lives_usleep [lives_rules]: "lives ioctls_ok (usleep us)"
  by (simp add: lives_def ioctls_ok_def usleep_def emit_def)

lemma lives_msleep [lives_rules]: "lives ioctls_ok (msleep ms)"
  by (simp add: lives_def ioctls_ok_def msleep_def emit_def)

lemma lives_emits [lives_rules]: "lives ioctls_ok (\<lambda>s. Some (x, emit e s))"
  by (simp add: lives_def ioctls_ok_def emit_def)

lemma lives_gpio_set [lives_rules]: "lives ioctls_ok (gpio_set fd v)"
  unfolding gpio_set_def by (intro lives_rules)

lemma lives_gpio_get [lives_rules]: "lives ioctls_ok (gpio_get fd)"
  by (auto simp: lives_def ioctls_ok_def gpio_get_def split: list.splits)

lemma lives_gpio_wait [lives_rules]: "lives ioctls_ok (gpio_wait_falling fd ms)"
  by (auto simp: lives_def ioctls_ok_def gpio_wait_falling_def emit_def split: prod.splits)

lemma lives_gpio_drain [lives_rules]: "lives ioctls_ok (gpio_drain_events fd)"
  by (auto simp: lives_def ioctls_ok_def gpio_drain_events_def)


section \<open>Evaluation on a state with no refusals\<close>

text \<open>Equations that run the primitives on a state where the kernel refuses nothing.\<close>

named_theorems run_simps \<open>equations that run an effectful function on a quiet kernel\<close>

lemma ioctl_ok [run_simps]: "kfail s = [] \<Longrightarrow> ioctl s = Some ((), s)"
  by (simp add: ioctl_def)

lemma gpio_set_ok [run_simps]: "kfail s = [] \<Longrightarrow> gpio_set fd v s = Some ((), emit (GpioSet fd v) s)"
  by (simp add: gpio_set_def ioctl_def)

lemma emit_sel [simp]:
  "cfg (emit e s) = cfg s" "cs_follows (emit e s) = cs_follows s"
  "ezsp_seq (emit e s) = ezsp_seq s" "board_file (emit e s) = board_file s"
  "line_results (emit e s) = line_results s" "spi_fd (emit e s) = spi_fd s" "kfail (emit e s) = kfail s"
  "miso (emit e s) = miso s" "levels (emit e s) = levels s" "edges (emit e s) = edges s"
  "node (emit e s) = node s"
  "writes (emit e s) = writes s" "trace (emit e s) = trace s @ [e]"
  by (simp_all add: emit_def)


section \<open>What a primitive that returned has done\<close>

lemma gpio_set_Some: "gpio_set fd v s = Some (x, t) \<Longrightarrow>
   trace t = trace s @ [GpioSet fd v] \<and> cfg t = cfg s \<and> cs_follows t = cs_follows s \<and>
   miso t = miso s"
  by (auto simp: gpio_set_def ioctl_def Option.bind_eq_Some_conv split: list.splits bool.splits)

lemma gpio_wait_Some: "gpio_wait_falling fd ms s = Some (r, t) \<Longrightarrow>
   trace t = trace s @ [GpioWait fd ms] \<and> cfg t = cfg s \<and> cs_follows t = cs_follows s \<and>
   miso t = miso s"
  by (auto simp: gpio_wait_falling_def split: prod.splits)

lemma gpio_drain_Some: "gpio_drain_events fd s = Some (r, t) \<Longrightarrow>
   trace t = trace s \<and> cfg t = cfg s \<and> cs_follows t = cs_follows s \<and>
   miso t = miso s"
  by (auto simp: gpio_drain_events_def)

lemma gpio_get_Some: "gpio_get fd s = Some (r, t) \<Longrightarrow>
   trace t = trace s \<and> cfg t = cfg s \<and> cs_follows t = cs_follows s \<and>
   miso t = miso s"
  by (auto simp: gpio_get_def split: list.splits)

lemma usleep_Some: "usleep us s = Some (r, t) \<Longrightarrow>
   trace t = trace s @ [Sleep us] \<and> cfg t = cfg s \<and> cs_follows t = cs_follows s \<and>
   miso t = miso s"
  by (auto simp: usleep_def)

lemma msleep_Some: "msleep ms s = Some (r, t) \<Longrightarrow>
   trace t = trace s @ [Sleep (1000 * ms)] \<and> cfg t = cfg s \<and> cs_follows t = cs_follows s \<and>
   miso t = miso s"
  by (auto simp: msleep_def)

lemmas trace_dests = gpio_set_Some gpio_wait_Some gpio_drain_Some gpio_get_Some usleep_Some msleep_Some

end
