(* ===== verification/Spi.thy ===== *)
theory Spi
  imports Machine
begin

text \<open>
  The SPI layer (spi.c): one transfer, one whole EZSP-SPI transaction, and the decoding of
  the NCP's first byte. A transaction is framed by chip select; the bytes the NCP shifts
  out are consumed from \<open>miso\<close>, one per byte clocked, so what a transaction leaves there
  is exactly what it did not clock.
\<close>

unbundle bit_operations_syntax

section \<open>Protocol constants and pins (ezsp-spi.h)\<close>

abbreviation SPI_CMD_VERSION :: u8 where "SPI_CMD_VERSION \<equiv> 0x0A"
abbreviation SPI_CMD_STATUS :: u8 where "SPI_CMD_STATUS \<equiv> 0x0B"
abbreviation SPI_CMD_EZSP_FRAME :: u8 where "SPI_CMD_EZSP_FRAME \<equiv> 0xFE"
abbreviation SPI_FRAME_TERMINATOR :: u8 where "SPI_FRAME_TERMINATOR \<equiv> 0xA7"
abbreviation SPI_IDLE :: u8 where "SPI_IDLE \<equiv> 0xFF"
abbreviation SPI_ERR_RESET :: u8 where "SPI_ERR_RESET \<equiv> 0x00"
abbreviation SPI_ERR_OVERSIZED :: u8 where "SPI_ERR_OVERSIZED \<equiv> 0x01"
abbreviation SPI_ERR_ABORTED :: u8 where "SPI_ERR_ABORTED \<equiv> 0x02"
abbreviation SPI_ERR_MISSING_TERM :: u8 where "SPI_ERR_MISSING_TERM \<equiv> 0x03"
abbreviation SPI_ERR_UNSUPPORTED :: u8 where "SPI_ERR_UNSUPPORTED \<equiv> 0x04"

text \<open>The requested lines, by file descriptor; \<open>-1\<close> for a line not held.\<close>

record pins =
  pin_reset :: int
  pin_wake :: int
  pin_nssel_int :: int
  pin_cs :: int
  pin_hint :: int


section \<open>Transfers and chip select\<close>

definition shift_in :: "nat \<Rightarrow> u8 list \<Rightarrow> u8 list \<times> u8 list" where
  "shift_in n m = (take n m @ replicate (n - length m) SPI_IDLE, drop n m)"

text \<open>\<open>spi_open\<close>: the \<open>open\<close> and its three settings, each of which may be refused.\<close>

definition spi_open :: "(sys, int) cmd" where
  "spi_open s = do {
     (_, s) \<leftarrow> ioctl s;
     (_, s) \<leftarrow> ioctl s;
     (_, s) \<leftarrow> ioctl s;
     (_, s) \<leftarrow> ioctl s;
     Some (spi_fd s, emit (SpiOpen (cfg_spidev (cfg s)) (cfg_speed (cfg s))) s)
   }"

text \<open>
  \<open>spi_raw\<close> clocks the bytes of \<open>tx\<close> out and returns the as many bytes the NCP shifts in.
  Where the code passes a null receive buffer the caller drops the result.
\<close>

definition spi_raw :: "int \<Rightarrow> u8 list \<Rightarrow> bool \<Rightarrow> (sys, u8 list) cmd" where
  "spi_raw fd tx keep_cs s = do {
     (_, s) \<leftarrow> ioctl s;
     let (r, m) = shift_in (length tx) (miso s);
     Some (r, emit (SpiXfer tx keep_cs) (s\<lparr>miso := m\<rparr>))
   }"

definition cs_assert :: "pins \<Rightarrow> (sys, unit) cmd" where
  "cs_assert p s = do {
     (_, s) \<leftarrow> (if pin_cs p \<ge> 0 then gpio_set (pin_cs p) False s else Some ((), s));
     (if pin_nssel_int p \<ge> 0 \<and> cs_follows s
      then gpio_set (pin_nssel_int p) False s else Some ((), s))
   }"

definition cs_release :: "pins \<Rightarrow> (sys, unit) cmd" where
  "cs_release p s = do {
     (_, s) \<leftarrow> (if pin_cs p \<ge> 0 then gpio_set (pin_cs p) True s else Some ((), s));
     (if pin_nssel_int p \<ge> 0 \<and> cs_follows s
      then gpio_set (pin_nssel_int p) True s else Some ((), s))
   }"


section \<open>A framed transaction\<close>

text \<open>The wait states: at most \<open>cfg.wait_bytes\<close> single idle bytes, until one comes back.\<close>

fun wait_states :: "nat \<Rightarrow> int \<Rightarrow> (sys, u8) cmd" where
  "wait_states 0 spi s = Some (SPI_IDLE, s)"
| "wait_states (Suc k) spi s = do {
     (r, s) \<leftarrow> spi_raw spi [SPI_IDLE] True s;
     if hd r \<noteq> SPI_IDLE then Some (hd r, s) else wait_states k spi s
   }"

text \<open>
  What has been read when the response type is known, and how many bytes are left: an EZSP
  frame's length byte is fetched on its own, an error carries one data byte.
\<close>

definition response_head :: "int \<Rightarrow> u8 \<Rightarrow> nat \<Rightarrow> (sys, u8 list \<times> nat) cmd" where
  "response_head spi b rxlen s =
     (if b = SPI_CMD_EZSP_FRAME then
        if 1 < rxlen then do {
          (r, s) \<leftarrow> spi_raw spi [SPI_IDLE] True s;
          Some (([b, hd r], unat (hd r) + 1), s)
        }
        else Some (([b], 1), s)
      else if b \<le> SPI_ERR_UNSUPPORTED then Some (([b], 2), s)
      else Some (([b], 1), s))"

text \<open>The last transfer: exactly the bytes that are left, releasing a kernel chip select.\<close>

definition response_tail :: "int \<Rightarrow> pins \<Rightarrow> nat \<Rightarrow> (sys, u8 list) cmd" where
  "response_tail spi p remain s =
     (if remain \<noteq> 0 then spi_raw spi (replicate remain SPI_IDLE) (pin_cs p \<ge> 0) s
      else if pin_cs p < 0 then do {
        (_, s) \<leftarrow> spi_raw spi [SPI_IDLE] False s;
        Some ([], s)
      }
      else Some ([], s))"

text \<open>
  The steps of \<open>spi_txn_framed\<close>: the command, and the two ways to end. The result is the
  number of bytes received and the whole receive buffer of \<open>rxlen\<close> bytes, zeroed first.
  Every caller passes a buffer of at least one byte.
\<close>

definition txn_command :: "int \<Rightarrow> u8 list \<Rightarrow> (sys, unit) cmd" where
  "txn_command spi tx s =
     (if tx \<noteq> [] then do { (_, s) \<leftarrow> spi_raw spi tx True s; Some ((), s) } else Some ((), s))"

definition txn_no_response :: "int \<Rightarrow> pins \<Rightarrow> nat \<Rightarrow> (sys, nat \<times> u8 list) cmd" where
  "txn_no_response spi p rxlen s = do {
     (_, s) \<leftarrow> (if pin_cs p \<ge> 0 then cs_release p s
               else do { (_, s) \<leftarrow> spi_raw spi [SPI_IDLE] False s; Some ((), s) });
     Some ((0, pad_to rxlen 0 []), s)
   }"

definition txn_response :: "int \<Rightarrow> pins \<Rightarrow> u8 \<Rightarrow> nat \<Rightarrow> (sys, nat \<times> u8 list) cmd" where
  "txn_response spi p b rxlen s = do {
     ((got, left), s) \<leftarrow> response_head spi b rxlen s;
     (more, s) \<leftarrow> response_tail spi p (min (min left (rxlen - length got)) 260) s;
     (_, s) \<leftarrow> cs_release p s;
     Some ((length (got @ more), pad_to rxlen 0 (got @ more)), s)
   }"

definition spi_txn_framed ::
  "int \<Rightarrow> pins \<Rightarrow> u8 list \<Rightarrow> nat \<Rightarrow> (sys, nat \<times> u8 list) cmd" where
  "spi_txn_framed spi p tx rxlen s = do {
     (_, s) \<leftarrow> cs_assert p s;
     (_, s) \<leftarrow> txn_command spi tx s;
     (b, s) \<leftarrow> wait_states (unat (cfg_wait_bytes (cfg s))) spi s;
     if b = SPI_IDLE then txn_no_response spi p rxlen s
     else txn_response spi p b rxlen s
   }"


section \<open>Reading a response\<close>

fun spi_first_response :: "u8 list \<Rightarrow> nat option" where
  "spi_first_response [] = None"
| "spi_first_response (b # bs) =
     (if b \<noteq> SPI_IDLE then Some 0 else map_option Suc (spi_first_response bs))"

definition reset_reason :: "u8 \<Rightarrow> string" where
  "reset_reason code =
     (if code = 0x00 then ''unknown''
      else if code = 0x01 then ''external''
      else if code = 0x02 then ''power on''
      else if code = 0x03 then ''watchdog''
      else if code = 0x04 then ''assert''
      else if code = 0x05 then ''bootloader''
      else if code = 0x06 then ''software''
      else if code = 0x0B then ''SOFTWARE (extended code)''
      else ''unrecognised'')"

definition spi_error_name :: "u8 \<Rightarrow> string" where
  "spi_error_name code =
     (if code = SPI_ERR_RESET then ''reset occurred''
      else if code = SPI_ERR_OVERSIZED then ''oversized EZSP frame''
      else if code = SPI_ERR_ABORTED then ''aborted transaction''
      else if code = SPI_ERR_MISSING_TERM then ''missing frame terminator''
      else if code = SPI_ERR_UNSUPPORTED then ''unsupported SPI command''
      else ''unknown error'')"


text \<open>What \<open>decode_response\<close> prints, and the code it returns.\<close>

datatype spi_report =
    NoResponse
  | EzspFrame u8          \<comment> \<open>its length byte\<close>
  | ProtocolVersion u8
  | NcpStatus u8
  | SpiError u8 u8        \<comment> \<open>the error and its data byte\<close>
  | Unrecognised u8

definition byte_after :: "u8 list \<Rightarrow> nat \<Rightarrow> u8" where
  "byte_after rx i = (if i + 1 < length rx then rx ! (i + 1) else 0)"

definition decode_response :: "u8 list \<Rightarrow> int \<times> spi_report" where
  "decode_response rx = (case spi_first_response rx of
      None \<Rightarrow> (-1, NoResponse)
    | Some i \<Rightarrow>
       (let b = rx ! i in
        (uint b,
         if b = 0xFE then EzspFrame (byte_after rx i)
         else if b AND 0xC0 = 0x80 then ProtocolVersion (b AND 0x3F)
         else if b AND 0xFE = 0xC0 then NcpStatus b
         else if b \<le> 0x04 then SpiError b (byte_after rx i)
         else Unrecognised b)))"


section \<open>Basic facts\<close>

lemma length_shift_in [simp]: "length (fst (shift_in n m)) = n"
  by (simp add: shift_in_def)

lemma shift_in_append [simp]: "shift_in (length xs) (xs @ m) = (xs, m)"
  by (simp add: shift_in_def)

lemma shift_in_1 [simp]: "shift_in (Suc 0) (x # m) = ([x], m)"
  by (simp add: shift_in_def)

lemma spi_raw_length: "spi_raw fd tx k s = Some (r, t) \<Longrightarrow> length r = length tx"
  by (auto simp: spi_raw_def shift_in_def Option.bind_eq_Some_conv)

lemma radio_spi_raw [keeps_rules]: "keeps radio (spi_raw fd tx k)"
  by (auto simp: keeps_def radio_def spi_raw_def ioctl_def Option.bind_eq_Some_conv
      split: list.splits bool.splits prod.splits)

lemma lives_spi_raw [lives_rules]: "lives ioctls_ok (spi_raw fd tx k)"
  by (auto simp: lives_def ioctls_ok_def spi_raw_def ioctl_def split: prod.splits)

lemma radio_cs_assert [keeps_rules]: "keeps radio (cs_assert p)"
  unfolding cs_assert_def by (intro keeps_rules)

lemma radio_cs_release [keeps_rules]: "keeps radio (cs_release p)"
  unfolding cs_release_def by (intro keeps_rules)

lemma lives_cs_assert [lives_rules]: "lives ioctls_ok (cs_assert p)"
  unfolding cs_assert_def by (intro lives_rules)

lemma lives_cs_release [lives_rules]: "lives ioctls_ok (cs_release p)"
  unfolding cs_release_def by (intro lives_rules)

lemma radio_wait_states [keeps_rules]: "keeps radio (wait_states n spi)"
proof (induction n)
  case 0
  show ?case unfolding wait_states.simps by (intro keeps_rules)
next
  case (Suc n)
  show ?case unfolding wait_states.simps by (intro keeps_rules Suc.IH)
qed

lemma lives_wait_states [lives_rules]: "lives ioctls_ok (wait_states n spi)"
proof (induction n)
  case 0
  show ?case unfolding wait_states.simps by (intro lives_rules)
next
  case (Suc n)
  show ?case unfolding wait_states.simps by (intro lives_rules Suc.IH)
qed

lemma radio_response_head [keeps_rules]: "keeps radio (response_head spi b n)"
  unfolding response_head_def by (intro keeps_rules)

lemma lives_response_head [lives_rules]: "lives ioctls_ok (response_head spi b n)"
  unfolding response_head_def by (intro lives_rules)

lemma radio_response_tail [keeps_rules]: "keeps radio (response_tail spi p n)"
  unfolding response_tail_def by (intro keeps_rules)

lemma lives_response_tail [lives_rules]: "lives ioctls_ok (response_tail spi p n)"
  unfolding response_tail_def by (intro lives_rules)

lemmas radio_wait_states_cfg [keeps_rules] =
  keeps_read [where f = "\<lambda>n. wait_states n spi" for spi, OF radio_wait_states]

lemmas lives_wait_states_cfg [lives_rules] =
  lives_read [where f = "\<lambda>n. wait_states n spi" for spi, OF lives_wait_states]

lemmas txn_defs = spi_txn_framed_def txn_command_def txn_no_response_def txn_response_def

lemma radio_txn_response [keeps_rules]: "keeps radio (txn_response spi p b rxlen)"
  unfolding txn_defs by (intro keeps_rules)

lemma lives_txn_response [lives_rules]: "lives ioctls_ok (txn_response spi p b rxlen)"
  unfolding txn_defs by (intro lives_rules)

lemma radio_txn_no_response [keeps_rules]: "keeps radio (txn_no_response spi p rxlen)"
  unfolding txn_defs by (intro keeps_rules)

lemma lives_txn_no_response [lives_rules]: "lives ioctls_ok (txn_no_response spi p rxlen)"
  unfolding txn_defs by (intro lives_rules)

lemma radio_txn_command [keeps_rules]: "keeps radio (txn_command spi tx)"
  unfolding txn_defs by (intro keeps_rules)

lemma lives_txn_command [lives_rules]: "lives ioctls_ok (txn_command spi tx)"
  unfolding txn_defs by (intro lives_rules)

lemma radio_spi_txn_framed [keeps_rules]: "keeps radio (spi_txn_framed spi p tx rxlen)"
  unfolding spi_txn_framed_def by (intro keeps_rules)

lemma lives_spi_txn_framed [lives_rules]: "lives ioctls_ok (spi_txn_framed spi p tx rxlen)"
  unfolding spi_txn_framed_def by (intro lives_rules)


section \<open>Chip select around a transaction\<close>

definition cs_events :: "pins \<Rightarrow> bool \<Rightarrow> bool \<Rightarrow> event list" where
  "cs_events p follows v =
     (if pin_cs p \<ge> 0 then [GpioSet (pin_cs p) v] else []) @
     (if pin_nssel_int p \<ge> 0 \<and> follows then [GpioSet (pin_nssel_int p) v] else [])"

fun held_xfer :: "event \<Rightarrow> bool" where
  "held_xfer (SpiXfer bs keep) = keep"
| "held_xfer e = False"

text \<open>\<open>held s t\<close>: only transfers that keep chip select asserted happened in between.\<close>

definition held :: "sys \<Rightarrow> sys \<Rightarrow> bool" where
  "held s t \<longleftrightarrow> cfg t = cfg s \<and> cs_follows t = cs_follows s \<and>
     (\<exists>xs. trace t = trace s @ xs \<and> list_all held_xfer xs)"

interpretation held: frame_rel held
  by unfold_locales (fastforce simp: held_def)+

named_theorems held_rules \<open>functions that keep chip select asserted\<close>

lemmas held_seq = held.keeps_return held.keeps_returns held.keeps_bind
  keeps_if keeps_ifs keeps_let keeps_case_prod_fun

lemma held_spi_raw: "keeps held (spi_raw fd tx True)"
  by (auto simp: keeps_def held_def spi_raw_def ioctl_def Option.bind_eq_Some_conv
      split: list.splits bool.splits prod.splits)

lemma held_wait_states: "keeps held (wait_states n spi)"
proof (induction n)
  case 0
  show ?case unfolding wait_states.simps by (intro held_seq)
next
  case (Suc n)
  show ?case unfolding wait_states.simps by (intro held_seq held_spi_raw Suc.IH)
qed

lemma held_response_head: "keeps held (response_head spi b n)"
  unfolding response_head_def by (intro held_seq held_spi_raw)

lemma held_response_tail: "0 \<le> pin_cs p \<Longrightarrow> keeps held (response_tail spi p n)"
  by (auto simp: keeps_def response_tail_def held.refl split: if_splits
      dest: keepsD [OF held_spi_raw])

lemma cs_assert_Some: "cs_assert p s = Some (x, t) \<Longrightarrow>
   trace t = trace s @ cs_events p (cs_follows s) False \<and> cfg t = cfg s \<and> cs_follows t = cs_follows s"
  by (auto simp: cs_assert_def cs_events_def Option.bind_eq_Some_conv
      dest!: gpio_set_Some split: if_splits)

lemma cs_release_Some: "cs_release p s = Some (x, t) \<Longrightarrow>
   trace t = trace s @ cs_events p (cs_follows s) True \<and> cfg t = cfg s \<and> cs_follows t = cs_follows s"
  by (auto simp: cs_release_def cs_events_def Option.bind_eq_Some_conv
      dest!: gpio_set_Some split: if_splits)

lemma spi_raw_Some: "spi_raw fd tx k s = Some (r, t) \<Longrightarrow>
   trace t = trace s @ [SpiXfer tx k] \<and> cfg t = cfg s \<and> cs_follows t = cs_follows s"
  by (auto simp: spi_raw_def ioctl_def Option.bind_eq_Some_conv
      split: list.splits bool.splits prod.splits)

text \<open>The two ways a transaction returns: nothing but idle bytes, or a response.\<close>

lemma txn_cases:
  assumes "spi_txn_framed spi p tx rxlen s = Some (res, t)"
  obtains (idle) s0 s1 s2 where
    "cs_assert p s = Some ((), s0)" "txn_command spi tx s0 = Some ((), s1)"
    "wait_states (unat (cfg_wait_bytes (cfg s1))) spi s1 = Some (SPI_IDLE, s2)"
    "txn_no_response spi p rxlen s2 = Some (res, t)"
  | (response) s0 s1 b s2 where
    "cs_assert p s = Some ((), s0)" "txn_command spi tx s0 = Some ((), s1)"
    "wait_states (unat (cfg_wait_bytes (cfg s1))) spi s1 = Some (b, s2)" "b \<noteq> SPI_IDLE"
    "txn_response spi p b rxlen s2 = Some (res, t)"
  using assms unfolding spi_txn_framed_def
  by (auto simp: Option.bind_eq_Some_conv split: if_split_asm)

lemma txn_responseE:
  assumes "txn_response spi p b rxlen s = Some (res, t)"
  obtains got left s1 more s2 where
    "response_head spi b rxlen s = Some ((got, left), s1)"
    "response_tail spi p (min (min left (rxlen - length got)) 260) s1 = Some (more, s2)"
    "cs_release p s2 = Some ((), t)"
    "res = (length (got @ more), pad_to rxlen 0 (got @ more))"
  using assms unfolding txn_response_def
  by (fastforce simp: Option.bind_eq_Some_conv simp del: length_append)

lemma txn_prefix_held:
  assumes "txn_command spi tx s = Some ((), s1)" and "wait_states n spi s1 = Some (b, s2)"
  shows "held s s2"
proof -
  have "held s s1"
    using assms(1) keepsD [OF held_spi_raw] held.refl
    by (auto simp: txn_command_def Option.bind_eq_Some_conv split: if_splits)
  moreover have "held s1 s2" using keepsD [OF held_wait_states assms(2)] .
  ultimately show ?thesis by (rule held.trans)
qed

text \<open>
  With chip select driven by the host, a transaction that returns is one assertion, then
  transfers that all keep it asserted, then one release, whatever the NCP answers.
\<close>

lemma txn_bracket:
  assumes run: "spi_txn_framed spi p tx rxlen s = Some (res, t)" and cs: "0 \<le> pin_cs p"
  shows "\<exists>xs. trace t = trace s @ cs_events p (cs_follows s) False @ xs @
           cs_events p (cs_follows s) True \<and> list_all held_xfer xs"
proof -
  have "\<exists>s0 s4. cs_assert p s = Some ((), s0) \<and> held s0 s4 \<and> cs_release p s4 = Some ((), t)"
    using run
  proof (cases rule: txn_cases)
    case (idle s0 s1 s2)
    then have "held s0 s2" by (blast intro: txn_prefix_held)
    moreover have "cs_release p s2 = Some ((), t)"
      using idle(4) cs by (auto simp: txn_no_response_def Option.bind_eq_Some_conv)
    ultimately show ?thesis using idle(1) by blast
  next
    case (response s0 s1 b s2)
    from response(5) show ?thesis
    proof (rule txn_responseE)
      fix got left s3 more s4
      assume 1: "response_head spi b rxlen s2 = Some ((got, left), s3)"
        and 2: "response_tail spi p (min (min left (rxlen - length got)) 260) s3 = Some (more, s4)"
        and 3: "cs_release p s4 = Some ((), t)"
      have "held s0 s2" using response(2,3) by (rule txn_prefix_held)
      moreover have "held s2 s3" using keepsD [OF held_response_head 1] .
      moreover have "held s3 s4" using keepsD [OF held_response_tail [OF cs] 2] .
      ultimately show ?thesis using response(1) 3 held.trans by blast
    qed
  qed
  then show ?thesis by (fastforce simp: held_def dest: cs_assert_Some cs_release_Some)
qed

text \<open>
  With a kernel chip select the release is the last transfer, the only one that does not
  keep it. The second line, nSSEL_INT, is released only when the NCP answered.
\<close>

lemma txn_kernel_cs:
  assumes run: "spi_txn_framed spi p tx rxlen s = Some ((n, rx), t)" and cs: "pin_cs p < 0"
  shows "\<exists>xs bs. trace t = trace s @ cs_events p (cs_follows s) False @ xs @ [SpiXfer bs False] @
           (if n = 0 then [] else cs_events p (cs_follows s) True) \<and> list_all held_xfer xs"
  using run
proof (cases rule: txn_cases)
  case (idle s0 s1 s2)
  then have h: "held s0 s2" by (blast intro: txn_prefix_held)
  have "n = 0" and "\<exists>r. spi_raw spi [SPI_IDLE] False s2 = Some (r, t)"
    using idle(4) cs by (auto simp: txn_no_response_def Option.bind_eq_Some_conv)
  with h cs_assert_Some [OF idle(1)] show ?thesis by (fastforce simp: held_def dest: spi_raw_Some)
next
  case (response s0 s1 b s2)
  from response(5) obtain got left s3 more s4 where
    1: "response_head spi b rxlen s2 = Some ((got, left), s3)" and
    2: "response_tail spi p (min (min left (rxlen - length got)) 260) s3 = Some (more, s4)" and
    3: "cs_release p s4 = Some ((), t)" and 4: "n = length (got @ more)"
    by (auto elim!: txn_responseE)
  have "held s0 s2" using response(2,3) by (rule txn_prefix_held)
  then have h: "held s0 s3" using keepsD [OF held_response_head 1] by (rule held.trans)
  have tl: "\<exists>bs. trace s4 = trace s3 @ [SpiXfer bs False] \<and> cs_follows s4 = cs_follows s3"
    using 2 cs by (auto simp: response_tail_def Option.bind_eq_Some_conv
        dest!: spi_raw_Some split: if_splits)
  have "got \<noteq> []"
    using 1 by (auto simp: response_head_def Option.bind_eq_Some_conv split: if_splits)
  with h tl cs_assert_Some [OF response(1)] cs_release_Some [OF 3] 4
  show ?thesis by (auto simp: held_def)
qed


section \<open>What a transaction clocks\<close>

text \<open>
  The grammar of a reply: \<open>0xFE\<close>, a length, that many bytes and a terminator; an error with
  one data byte and a terminator; or one byte and a terminator.
\<close>

fun is_reply :: "u8 list \<Rightarrow> bool" where
  "is_reply [] = False"
| "is_reply (b # r) = (b \<noteq> SPI_IDLE \<and>
     (if b = SPI_CMD_EZSP_FRAME then
        (case r of [] \<Rightarrow> False | l # r' \<Rightarrow> length r' = unat l + 1)
      else if b \<le> SPI_ERR_UNSUPPORTED then length r = 2
      else length r = 1))"

lemma spi_raw_ok: "kfail s = [] \<Longrightarrow> spi_raw fd tx k s =
   Some (fst (shift_in (length tx) (miso s)),
     s\<lparr>miso := drop (length tx) (miso s), trace := trace s @ [SpiXfer tx k]\<rparr>)"
  by (simp add: spi_raw_def ioctl_def shift_in_def emit_def)

lemma cs_assert_ok: "kfail s = [] \<Longrightarrow>
   cs_assert p s = Some ((), s\<lparr>trace := trace s @ cs_events p (cs_follows s) False\<rparr>)"
  by (simp add: cs_assert_def cs_events_def gpio_set_ok emit_def)

lemma cs_release_ok: "kfail s = [] \<Longrightarrow>
   cs_release p s = Some ((), s\<lparr>trace := trace s @ cs_events p (cs_follows s) True\<rparr>)"
  by (simp add: cs_release_def cs_events_def gpio_set_ok emit_def)

lemma wait_states_hit:
  "kfail s = [] \<Longrightarrow> miso s = replicate k SPI_IDLE @ x # m \<Longrightarrow> x \<noteq> SPI_IDLE \<Longrightarrow> k < n \<Longrightarrow>
   wait_states n spi s = Some (x,
     s\<lparr>miso := m, trace := trace s @ replicate (Suc k) (SpiXfer [SPI_IDLE] True)\<rparr>)"
proof (induction n arbitrary: k s)
  case 0
  then show ?case by simp
next
  case (Suc n)
  show ?case
  proof (cases k)
    case 0
    with Suc.prems show ?thesis by (simp add: spi_raw_ok)
  next
    case (Suc k')
    let ?s = "s\<lparr>miso := replicate k' SPI_IDLE @ x # m, trace := trace s @ [SpiXfer [SPI_IDLE] True]\<rparr>"
    have "wait_states (Suc n) spi s = wait_states n spi ?s"
      using Suc Suc.prems by (simp add: spi_raw_ok)
    also have "\<dots> = Some (x, ?s\<lparr>miso := m, trace := trace ?s @ replicate (Suc k') (SpiXfer [SPI_IDLE] True)\<rparr>)"
      by (rule Suc.IH) (use Suc Suc.prems in simp_all)
    finally show ?thesis using Suc by simp
  qed
qed

lemma wait_states_idle:
  "kfail s = [] \<Longrightarrow> list_all (\<lambda>b. b = SPI_IDLE) (take n (miso s)) \<Longrightarrow>
   wait_states n spi s = Some (SPI_IDLE,
     s\<lparr>miso := drop n (miso s), trace := trace s @ replicate n (SpiXfer [SPI_IDLE] True)\<rparr>)"
proof (induction n arbitrary: s)
  case 0
  then show ?case by simp
next
  case (Suc n)
  let ?s = "s\<lparr>miso := drop 1 (miso s), trace := trace s @ [SpiXfer [SPI_IDLE] True]\<rparr>"
  have "wait_states (Suc n) spi s = wait_states n spi ?s"
    using Suc.prems by (cases "miso s") (simp_all add: spi_raw_ok shift_in_def)
  also have "\<dots> = Some (SPI_IDLE, ?s\<lparr>miso := drop n (miso ?s),
      trace := trace ?s @ replicate n (SpiXfer [SPI_IDLE] True)\<rparr>)"
    by (rule Suc.IH) (use Suc.prems in \<open>cases "miso s"; simp\<close>)+
  finally show ?case by simp
qed

fun reply_xfers :: "pins \<Rightarrow> u8 list \<Rightarrow> event list" where
  "reply_xfers p [] = []"
| "reply_xfers p (b # r) =
     (if b = SPI_CMD_EZSP_FRAME
      then [SpiXfer [SPI_IDLE] True, SpiXfer (replicate (length r - 1) SPI_IDLE) (pin_cs p \<ge> 0)]
      else [SpiXfer (replicate (length r) SPI_IDLE) (pin_cs p \<ge> 0)])"

definition command_xfers :: "u8 list \<Rightarrow> nat \<Rightarrow> event list" where
  "command_xfers tx k = (if tx = [] then [] else [SpiXfer tx True]) @
     replicate k (SpiXfer [SPI_IDLE] True)"

text \<open>Receiving the rest of a reply once its first byte is in.\<close>

lemma response_rest_ok:
  assumes "kfail s = []" and "is_reply (b # r)" and "miso s = r @ m" and "length (b # r) \<le> rxlen"
  shows "\<exists>got left s1. response_head spi b rxlen s = Some ((got, left), s1) \<and> kfail s1 = [] \<and>
    (\<exists>more. got @ more = b # r \<and>
      response_tail spi p (min (min left (rxlen - length got)) 260) s1 =
        Some (more, s\<lparr>miso := m, trace := trace s @ reply_xfers p (b # r)\<rparr>))"
proof (cases "b = SPI_CMD_EZSP_FRAME")
  case True
  with assms(2) obtain l r' where r: "r = l # r'" and len: "length r' = unat l + 1"
    by (auto split: list.splits)
  have "min (min (unat l + 1) (rxlen - 2)) 260 = length r'"
    using assms(4) r len unat_u8_le [of l] by simp
  moreover have "response_head spi b rxlen s = Some (([b, l], unat l + 1),
      s\<lparr>miso := r' @ m, trace := trace s @ [SpiXfer [SPI_IDLE] True]\<rparr>)"
    using True assms r by (simp add: response_head_def spi_raw_ok)
  ultimately show ?thesis
    using True assms r len
    by (auto simp: response_tail_def spi_raw_ok shift_in_def)
next
  case False
  let ?left = "if b \<le> SPI_ERR_UNSUPPORTED then 2 else 1 :: nat"
  have len: "length r = ?left" using False assms(2) by (auto split: if_splits)
  have "response_head spi b rxlen s = Some (([b], ?left), s)"
    using False by (simp add: response_head_def)
  moreover have "min (min ?left (rxlen - 1)) 260 = length r" using len assms(4) by simp
  ultimately show ?thesis
    using False assms len by (auto simp: response_tail_def spi_raw_ok shift_in_def)
qed

lemma txn_reply:
  assumes k: "kfail s = []" and m: "miso s = echo @ replicate w SPI_IDLE @ reply @ rest"
    and e: "length echo = length tx" and w: "w < unat (cfg_wait_bytes (cfg s))"
    and r: "is_reply reply" and n: "length reply \<le> rxlen"
  shows "spi_txn_framed spi p tx rxlen s = Some ((length reply, pad_to rxlen 0 reply),
    s\<lparr>miso := rest, trace := trace s @ cs_events p (cs_follows s) False @
        command_xfers tx (Suc w) @ reply_xfers p reply @ cs_events p (cs_follows s) True\<rparr>)"
proof -
  obtain b r' where rep: "reply = b # r'" and b: "b \<noteq> SPI_IDLE" using r by (cases reply) auto
  let ?s0 = "s\<lparr>trace := trace s @ cs_events p (cs_follows s) False\<rparr>"
  let ?s1 = "?s0\<lparr>miso := replicate w SPI_IDLE @ reply @ rest,
    trace := trace ?s0 @ (if tx = [] then [] else [SpiXfer tx True])\<rparr>"
  let ?s2 = "?s1\<lparr>miso := r' @ rest, trace := trace ?s1 @ replicate (Suc w) (SpiXfer [SPI_IDLE] True)\<rparr>"
  have 1: "txn_command spi tx ?s0 = Some ((), ?s1)"
    using k m e by (auto simp: txn_command_def spi_raw_ok)
  have 2: "wait_states (unat (cfg_wait_bytes (cfg ?s1))) spi ?s1 = Some (b, ?s2)"
    using k w rep b by (subst wait_states_hit) simp_all
  have pre: "kfail ?s2 = []" "is_reply (b # r')" "miso ?s2 = r' @ rest" "length (b # r') \<le> rxlen"
    using k r n rep by simp_all
  obtain got left s3 more where
    3: "response_head spi b rxlen ?s2 = Some ((got, left), s3)" and
    4: "response_tail spi p (min (min left (rxlen - length got)) 260) s3 =
        Some (more, ?s2\<lparr>miso := rest, trace := trace ?s2 @ reply_xfers p (b # r')\<rparr>)" and
    5: "got @ more = b # r'"
    using response_rest_ok [OF pre, of spi p] by blast
  have 6: "txn_response spi p b rxlen ?s2 = Some ((length (b # r'), pad_to rxlen 0 (b # r')),
     ?s2\<lparr>miso := rest, trace := trace ?s2 @ reply_xfers p (b # r') @ cs_events p (cs_follows s) True\<rparr>)"
    unfolding txn_response_def 3 Option.bind.bind_lunit prod.case 4 5
    using k by (simp add: cs_release_ok)
  have "spi_txn_framed spi p tx rxlen s = txn_response spi p b rxlen ?s2"
    unfolding spi_txn_framed_def cs_assert_ok [OF k] Option.bind.bind_lunit prod.case 1 2
    using b by simp
  with 6 show ?thesis by (simp add: rep command_xfers_def)
qed

lemma txn_no_reply:
  assumes k: "kfail s = []"
    and m: "list_all (\<lambda>b. b = SPI_IDLE) (take (unat (cfg_wait_bytes (cfg s))) (drop (length tx) (miso s)))"
  shows "\<exists>t. spi_txn_framed spi p tx rxlen s = Some ((0, replicate rxlen 0), t)"
proof -
  let ?s0 = "s\<lparr>trace := trace s @ cs_events p (cs_follows s) False\<rparr>"
  let ?s1 = "?s0\<lparr>miso := drop (length tx) (miso s),
    trace := trace ?s0 @ (if tx = [] then [] else [SpiXfer tx True])\<rparr>"
  have 1: "txn_command spi tx ?s0 = Some ((), ?s1)"
    using k by (simp add: txn_command_def spi_raw_ok)
  obtain s2 where 2: "wait_states (unat (cfg_wait_bytes (cfg ?s1))) spi ?s1 = Some (SPI_IDLE, s2)"
    and 3: "kfail s2 = []"
    using wait_states_idle [of ?s1 "unat (cfg_wait_bytes (cfg ?s1))" spi] k m by simp
  have "spi_txn_framed spi p tx rxlen s = txn_no_response spi p rxlen s2"
    unfolding spi_txn_framed_def cs_assert_ok [OF k] Option.bind.bind_lunit prod.case 1 2 by simp
  with 3 show ?thesis by (simp add: txn_no_response_def cs_release_ok spi_raw_ok pad_to_def)
qed

text \<open>The receive buffer has its size, and the count never exceeds it.\<close>

lemma txn_length:
  assumes run: "spi_txn_framed spi p tx rxlen s = Some ((n, rx), t)" and pos: "0 < rxlen"
  shows "length rx = rxlen \<and> n \<le> rxlen"
  using run
proof (cases rule: txn_cases)
  case (idle s0 s1 s2)
  then show ?thesis by (auto simp: txn_no_response_def Option.bind_eq_Some_conv)
next
  case (response s0 s1 b s2)
  from response(5) obtain got left s3 more s4 where
    1: "response_head spi b rxlen s2 = Some ((got, left), s3)" and
    2: "response_tail spi p (min (min left (rxlen - length got)) 260) s3 = Some (more, s4)" and
    3: "n = length (got @ more)" "rx = pad_to rxlen 0 (got @ more)"
    by (auto elim!: txn_responseE)
  have "length got \<le> rxlen"
    using 1 pos by (auto simp: response_head_def Option.bind_eq_Some_conv split: if_splits)
  moreover have "length more \<le> rxlen - length got"
    using 2 by (auto simp: response_tail_def Option.bind_eq_Some_conv
        dest!: spi_raw_length split: if_splits)
  ultimately show ?thesis using 3 by simp
qed


section \<open>Properties of the SPI layer\<close>

text \<open>A set of lines and an environment for the concrete instances below.\<close>

definition sample_pins :: pins where
  "sample_pins = \<lparr>pin_reset = 3, pin_wake = 4, pin_nssel_int = 5, pin_cs = 6, pin_hint = -1\<rparr>"

definition kernel_cs_pins :: pins where
  "kernel_cs_pins = \<lparr>pin_reset = 3, pin_wake = 4, pin_nssel_int = 5, pin_cs = -1, pin_hint = -1\<rparr>"

definition version_sys :: sys where
  \<comment> \<open>an NCP that answers the version command after two wait states\<close>
  "version_sys = sys0\<lparr>cs_follows := True, miso := [0xFF, 0xFF, 0xFF, 0xFF, 0x82, 0xA7]\<rparr>"

lemma version_sys_sel:
  "trace version_sys = []" "cs_follows version_sys = True" "kfail version_sys = []"
  "cfg version_sys = default_cfg" "miso version_sys = [0xFF, 0xFF, 0xFF, 0xFF, 0x82, 0xA7]"
  by (simp_all add: version_sys_def sys0_def)

lemma pad_to_4: "pad_to 4 0 [a, b] = [a, b, 0, 0]"
  by (simp add: pad_to_def numeral_2_eq_2)

lemma default_wait_bytes: "cfg_wait_bytes default_cfg = 512"
  by (simp add: default_cfg_def)

lemma version_sys_answer:
  "spi_txn_framed fd p [0x0A, 0xA7] 4 version_sys = Some ((2, [0x82, 0xA7, 0, 0]),
     version_sys\<lparr>miso := [], trace := cs_events p True False @
       command_xfers [0x0A, 0xA7] (Suc (Suc (Suc 0))) @ reply_xfers p [0x82, 0xA7] @ cs_events p True True\<rparr>)"
  using txn_reply [of version_sys "[0xFF, 0xFF]" "Suc (Suc 0)" "[0x82, 0xA7]" "[]" "[0x0A, 0xA7]" 4 fd p]
  by (simp add: version_sys_sel pad_to_4 default_wait_bytes)

text \<open>
  C5: A transaction clocks exactly what the protocol needs. If the NCP answers within
  \<open>cfg.wait_bytes\<close> wait states, \<open>spi_txn_framed\<close> returns the reply's length and a buffer with
  the reply and zeros, leaves on the bus exactly the bytes after the reply's last (its
  terminator), and its actions are: assert chip select, the command, one transfer per wait
  state and the reply's first byte, the rest of the reply, release.
\<close>

theorem spi_txn_framed_exact:
  assumes "kfail s = []" and "miso s = echo @ replicate w SPI_IDLE @ reply @ rest"
    and "length echo = length tx" and "w < unat (cfg_wait_bytes (cfg s))"
    and "is_reply reply" and "length reply \<le> rxlen"
  shows "spi_txn_framed spi p tx rxlen s = Some ((length reply, pad_to rxlen 0 reply),
    s\<lparr>miso := rest, trace := trace s @ cs_events p (cs_follows s) False @
        command_xfers tx (Suc w) @ reply_xfers p reply @ cs_events p (cs_follows s) True\<rparr>)"
  using assms by (rule txn_reply)

theorem spi_txn_framed_exact_witness:
  "fst (the (spi_txn_framed 7 sample_pins [0x0A, 0xA7] 4
     (version_sys\<lparr>miso := miso version_sys @ [0xAA]\<rparr>))) = (2, [0x82, 0xA7, 0, 0])"
  using spi_txn_framed_exact [of "version_sys\<lparr>miso := miso version_sys @ [0xAA]\<rparr>" "[0xFF, 0xFF]" "Suc (Suc 0)"
      "[0x82, 0xA7]" "[0xAA]" "[0x0A, 0xA7]" 4 7 sample_pins]
  by (simp add: version_sys_sel pad_to_4 default_wait_bytes)

text \<open>
  C15: With chip select driven by the host, every transaction that returns, whatever the NCP
  sends, is one assertion, then transfers that all keep chip select, then one release.
\<close>

theorem spi_txn_framed_bracket:
  assumes "spi_txn_framed spi p tx rxlen s = Some (res, t)" and "0 \<le> pin_cs p"
  shows "\<exists>xs. trace t = trace s @ cs_events p (cs_follows s) False @ xs @
           cs_events p (cs_follows s) True \<and> list_all held_xfer xs"
  using assms by (rule txn_bracket)

theorem spi_txn_framed_bracket_witness:
  "\<exists>xs. trace (snd (the (spi_txn_framed 7 sample_pins [0x0A, 0xA7] 4 version_sys))) = [GpioSet 6 False, GpioSet 5 False] @ xs @ [GpioSet 6 True, GpioSet 5 True] \<and>
     list_all held_xfer xs"
  using spi_txn_framed_bracket [OF version_sys_answer [of 7 sample_pins]]
  by (simp add: version_sys_answer version_sys_sel sample_pins_def cs_events_def)

text \<open>
  With a kernel chip select only the last transfer of a transaction releases it, and
  nSSEL_INT is released with it only when the NCP answered: after a silent NCP the function
  returns with nSSEL_INT still asserted.
\<close>

theorem spi_txn_framed_kernel_cs:
  assumes "spi_txn_framed spi p tx rxlen s = Some ((n, rx), t)" and "pin_cs p < 0"
  shows "\<exists>xs bs. trace t = trace s @ cs_events p (cs_follows s) False @ xs @ [SpiXfer bs False] @
           (if n = 0 then [] else cs_events p (cs_follows s) True) \<and> list_all held_xfer xs"
  using assms by (rule txn_kernel_cs)

theorem spi_txn_framed_kernel_cs_witness:
  "\<exists>xs bs. trace (snd (the (spi_txn_framed 7 kernel_cs_pins [0x0A, 0xA7] 4 version_sys))) = GpioSet 5 False # xs @ [SpiXfer bs False, GpioSet 5 True] \<and> list_all held_xfer xs"
  using spi_txn_framed_kernel_cs [OF version_sys_answer [of 7 kernel_cs_pins]]
  by (simp add: version_sys_answer version_sys_sel kernel_cs_pins_def cs_events_def)

text \<open>
  Whatever the NCP sends, the receive buffer keeps its size and the count stays within it.
\<close>

theorem spi_txn_framed_bounds:
  assumes "spi_txn_framed spi p tx rxlen s = Some ((n, rx), t)" and "0 < rxlen"
  shows "length rx = rxlen \<and> n \<le> rxlen"
  using assms by (rule txn_length)

theorem spi_txn_framed_bounds_witness:
  "length [0x82, 0xA7, 0, 0 :: u8] = 4 \<and> (2::nat) \<le> 4"
  using spi_txn_framed_bounds [OF version_sys_answer [of 7 sample_pins]] by simp
end
