(* ===== verification/Board.thy ===== *)
theory Board
  imports Spi
begin

text \<open>
  Boards and pins (board.c): which GPIO lines a board uses, how they are requested and
  released, and the two sequences that drive nRESET and nWAKE. The hardware rule behind
  them is that nWAKE is high whenever nRESET is released: low there starts the NCP's
  bootloader instead of its application.
\<close>

unbundle bit_operations_syntax

section \<open>The board table\<close>

record board =
  board_match :: string          \<comment> \<open>substring of \<open>/tmp/sysinfo/board_name\<close>\<close>
  board_desc :: string
  board_reset :: u32
  board_wake :: u32
  board_hostint :: u32
  board_nssel_int :: u32
  board_nssel :: u32
  board_forbid :: u32            \<comment> \<open>line that must never be driven, 0 = none\<close>
  board_forbid_why :: string

definition whw03v2 :: board where
  "whw03v2 = \<lparr>board_match = ''whw03v2'', board_desc = ''Linksys Velop WHW03 V2'',
     board_reset = 49, board_wake = 31, board_hostint = 50, board_nssel_int = 29,
     board_nssel = 45, board_forbid = 0, board_forbid_why = []\<rparr>"

definition whw03 :: board where
  "whw03 = \<lparr>board_match = ''whw03'', board_desc = ''Linksys Velop WHW03 V1'',
     board_reset = 49, board_wake = 55, board_hostint = 50, board_nssel_int = 56,
     board_nssel = 45, board_forbid = 29,
     board_forbid_why = ''an eMMC line on this board''\<rparr>"

definition boards :: "board list" where
  "boards = [whw03v2, whw03]"

text \<open>C strings: \<open>strstr\<close>, and the first line of a file as \<open>fgets(name, 64, f)\<close> leaves it.\<close>

fun strstr :: "string \<Rightarrow> string \<Rightarrow> bool" where
  "strstr [] needle = (needle = [])"
| "strstr (c # cs) needle = (take (length needle) (c # cs) = needle \<or> strstr cs needle)"

fun first_line :: "string \<Rightarrow> string" where
  "first_line [] = []"
| "first_line (c # cs) = c # (if c = CHR 0x0A then [] else first_line cs)"

definition c_string :: "string \<Rightarrow> string" where
  "c_string xs = takeWhile (\<lambda>c. c \<noteq> CHR 0x00) xs"

definition board_detect :: "sys \<Rightarrow> board option" where
  "board_detect s = (case board_file s of
      None \<Rightarrow> None
    | Some f \<Rightarrow> find (\<lambda>b. strstr (c_string (take 63 (first_line f))) (board_match b)) boards)"


section \<open>Requesting the lines\<close>

text \<open>The board's lines where no option set one.\<close>

definition board_lines :: "board \<Rightarrow> cfg \<Rightarrow> cfg" where
  "board_lines b c = c\<lparr>
     cfg_reset_line := (if \<not> cfg_reset_set c then board_reset b else cfg_reset_line c),
     cfg_wake_line := (if \<not> cfg_wake_set c then board_wake b else cfg_wake_line c),
     cfg_int_line := (if \<not> cfg_int_set c then board_hostint b else cfg_int_line c),
     cfg_nssel_int_line := (if \<not> cfg_nssel_int_set c then board_nssel_int b else cfg_nssel_int_line c),
     cfg_cs_line := (if \<not> cfg_cs_set c then board_nssel b else cfg_cs_line c)\<rparr>"

definition pins_autodetect :: "(sys, unit) cmd" where
  "pins_autodetect s = (case board_detect s of
      None \<Rightarrow> Some ((), s)
    | Some b \<Rightarrow>
       (let c = board_lines b (cfg s) in
        if board_forbid b \<noteq> 0 \<and> cfg_nssel_int_line c = board_forbid b \<and>
           cfg_nssel_int_mode c \<noteq> ''input''
        then None
        else Some ((), s\<lparr>cfg := c\<rparr>)))"

text \<open>nSSEL_INT: left alone in mode \<open>input\<close>, otherwise an output that may follow nSSEL.\<close>

definition nssel_int_open :: "(sys, int) cmd" where
  "nssel_int_open s =
     (let mode = cfg_nssel_int_mode (cfg s) in
      if mode = ''input'' then Some (-1, s)
      else gpio_request_output (cfg_nssel_int_line (cfg s)) (mode \<noteq> ''low'')
             (s\<lparr>cs_follows := (mode = ''follow'')\<rparr>))"

definition pins_open :: "(sys, pins) cmd" where
  "pins_open s = do {
     (_, s) \<leftarrow> pins_autodetect s;
     (reset, s) \<leftarrow> gpio_request_output (cfg_reset_line (cfg s)) True s;
     (wake, s) \<leftarrow> gpio_request_output (cfg_wake_line (cfg s)) True s;
     (nssel_int, s) \<leftarrow> nssel_int_open s;
     (cs, s) \<leftarrow> (if cfg_cs_line (cfg s) \<noteq> 0 then gpio_try_output (cfg_cs_line (cfg s)) True s
                else Some (-1, s));
     (hint, s) \<leftarrow> gpio_request_input_edges (cfg_int_line (cfg s)) s;
     Some (\<lparr>pin_reset = reset, pin_wake = wake, pin_nssel_int = nssel_int, pin_cs = cs,
            pin_hint = hint\<rparr>, s)
   }"

definition close_fd :: "int \<Rightarrow> sys \<Rightarrow> sys" where
  "close_fd fd s = (if fd \<ge> 0 then emit (CloseFd fd) s else s)"

definition pins_close :: "pins \<Rightarrow> (sys, pins) cmd" where
  "pins_close p s =
     Some (\<lparr>pin_reset = -1, pin_wake = -1, pin_nssel_int = -1, pin_cs = -1, pin_hint = -1\<rparr>,
       close_fd (pin_hint p) (close_fd (pin_nssel_int p) (close_fd (pin_wake p)
         (close_fd (pin_reset p) (close_fd (pin_cs p) s)))))"


section \<open>Reset and wake\<close>

definition ncp_reset :: "pins \<Rightarrow> (sys, unit) cmd" where
  "ncp_reset p s = do {
     (_, s) \<leftarrow> gpio_set (pin_wake p) True s;
     (_, s) \<leftarrow> gpio_set (pin_reset p) False s;
     (_, s) \<leftarrow> msleep 50 s;
     (_, s) \<leftarrow> (if pin_hint p \<ge> 0 then gpio_drain_events (pin_hint p) s else Some ((), s));
     (_, s) \<leftarrow> gpio_set (pin_reset p) True s;
     if pin_hint p \<ge> 0 then do {
       (ms, s) \<leftarrow> gpio_wait_falling (pin_hint p) 2000 s;
       Some ((), s)
     }
     else msleep 500 s
   }"

definition ncp_wake :: "pins \<Rightarrow> (sys, unit) cmd" where
  "ncp_wake p s =
     (if pin_hint p < 0 then do {
        (_, s) \<leftarrow> gpio_set (pin_wake p) False s;
        (_, s) \<leftarrow> usleep 2000 s;
        (_, s) \<leftarrow> gpio_set (pin_wake p) True s;
        usleep 2000 s
      }
      else do {
        (l, s) \<leftarrow> gpio_get (pin_hint p) s;
        if l = 0 then Some ((), s)
        else do {
          (_, s) \<leftarrow> gpio_drain_events (pin_hint p) s;
          (_, s) \<leftarrow> gpio_set (pin_wake p) False s;
          (ms, s) \<leftarrow> gpio_wait_falling (pin_hint p) 100 s;
          (_, s) \<leftarrow> gpio_set (pin_wake p) True s;
          usleep 500 s
        }
      })"

lemma radio_ncp_reset [keeps_rules]: "keeps radio (ncp_reset p)"
  unfolding ncp_reset_def by (intro keeps_rules)

lemma lives_ncp_reset [lives_rules]: "lives ioctls_ok (ncp_reset p)"
  unfolding ncp_reset_def by (intro lives_rules)

lemma radio_ncp_wake [keeps_rules]: "keeps radio (ncp_wake p)"
  unfolding ncp_wake_def by (intro keeps_rules)

lemma lives_ncp_wake [lives_rules]: "lives ioctls_ok (ncp_wake p)"
  unfolding ncp_wake_def by (intro lives_rules)



section \<open>Which board\<close>

lemma strstr_iff: "strstr h n \<longleftrightarrow> (\<exists>pre post. h = pre @ n @ post)"
proof (induction h)
  case Nil
  show ?case by auto
next
  case (Cons c cs)
  have "(\<exists>pre post. c # cs = pre @ n @ post) \<longleftrightarrow>
        (\<exists>post. c # cs = n @ post) \<or> (\<exists>pre post. cs = pre @ n @ post)"
    by (metis append_Cons append_Nil list.exhaust list.inject)
  moreover have "(\<exists>post. c # cs = n @ post) \<longleftrightarrow> take (length n) (c # cs) = n"
    by (metis append_eq_conv_conj append_take_drop_id)
  ultimately show ?case using Cons.IH by auto
qed

lemma strstr_trans: "strstr a b \<Longrightarrow> strstr b c \<Longrightarrow> strstr a c"
  unfolding strstr_iff by (metis append_assoc)

lemma whw03v2_has_whw03: "strstr ''whw03v2'' ''whw03''"
  by simp

definition board_name :: "sys \<Rightarrow> string option" where
  "board_name s = map_option (\<lambda>f. c_string (take 63 (first_line f))) (board_file s)"

lemma board_detect_name: "board_detect s = (case board_name s of
    None \<Rightarrow> None
  | Some n \<Rightarrow> if strstr n ''whw03v2'' then Some whw03v2
              else if strstr n ''whw03'' then Some whw03 else None)"
  by (simp add: board_detect_def board_name_def boards_def whw03v2_def whw03_def split: option.split)

text \<open>Which lines a configuration drives, and that the forbidden one is not among them.\<close>

lemma pins_autodetect_Some:
  "pins_autodetect s = Some (x, t) \<Longrightarrow>
   trace t = trace s \<and> line_results t = line_results s \<and> board_detect t = board_detect s \<and>
   cfg t = (case board_detect s of None \<Rightarrow> cfg s | Some b \<Rightarrow> board_lines b (cfg s)) \<and>
   (\<forall>b. board_detect s = Some b \<longrightarrow> board_forbid b \<noteq> 0 \<longrightarrow>
      cfg_nssel_int_line (cfg t) = board_forbid b \<longrightarrow> cfg_nssel_int_mode (cfg t) = ''input'')"
  by (auto simp: pins_autodetect_def Let_def board_detect_def split: option.splits if_splits)

definition outputs_only :: "u32 set \<Rightarrow> sys \<Rightarrow> sys \<Rightarrow> bool" where
  "outputs_only L s t \<longleftrightarrow> cfg t = cfg s \<and>
     (\<exists>ev. trace t = trace s @ ev \<and> (\<forall>off v. LineOut off v \<in> set ev \<longrightarrow> off \<in> L))"

interpretation outputs: frame_rel "outputs_only L"
  by unfold_locales (fastforce simp: outputs_only_def)+

lemmas outputs_seq = outputs.keeps_return outputs.keeps_bind keeps_ifs keeps_let

lemma outputs_request: "off \<in> L \<Longrightarrow> keeps (outputs_only L) (gpio_request_output off v)"
  by (auto simp: keeps_def outputs_only_def gpio_request_output_def take_line_def
      split: prod.splits line_res.splits list.splits)

lemma outputs_try: "off \<in> L \<Longrightarrow> keeps (outputs_only L) (gpio_try_output off v)"
  by (auto simp: keeps_def outputs_only_def gpio_try_output_def take_line_def
      split: prod.splits line_res.splits list.splits)

lemma outputs_input: "keeps (outputs_only L) (gpio_request_input_edges off)"
  by (auto simp: keeps_def outputs_only_def gpio_request_input_edges_def take_line_def
      split: prod.splits line_res.splits list.splits)

definition driven_lines :: "cfg \<Rightarrow> u32 set" where
  "driven_lines c = {cfg_reset_line c, cfg_wake_line c} \<union>
     (if cfg_nssel_int_mode c = ''input'' then {} else {cfg_nssel_int_line c}) \<union>
     (if cfg_cs_line c = 0 then {} else {cfg_cs_line c})"

lemma nssel_int_open_outputs:
  assumes "nssel_int_open s = Some (x, t)"
  shows "outputs_only (driven_lines (cfg s)) s t"
proof (cases "cfg_nssel_int_mode (cfg s) = ''input''")
  case True
  with assms show ?thesis by (simp add: nssel_int_open_def outputs.refl)
next
  case False
  let ?c = "cfg s" and ?s = "s\<lparr>cs_follows := (cfg_nssel_int_mode (cfg s) = ''follow'')\<rparr>"
  have "gpio_request_output (cfg_nssel_int_line ?c) (cfg_nssel_int_mode ?c \<noteq> ''low'') ?s = Some (x, t)"
    using False assms by (simp add: nssel_int_open_def Let_def)
  moreover have "cfg_nssel_int_line ?c \<in> driven_lines ?c" using False by (simp add: driven_lines_def)
  ultimately have "outputs_only (driven_lines ?c) ?s t" using keepsD [OF outputs_request] by blast
  then show ?thesis by (simp add: outputs_only_def)
qed

lemma pins_open_outputs:
  assumes "pins_open s = Some (p, t)"
  shows "\<exists>s0. pins_autodetect s = Some ((), s0) \<and> outputs_only (driven_lines (cfg s0)) s0 t"
proof -
  from assms obtain s0 r s1 w s2 n s3 c s4 h where
    0: "pins_autodetect s = Some ((), s0)" and
    1: "gpio_request_output (cfg_reset_line (cfg s0)) True s0 = Some (r, s1)" and
    2: "gpio_request_output (cfg_wake_line (cfg s1)) True s1 = Some (w, s2)" and
    3: "nssel_int_open s2 = Some (n, s3)" and
    4: "(if cfg_cs_line (cfg s3) \<noteq> 0 then gpio_try_output (cfg_cs_line (cfg s3)) True s3
         else Some (-1, s3)) = Some (c, s4)" and
    5: "gpio_request_input_edges (cfg_int_line (cfg s4)) s4 = Some (h, t)"
    unfolding pins_open_def by (fastforce simp: Option.bind_eq_Some_conv)
  let ?L = "driven_lines (cfg s0)"
  have 01: "outputs_only ?L s0 s1"
    using keepsD [OF outputs_request 1] by (simp add: driven_lines_def)
  have c1: "cfg s1 = cfg s0" using 01 by (simp add: outputs_only_def)
  have 12: "outputs_only ?L s1 s2"
    using keepsD [OF outputs_request 2] by (simp add: driven_lines_def c1)
  have c2: "cfg s2 = cfg s0" using 12 c1 by (simp add: outputs_only_def)
  have 23: "outputs_only ?L s2 s3" using nssel_int_open_outputs [OF 3] by (simp add: c2)
  have c3: "cfg s3 = cfg s0" using 23 c2 by (simp add: outputs_only_def)
  have 34: "outputs_only ?L s3 s4"
  proof (cases "cfg_cs_line (cfg s0) = 0")
    case True
    with 4 c3 show ?thesis by (simp add: outputs.refl)
  next
    case False
    then have "cfg_cs_line (cfg s3) \<in> ?L" by (simp add: driven_lines_def c3)
    with 4 c3 False keepsD [OF outputs_try] show ?thesis by (simp add: c3)
  qed
  have 45: "outputs_only ?L s4 t" using keepsD [OF outputs_input 5] .
  show ?thesis using 0 01 12 23 34 45 outputs.trans by blast
qed


section \<open>Distinct lines\<close>

text \<open>
  The kernel gives every request a file descriptor of its own; then the four output lines
  of \<open>pins_open\<close> are different lines.
\<close>

definition pins_distinct :: "pins \<Rightarrow> bool" where
  "pins_distinct p \<longleftrightarrow> pin_wake p \<noteq> pin_reset p \<and>
     pin_cs p \<notin> {pin_wake p, pin_reset p} \<and> pin_nssel_int p \<notin> {pin_wake p, pin_reset p}"

fun line_fds :: "line_res list \<Rightarrow> nat list" where
  "line_fds [] = []"
| "line_fds (Line fd # rs) = fd # line_fds rs"
| "line_fds (r # rs) = line_fds rs"

lemma take_line_fds:
  "take_line s = (r, t) \<Longrightarrow> (case r of
      Line fd \<Rightarrow> line_fds (line_results s) = fd # line_fds (line_results t)
    | _ \<Rightarrow> line_fds (line_results s) = line_fds (line_results t))"
  by (auto simp: take_line_def split: list.splits line_res.splits)

lemma request_output_fds: "gpio_request_output off v s = Some (x, t) \<Longrightarrow>
   \<exists>fd. x = int fd \<and> line_fds (line_results s) = fd # line_fds (line_results t)"
  using take_line_fds by (fastforce simp: gpio_request_output_def split: prod.splits line_res.splits)

lemma try_output_fds: "gpio_try_output off v s = Some (x, t) \<Longrightarrow>
   (\<exists>fd. x = int fd \<and> line_fds (line_results s) = fd # line_fds (line_results t)) \<or>
   x = -1 \<and> line_fds (line_results t) = line_fds (line_results s)"
  using take_line_fds by (fastforce simp: gpio_try_output_def split: prod.splits line_res.splits)

lemma nssel_int_open_fds: "nssel_int_open s = Some (x, t) \<Longrightarrow>
   (\<exists>fd. x = int fd \<and> line_fds (line_results s) = fd # line_fds (line_results t)) \<or>
   x = -1 \<and> line_fds (line_results t) = line_fds (line_results s)"
  by (auto simp: nssel_int_open_def Let_def dest!: request_output_fds split: if_splits)

lemma pins_open_distinct_fds:
  assumes "pins_open s = Some (p, t)" and "distinct (line_fds (line_results s))"
  shows "pins_distinct p \<and> 0 \<le> pin_reset p \<and> 0 \<le> pin_wake p"
proof -
  from assms(1) obtain s0 r s1 w s2 n s3 c s4 h where
    0: "pins_autodetect s = Some ((), s0)" and
    1: "gpio_request_output (cfg_reset_line (cfg s0)) True s0 = Some (r, s1)" and
    2: "gpio_request_output (cfg_wake_line (cfg s1)) True s1 = Some (w, s2)" and
    3: "nssel_int_open s2 = Some (n, s3)" and
    4: "(if cfg_cs_line (cfg s3) \<noteq> 0 then gpio_try_output (cfg_cs_line (cfg s3)) True s3
         else Some (-1, s3)) = Some (c, s4)" and
    p: "p = \<lparr>pin_reset = r, pin_wake = w, pin_nssel_int = n, pin_cs = c, pin_hint = h\<rparr>"
    unfolding pins_open_def by (fastforce simp: Option.bind_eq_Some_conv)
  have d: "distinct (line_fds (line_results s0))" using pins_autodetect_Some [OF 0] assms(2) by simp
  obtain a b where r: "r = int a" and a: "line_fds (line_results s0) = a # line_fds (line_results s1)"
    and w: "w = int b" and b: "line_fds (line_results s1) = b # line_fds (line_results s2)"
    using request_output_fds [OF 1] request_output_fds [OF 2] by blast
  have n: "n = -1 \<and> line_fds (line_results s3) = line_fds (line_results s2) \<or>
      (\<exists>f. n = int f \<and> line_fds (line_results s2) = f # line_fds (line_results s3))"
    using nssel_int_open_fds [OF 3] by blast
  have c: "c = -1 \<or> (\<exists>f. c = int f \<and> f \<in> set (line_fds (line_results s3)))"
    using 4 try_output_fds by (fastforce split: if_splits)
  from d a b n c show ?thesis by (auto simp: pins_distinct_def p r w)
qed


section \<open>The NCP boots its application\<close>

text \<open>
  \<open>level_after fd v tr\<close> is the level of a line after a trace, \<open>boot_ok w r v tr\<close> that each
  release of nRESET in the trace happens with nWAKE high (\<open>v\<close>: its level before).
\<close>

fun level_after :: "int \<Rightarrow> bool \<Rightarrow> event list \<Rightarrow> bool" where
  "level_after fd v [] = v"
| "level_after fd v (GpioSet f x # es) = level_after fd (if f = fd then x else v) es"
| "level_after fd v (e # es) = level_after fd v es"

fun boot_ok :: "int \<Rightarrow> int \<Rightarrow> bool \<Rightarrow> event list \<Rightarrow> bool" where
  "boot_ok w r v [] = True"
| "boot_ok w r v (GpioSet f x # es) =
     ((f = r \<and> x \<longrightarrow> v) \<and> boot_ok w r (if f = w then x else v) es)"
| "boot_ok w r v (e # es) = boot_ok w r v es"

lemma level_after_append: "level_after fd v (a @ b) = level_after fd (level_after fd v a) b"
  by (induction fd v a rule: level_after.induct) simp_all

lemma boot_ok_append: "boot_ok w r v (a @ b) \<longleftrightarrow> boot_ok w r v a \<and> boot_ok w r (level_after w v a) b"
  by (induction w r v a rule: boot_ok.induct) auto

definition boots_app :: "pins \<Rightarrow> sys \<Rightarrow> sys \<Rightarrow> bool" where
  "boots_app p s t \<longleftrightarrow> (\<exists>ev. trace t = trace s @ ev \<and>
     boot_ok (pin_wake p) (pin_reset p) True ev \<and>
     level_after (pin_wake p) True ev \<and> level_after (pin_reset p) True ev)"

lemma boots_app_trans: "boots_app p s t \<Longrightarrow> boots_app p t u \<Longrightarrow> boots_app p s u"
  by (fastforce simp: boots_app_def level_after_append boot_ok_append)

interpretation boot: frame_rel "boots_app p"
  by unfold_locales (simp add: boots_app_def, rule boots_app_trans)

text \<open>Events that touch neither line do not matter.\<close>

fun off_boot :: "pins \<Rightarrow> event \<Rightarrow> bool" where
  "off_boot p (GpioSet f x) = (f \<noteq> pin_wake p \<and> f \<noteq> pin_reset p)"
| "off_boot p e = True"

lemma off_boot_event: "off_boot p e \<Longrightarrow> boots_app p s (emit e s)"
  by (cases e) (simp_all add: boots_app_def)

lemma boots_app_trace: "trace t = trace s \<Longrightarrow> boots_app p s t"
  by (simp add: boots_app_def)

named_theorems boot_rules \<open>functions that never start the bootloader\<close>

lemmas boot_seq = boot.keeps_return boot.keeps_returns boot.keeps_bind
  keeps_if keeps_ifs keeps_let keeps_case_prod_fun keeps_case_prod keeps_case_option keeps_fail

lemma boot_emits [boot_rules]: "off_boot p e \<Longrightarrow> keeps (boots_app p) (\<lambda>s. Some (x, emit e s))"
  by (simp add: keeps_def off_boot_event)

lemma boot_ioctl [boot_rules]: "keeps (boots_app p) ioctl"
  by (auto simp: keeps_def ioctl_def boots_app_trace split: list.splits bool.splits)

lemma boot_usleep [boot_rules]: "keeps (boots_app p) (usleep us)"
  unfolding usleep_def by (intro boot_rules) simp

lemma boot_gpio_set [boot_rules]:
  "fd \<noteq> pin_wake p \<Longrightarrow> fd \<noteq> pin_reset p \<Longrightarrow> keeps (boots_app p) (gpio_set fd v)"
  unfolding gpio_set_def by (intro boot_seq boot_rules) simp

lemma boot_spi_raw [boot_rules]: "keeps (boots_app p) (spi_raw fd tx k)"
  by (auto simp: keeps_def boots_app_def dest: spi_raw_Some)

lemma boot_held: "keeps held m \<Longrightarrow> keeps (boots_app p) m"
proof -
  have "boot_ok w r True xs \<and> level_after f True xs" if "list_all held_xfer xs" for w r f xs
    using that by (induction xs) (auto elim!: held_xfer.elims)
  then show "keeps held m \<Longrightarrow> keeps (boots_app p) m"
    by (fastforce simp: keeps_def held_def boots_app_def)
qed

lemma boot_txn [boot_rules]:
  assumes "pins_distinct p" shows "keeps (boots_app p) (spi_txn_framed spi p tx rxlen)"
proof -
  have cs: "keeps (boots_app p) (cs_assert p)" "keeps (boots_app p) (cs_release p)"
    unfolding cs_assert_def cs_release_def
    using assms by (intro boot_seq boot_rules; simp add: pins_distinct_def)+
  have ws: "keeps (boots_app p) (\<lambda>s. wait_states (f s) spi s)" for f
    by (rule keeps_read [where f = "\<lambda>n. wait_states n spi"]) (rule boot_held, rule held_wait_states)
  show ?thesis
    unfolding txn_defs response_tail_def
    by (intro boot_seq boot_rules cs ws boot_held [OF held_response_head])
qed

text \<open>The exact sequences of the two handshakes.\<close>

lemma ncp_reset_trace:
  assumes "ncp_reset p s = Some (x, t)"
  shows "trace t = trace s @ [GpioSet (pin_wake p) True, GpioSet (pin_reset p) False, Sleep 50000,
     GpioSet (pin_reset p) True, if pin_hint p \<ge> 0 then GpioWait (pin_hint p) 2000 else Sleep 500000]"
  using assms unfolding ncp_reset_def
  by (cases "pin_hint p \<ge> 0") (auto simp: Option.bind_eq_Some_conv dest!: trace_dests)

lemma ncp_wake_trace:
  assumes "ncp_wake p s = Some (x, t)"
  shows "trace t = trace s \<and> 0 \<le> pin_hint p \<or>
     trace t = trace s @ [GpioSet (pin_wake p) False,
       if pin_hint p < 0 then Sleep 2000 else GpioWait (pin_hint p) 100,
       GpioSet (pin_wake p) True, if pin_hint p < 0 then Sleep 2000 else Sleep 500]"
  using assms unfolding ncp_wake_def
  by (cases "pin_hint p < 0") (auto simp: Option.bind_eq_Some_conv dest!: trace_dests split: if_splits)

lemma boot_ncp_reset [boot_rules]:
  assumes "pins_distinct p" shows "keeps (boots_app p) (ncp_reset p)"
  using assms by (auto simp: keeps_def boots_app_def pins_distinct_def dest!: ncp_reset_trace)

lemma boot_ncp_wake [boot_rules]:
  assumes "pins_distinct p" shows "keeps (boots_app p) (ncp_wake p)"
  using assms by (fastforce simp: keeps_def boots_app_def pins_distinct_def dest!: ncp_wake_trace)


section \<open>Properties of the board layer\<close>

text \<open>
  The board is picked by its name: V2 exactly when the first line of the board file
  contains its name, V1 exactly when the line contains \<open>whw03\<close> without being a V2, none
  exactly when it contains neither.
\<close>

theorem board_detect_spec:
  assumes "board_file s = Some f"
  defines "has \<equiv> \<lambda>n. \<exists>pre post. c_string (take 63 (first_line f)) = pre @ n @ post"
  shows "board_detect s = (if has ''whw03v2'' then Some whw03v2
     else if has ''whw03'' then Some whw03 else None)"
proof -
  have "has n \<longleftrightarrow> strstr (c_string (take 63 (first_line f))) n" for n
    by (simp only: has_def strstr_iff)
  then show ?thesis using assms(1) by (simp add: board_detect_name board_name_def)
qed

theorem board_detect_spec_witness:
  "board_detect (sys0\<lparr>board_file := Some (''linksys,whw03'' @ [CHR 0x0A])\<rparr>) = Some whw03"
proof -
  let ?s = "sys0\<lparr>board_file := Some (''linksys,whw03'' @ [CHR 0x0A])\<rparr>"
  have n: "c_string (take 63 (first_line (''linksys,whw03'' @ [CHR 0x0A]))) =
      ''linksys,whw03'' @ [CHR 0x0A]"
    by (simp add: c_string_def)
  have "board_file ?s = Some (''linksys,whw03'' @ [CHR 0x0A])" by simp
  from board_detect_spec [OF this, folded strstr_iff] show ?thesis unfolding n by simp
qed

text \<open>
  C25: Without overrides of the reset, wake and chip select lines \<open>pins_open\<close> never drives the
  line that must not be driven on a V1, GPIO 29 of its eMMC, whatever nSSEL_INT's mode and
  line are set to: it drives others or ends the process.
\<close>

theorem pins_open_spares_emmc:
  assumes "pins_open s = Some (p, t)" and "board_detect s = Some whw03"
    and "\<not> cfg_reset_set (cfg s)" and "\<not> cfg_wake_set (cfg s)" and "\<not> cfg_cs_set (cfg s)"
  shows "\<exists>ev. trace t = trace s @ ev \<and> LineOut 29 v \<notin> set ev"
proof -
  obtain s0 where a: "pins_autodetect s = Some ((), s0)" and o: "outputs_only (driven_lines (cfg s0)) s0 t"
    using pins_open_outputs [OF assms(1)] by blast
  have "29 \<notin> driven_lines (cfg s0)"
    using pins_autodetect_Some [OF a] assms(2-5) by (auto simp: driven_lines_def board_lines_def whw03_def)
  with o pins_autodetect_Some [OF a] show ?thesis by (auto simp: outputs_only_def)
qed

definition v1_sys :: sys where
  "v1_sys = sys0\<lparr>board_file := Some ''linksys,whw03'',
     line_results := [Line 3, Line 4, Line 5, Line 6, Line 7]\<rparr>"

definition opened_pins :: pins where
  "opened_pins = \<lparr>pin_reset = 3, pin_wake = 4, pin_nssel_int = 5, pin_cs = 6, pin_hint = 7\<rparr>"

lemma v1_board: "board_detect v1_sys = Some whw03"
  by (simp add: board_detect_def v1_sys_def sys0_def boards_def whw03_def whw03v2_def c_string_def)

lemma v1_opens: "pins_open v1_sys = Some (opened_pins, v1_sys\<lparr>cs_follows := True, line_results := [],
    cfg := board_lines whw03 default_cfg, trace := [LineOut 49 True, LineOut 55 True, LineOut 56 True,
      LineOut 45 True, LineIn 50]\<rparr>)"
proof -
  have a: "pins_autodetect v1_sys = Some ((), v1_sys\<lparr>cfg := board_lines whw03 default_cfg\<rparr>)"
    by (simp add: pins_autodetect_def v1_board) (simp add: v1_sys_def sys0_def board_lines_def whw03_def default_cfg_def)
  show ?thesis
    unfolding pins_open_def a
    by (simp add: gpio_request_output_def gpio_try_output_def gpio_request_input_edges_def take_line_def
        nssel_int_open_def board_lines_def v1_sys_def sys0_def default_cfg_def whw03_def emit_def opened_pins_def)
qed

theorem pins_open_spares_emmc_witness:
  "LineOut 29 True \<notin> set (trace (snd (the (pins_open v1_sys))))"
proof -
  have c: "cfg v1_sys = default_cfg" "trace v1_sys = []" by (simp_all add: v1_sys_def sys0_def)
  have "\<not> cfg_reset_set (cfg v1_sys)" "\<not> cfg_wake_set (cfg v1_sys)" "\<not> cfg_cs_set (cfg v1_sys)"
    unfolding c by (simp_all add: default_cfg_def)
  from pins_open_spares_emmc [OF v1_opens v1_board this, of True]
  show ?thesis unfolding v1_opens c by simp
qed

text \<open>
  Since the kernel hands out different descriptors, the lines \<open>pins_open\<close> returns are
  different: reset and wake are held, and neither is the chip select or nSSEL_INT line.
\<close>

theorem pins_open_distinct:
  assumes "pins_open s = Some (p, t)" and "distinct (line_fds (line_results s))"
  shows "pins_distinct p \<and> 0 \<le> pin_reset p \<and> 0 \<le> pin_wake p"
  using assms by (rule pins_open_distinct_fds)

theorem pins_open_distinct_witness: "pins_distinct opened_pins \<and> 0 \<le> pin_reset opened_pins"
  using pins_open_distinct [OF v1_opens] by (simp add: v1_sys_def)

text \<open>
  A reset raises nWAKE before anything else, holds nRESET low for 50 ms, and after the
  release waits for nHOST_INT (2 s) or, without that line, 500 ms; nothing else happens.
\<close>

theorem ncp_reset_sequence:
  assumes "ncp_reset p s = Some (x, t)"
  shows "trace t = trace s @ [GpioSet (pin_wake p) True, GpioSet (pin_reset p) False, Sleep 50000,
     GpioSet (pin_reset p) True, if pin_hint p \<ge> 0 then GpioWait (pin_hint p) 2000 else Sleep 500000]"
  using assms by (rule ncp_reset_trace)

theorem ncp_reset_sequence_witness:
  "\<exists>t. ncp_reset sample_pins sys0 = Some ((), t) \<and> trace t = [GpioSet 4 True, GpioSet 3 False,
     Sleep 50000, GpioSet 3 True, Sleep 500000]"
proof -
  obtain t where t: "ncp_reset sample_pins sys0 = Some ((), t)"
    using livesE [OF lives_ncp_reset, of sys0 sample_pins] by (auto simp: ioctls_ok_def sys0_def)
  from ncp_reset_sequence [OF t] t show ?thesis by (simp add: sample_pins_def sys0_def)
qed
end
