(* ===== verification/Probe.thy ===== *)
theory Probe
  imports Board
begin

text \<open>
  Commands at the SPI level (probe.c): the class of a response, one exchange with the NCP
  with its single re-send after a reset notification, and the \<open>probe\<close> command.
\<close>

unbundle bit_operations_syntax

section \<open>Classes of responses\<close>

datatype rsp_class =
    RSP_IDLE | RSP_RESET | RSP_ERROR | RSP_VERSION | RSP_STATUS | RSP_EZSP | RSP_OTHER

text \<open>The class, the first real byte and the byte after it.\<close>

definition classify :: "u8 list \<Rightarrow> rsp_class \<times> u8 \<times> u8" where
  "classify rx = (case spi_first_response rx of
      None \<Rightarrow> (RSP_IDLE, 0, 0)
    | Some i \<Rightarrow>
       (let b = rx ! i in
        (if b = 0xFE then RSP_EZSP
         else if b AND 0xC0 = 0x80 then RSP_VERSION
         else if b AND 0xFE = 0xC0 then RSP_STATUS
         else if b = 0x00 then RSP_RESET
         else if b \<le> 0x04 then RSP_ERROR
         else RSP_OTHER, b, byte_after rx i)))"

section \<open>One command\<close>

text \<open>
  A spaced transaction: the gap, the wake handshake, the transaction itself. \<open>do_cmd\<close> runs
  it once, and once more when the NCP answered the first with its reset notification.
\<close>

definition exchange :: "int \<Rightarrow> pins \<Rightarrow> u8 list \<Rightarrow> nat \<Rightarrow> (sys, nat \<times> u8 list) cmd" where
  "exchange spi p tx rxlen s = do {
     (_, s) \<leftarrow> usleep (unat (cfg_gap_us (cfg s))) s;
     (_, s) \<leftarrow> (if cfg_wake_handshake (cfg s) then ncp_wake p s else Some ((), s));
     spi_txn_framed spi p tx rxlen s
   }"

definition do_cmd ::
  "int \<Rightarrow> pins \<Rightarrow> u8 list \<Rightarrow> nat \<Rightarrow> bool \<Rightarrow> (sys, rsp_class \<times> u8 list) cmd" where
  "do_cmd spi p tx rxlen retry_on_reset s = do {
     ((n, rx), s) \<leftarrow> exchange spi p tx rxlen s;
     let cls = fst (classify (take n rx));
     if cls = RSP_RESET \<and> retry_on_reset then do {
       ((n, rx), s) \<leftarrow> exchange spi p tx rxlen s;
       Some ((fst (classify (take n rx)), rx), s)
     }
     else Some ((cls, rx), s)
   }"

section \<open>The probe command\<close>

datatype probe_report =
    Decoded spi_report
  | EzspSpeaks u8 u8 u16      \<comment> \<open>EZSP protocol version, stack type, stack version\<close>

definition probe_ezsp_report :: "u8 list \<Rightarrow> probe_report" where
  "probe_ezsp_report rx = (case spi_first_response rx of
      None \<Rightarrow> Decoded (snd (decode_response rx))
    | Some i \<Rightarrow>
        if rx ! i = 0xFE \<and> i + 6 < length rx
        then EzspSpeaks (rx ! (i + 5)) (rx ! (i + 6))
               (ucast (rx ! (i + 7)) OR push_bit 8 (ucast (rx ! (i + 8))))
        else Decoded (snd (decode_response rx)))"

definition cmd_probe :: "(sys, int \<times> probe_report list) cmd" where
  "cmd_probe s = do {
     (p, s) \<leftarrow> pins_open s;
     (spi, s) \<leftarrow> spi_open s;
     (_, s) \<leftarrow> (if \<not> cfg_no_reset (cfg s) then ncp_reset p s else Some ((), s));
     ((_, rx1), s) \<leftarrow> do_cmd spi p [SPI_CMD_VERSION, SPI_FRAME_TERMINATOR] 512 True s;
     ((_, rx2), s) \<leftarrow> do_cmd spi p [SPI_CMD_STATUS, SPI_FRAME_TERMINATOR] 512 True s;
     ((_, rx3), s) \<leftarrow> do_cmd spi p
        [SPI_CMD_EZSP_FRAME, 0x04, 0x00, 0x00, 0x00, 0x04, SPI_FRAME_TERMINATOR] 512 True s;
     Some ((0, [Decoded (snd (decode_response rx1)), Decoded (snd (decode_response rx2)),
                probe_ezsp_report rx3]), s)
   }"


section \<open>What an exchange keeps and that it returns\<close>

lemmas radio_usleep_cfg [keeps_rules] =
  keeps_read [where f = usleep, OF radio_usleep]

lemmas lives_usleep_cfg [lives_rules] =
  lives_read [where f = usleep, OF lives_usleep]

lemma radio_exchange [keeps_rules]: "keeps radio (exchange spi p tx rxlen)"
  unfolding exchange_def by (intro keeps_rules)

lemma lives_exchange [lives_rules]: "lives ioctls_ok (exchange spi p tx rxlen)"
  unfolding exchange_def by (intro lives_rules)

lemma radio_do_cmd [keeps_rules]: "keeps radio (do_cmd spi p tx rxlen r)"
  unfolding do_cmd_def Let_def by (intro keeps_rules)

lemma lives_do_cmd [lives_rules]: "lives ioctls_ok (do_cmd spi p tx rxlen r)"
  unfolding do_cmd_def Let_def by (intro lives_rules)

lemma boot_exchange [boot_rules]:
  assumes "pins_distinct p" shows "keeps (boots_app p) (exchange spi p tx rxlen)"
  unfolding exchange_def
  by (intro boot_seq boot_rules assms keeps_read [where f = usleep])

lemma boot_do_cmd [boot_rules]:
  assumes "pins_distinct p" shows "keeps (boots_app p) (do_cmd spi p tx rxlen r)"
  unfolding do_cmd_def Let_def by (intro boot_seq boot_rules assms)


section \<open>Classes and what is printed\<close>

fun report_class :: "spi_report \<Rightarrow> rsp_class" where
  "report_class NoResponse = RSP_IDLE"
| "report_class (EzspFrame l) = RSP_EZSP"
| "report_class (ProtocolVersion v) = RSP_VERSION"
| "report_class (NcpStatus b) = RSP_STATUS"
| "report_class (SpiError b d) = (if b = SPI_ERR_RESET then RSP_RESET else RSP_ERROR)"
| "report_class (Unrecognised b) = RSP_OTHER"

lemma classify_decode: "fst (classify rx) = report_class (snd (decode_response rx))"
  by (auto simp: classify_def decode_response_def Let_def split: option.split)

lemma spi_first_response_Some:
  "spi_first_response rx = Some i \<Longrightarrow> i < length rx \<and> rx ! i \<noteq> SPI_IDLE"
  by (induction rx arbitrary: i) (auto split: if_splits)

lemma spi_first_response_None:
  "spi_first_response rx = None \<longleftrightarrow> list_all (\<lambda>b. b = SPI_IDLE) rx"
  by (induction rx) auto

lemma classify_reply:
  "is_reply reply \<Longrightarrow> fst (classify reply) = (let b = hd reply in
     if b = 0xFE then RSP_EZSP else if b AND 0xC0 = 0x80 then RSP_VERSION
     else if b AND 0xFE = 0xC0 then RSP_STATUS else if b = 0x00 then RSP_RESET
     else if b \<le> 0x04 then RSP_ERROR else RSP_OTHER)"
  by (cases reply) (simp_all add: classify_def Let_def)

text \<open>A response starts at the first byte of the buffer, so an EZSP frame does too.\<close>

lemma txn_starts:
  assumes run: "spi_txn_framed spi p tx rxlen s = Some ((n, rx), t)" and pos: "0 < rxlen"
  shows "n = 0 \<and> rx = replicate rxlen 0 \<or> 0 < n \<and> rx ! 0 \<noteq> SPI_IDLE"
  using run
proof (cases rule: txn_cases)
  case (idle s0 s1 s2)
  then show ?thesis by (auto simp: txn_no_response_def Option.bind_eq_Some_conv pad_to_def)
next
  case (response s0 s1 b s2)
  then show ?thesis
    by (auto elim!: txn_responseE simp: response_head_def Option.bind_eq_Some_conv pad_to_def
        split: if_splits)
qed

lemma exchangeE:
  assumes "exchange spi p tx rxlen s = Some (res, t)"
  obtains s0 where "radio s s0" "spi_txn_framed spi p tx rxlen s0 = Some (res, t)"
proof -
  from assms obtain s1 s2 where 1: "usleep (unat (cfg_gap_us (cfg s))) s = Some ((), s1)"
    and 2: "(if cfg_wake_handshake (cfg s1) then ncp_wake p s1 else Some ((), s1)) = Some ((), s2)"
    and 3: "spi_txn_framed spi p tx rxlen s2 = Some (res, t)"
    by (auto simp: exchange_def Option.bind_eq_Some_conv)
  have "radio s s1" using keepsD [OF radio_usleep 1] .
  moreover have "radio s1 s2" using 2 keepsD [OF radio_ncp_wake] radio_refl by (auto split: if_splits)
  ultimately show thesis using that 3 radio_trans by blast
qed

lemma exchange_buffer:
  assumes "exchange spi p tx rxlen s = Some ((n, rx), t)" and "0 < rxlen"
  shows "length rx = rxlen \<and> n \<le> rxlen \<and> (fst (classify (take n rx)) = RSP_EZSP \<longrightarrow> rx ! 0 = 0xFE)"
proof -
  from assms(1) obtain s0 where run: "spi_txn_framed spi p tx rxlen s0 = Some ((n, rx), t)"
    by (auto elim: exchangeE)
  have len: "length rx = rxlen" "n \<le> rxlen" using txn_length [OF run assms(2)] by auto
  have "rx ! 0 = 0xFE" if "fst (classify (take n rx)) = RSP_EZSP"
  proof -
    from that have n: "0 < n" by (cases n) (simp_all add: classify_def)
    with txn_starts [OF run assms(2)] have first: "rx ! 0 \<noteq> SPI_IDLE" by auto
    have "take n rx = rx ! 0 # take (n - 1) (tl rx)"
      using n len assms(2) by (cases rx; cases n) auto
    with that first show ?thesis by (simp add: classify_def Let_def split: if_splits)
  qed
  with len show ?thesis by simp
qed

lemma do_cmd_buffer:
  assumes "do_cmd spi p tx rxlen r s = Some ((cls, rx), t)" and "0 < rxlen"
  shows "length rx = rxlen \<and> (cls = RSP_EZSP \<longrightarrow> rx ! 0 = 0xFE)"
  using assms exchange_buffer [OF _ assms(2)]
  by (fastforce simp: do_cmd_def Option.bind_eq_Some_conv Let_def split: if_splits)


section \<open>Exchanges with an NCP that answers\<close>

text \<open>
  \<open>answers c tx reply m\<close>: the bytes \<open>m\<close> are what the NCP shifts out while the host clocks
  the command \<open>tx\<close> and then the reply: anything during the command, fewer wait states than
  the configuration \<open>c\<close> allows, the reply.
\<close>

definition clocked :: "u8 list \<Rightarrow> sys \<Rightarrow> sys \<Rightarrow> bool" where
  \<comment> \<open>the command went out over SPI between the two states, byte for byte\<close>
  "clocked tx s t \<longleftrightarrow> (\<exists>ev. trace t = trace s @ ev \<and> SpiXfer tx True \<in> set ev)"

lemma clocked_radio: "radio s s1 \<Longrightarrow> clocked tx s1 t \<Longrightarrow> clocked tx s t"
  by (fastforce simp: clocked_def radio_def)

definition answers :: "cfg \<Rightarrow> u8 list \<Rightarrow> u8 list \<Rightarrow> u8 list \<Rightarrow> bool" where
  "answers c tx reply m \<longleftrightarrow> is_reply reply \<and>
     (\<exists>echo w. m = echo @ replicate w SPI_IDLE @ reply \<and> length echo = length tx \<and>
        w < unat (cfg_wait_bytes c))"

lemma answersI:
  "is_reply reply \<Longrightarrow> length echo = length tx \<Longrightarrow> w < unat (cfg_wait_bytes c) \<Longrightarrow>
   answers c tx reply (echo @ replicate w SPI_IDLE @ reply)"
  by (auto simp: answers_def)

lemma ncp_wake_ok:
  assumes "kfail s = []"
  shows "\<exists>t. ncp_wake p s = Some ((), t) \<and> radio s t \<and> miso t = miso s \<and> kfail t = []"
proof -
  obtain t where t: "ncp_wake p s = Some ((), t)" "ioctls_ok t"
    using livesE [OF lives_ncp_wake, of s p] assms by (auto simp: ioctls_ok_def)
  moreover have "radio s t" using keepsD [OF radio_ncp_wake t(1)] .
  moreover have "miso t = miso s"
    using t(1) by (auto simp: ncp_wake_def Option.bind_eq_Some_conv dest!: trace_dests split: if_splits)
  ultimately show ?thesis by (auto simp: ioctls_ok_def)
qed

lemma exchange_ok:
  assumes "kfail s = []"
  shows "\<exists>s1. exchange spi p tx rxlen s = spi_txn_framed spi p tx rxlen s1 \<and>
     radio s s1 \<and> miso s1 = miso s \<and> kfail s1 = []"
proof -
  let ?s = "emit (Sleep (unat (cfg_gap_us (cfg s)))) s"
  have r: "radio s ?s" by (rule radio_emit) simp
  obtain s1 where "(if cfg_wake_handshake (cfg ?s) then ncp_wake p ?s else Some ((), ?s)) = Some ((), s1)"
    and "radio ?s s1" "miso s1 = miso s" "kfail s1 = []"
    using ncp_wake_ok [of ?s p] assms radio_refl [of ?s] by (cases "cfg_wake_handshake (cfg ?s)") auto
  then show ?thesis using r radio_trans by (auto simp: exchange_def usleep_def)
qed

lemma radio_cfg: "radio s t \<Longrightarrow> cfg t = cfg s"
  by (simp add: radio_def)

lemma exchange_reply:
  assumes "kfail s = []" and "answers (cfg s) tx reply m" and "miso s = m @ rest"
    and "length reply \<le> rxlen" and "tx \<noteq> []"
  shows "\<exists>t. exchange spi p tx rxlen s = Some ((length reply, pad_to rxlen 0 reply), t) \<and>
     radio s t \<and> miso t = rest \<and> kfail t = [] \<and> clocked tx s t"
proof -
  obtain s1 where s1: "exchange spi p tx rxlen s = spi_txn_framed spi p tx rxlen s1"
    "radio s s1" "miso s1 = miso s" "kfail s1 = []"
    using exchange_ok [OF assms(1)] by blast
  from assms(2) obtain echo w where m: "m = echo @ replicate w SPI_IDLE @ reply"
    "length echo = length tx" "w < unat (cfg_wait_bytes (cfg s))" "is_reply reply"
    by (auto simp: answers_def)
  define t where "t = s1\<lparr>miso := rest, trace := trace s1 @ cs_events p (cs_follows s1) False @
    command_xfers tx (Suc w) @ reply_xfers p reply @ cs_events p (cs_follows s1) True\<rparr>"
  have run: "spi_txn_framed spi p tx rxlen s1 = Some ((length reply, pad_to rxlen 0 reply), t)"
    unfolding t_def by (rule txn_reply [where echo = echo]) (use s1 m assms radio_cfg [OF s1(2)] in simp_all)
  have "radio s1 t" using keepsD [OF radio_spi_txn_framed run] .
  moreover have "clocked tx s1 t"
    unfolding clocked_def by (rule exI) (use assms(5) in \<open>auto simp: t_def command_xfers_def\<close>)
  ultimately show ?thesis
    using run s1 radio_trans clocked_radio by (auto simp: t_def)
qed

text \<open>The command is answered at once, or after one reset notification.\<close>

lemma do_cmd_reply:
  assumes k: "kfail s = []" and a: "answers (cfg s) tx reply m" and m: "miso s = m @ rest"
    and n: "length reply \<le> rxlen" "tx \<noteq> []" and c: "hd reply \<noteq> SPI_ERR_RESET"
  shows "\<exists>t. do_cmd spi p tx rxlen r s = Some ((fst (classify reply), pad_to rxlen 0 reply), t) \<and>
     radio s t \<and> miso t = rest \<and> kfail t = [] \<and> clocked tx s t"
proof -
  from exchange_reply [OF k a m n] obtain t where t:
    "exchange spi p tx rxlen s = Some ((length reply, pad_to rxlen 0 reply), t)"
    "radio s t" "miso t = rest" "kfail t = []" "clocked tx s t" by blast
  have "is_reply reply" using a by (simp add: answers_def)
  then have "fst (classify reply) \<noteq> RSP_RESET" using c by (simp add: classify_reply Let_def)
  with t show ?thesis by (simp add: do_cmd_def)
qed

lemma do_cmd_after_reset:
  assumes k: "kfail s = []" and a1: "answers (cfg s) tx [SPI_ERR_RESET, reason, term] m1"
    and a2: "answers (cfg s) tx reply m2" and m: "miso s = m1 @ m2 @ rest"
    and n: "3 \<le> rxlen" "length reply \<le> rxlen" "tx \<noteq> []"
  shows "\<exists>t. do_cmd spi p tx rxlen True s = Some ((fst (classify reply), pad_to rxlen 0 reply), t) \<and>
     radio s t \<and> miso t = rest \<and> kfail t = [] \<and> clocked tx s t"
proof -
  let ?r = "[SPI_ERR_RESET, reason, term]"
  have "length ?r \<le> rxlen" using n by simp
  from exchange_reply [OF k a1 m this n(3)] obtain t1 where t1:
    "exchange spi p tx rxlen s = Some ((length ?r, pad_to rxlen 0 ?r), t1)"
    "radio s t1" "miso t1 = m2 @ rest" "kfail t1 = []" by blast
  have "answers (cfg t1) tx reply m2" using a2 radio_cfg [OF t1(2)] by simp
  from exchange_reply [OF t1(4) this t1(3) n(2,3)] obtain t where t:
    "exchange spi p tx rxlen t1 = Some ((length reply, pad_to rxlen 0 reply), t)"
    "radio t1 t" "miso t = rest" "kfail t = []" "clocked tx t1 t" by blast
  have "fst (classify (take (length ?r) (pad_to rxlen 0 ?r))) = RSP_RESET"
    by (simp only: take_pad_to) (simp add: classify_def)
  with t1(1) t radio_trans [OF t1(2) t(2)] clocked_radio [OF t1(2)] show ?thesis by (simp add: do_cmd_def del: list.size)
qed

lemma do_cmd_silent:
  assumes k: "kfail s = []"
    and m: "list_all (\<lambda>b. b = SPI_IDLE) (take (unat (cfg_wait_bytes (cfg s))) (drop (length tx) (miso s)))"
  shows "\<exists>t. do_cmd spi p tx rxlen r s = Some ((RSP_IDLE, replicate rxlen 0), t)"
proof -
  obtain s1 where s1: "exchange spi p tx rxlen s = spi_txn_framed spi p tx rxlen s1"
    "radio s s1" "miso s1 = miso s" "kfail s1 = []"
    using exchange_ok [OF k] by blast
  with txn_no_reply [of s1 tx spi p rxlen] m radio_cfg [OF s1(2)] show ?thesis
    by (auto simp: do_cmd_def classify_def)
qed


section \<open>Properties of the commands\<close>

text \<open>
  The class that drives retries and the report printed to the user agree on every buffer:
  \<open>classify\<close> and \<open>decode_response\<close>, two pieces of code, read a first byte the same way.
\<close>

theorem classify_agrees: "fst (classify rx) = report_class (snd (decode_response rx))"
  by (rule classify_decode)

text \<open>
  C6: After a reset notification the command is sent again and answered: if the NCP first
  shifts out its notification and then the reply, \<open>do_cmd\<close> returns the reply's class and
  bytes and has consumed exactly both responses.
\<close>

theorem do_cmd_retries:
  assumes "kfail s = []" and "answers (cfg s) tx [SPI_ERR_RESET, reason, term] m1"
    and "answers (cfg s) tx reply m2" and "miso s = m1 @ m2 @ rest"
    and "3 \<le> rxlen" and "length reply \<le> rxlen" and "tx \<noteq> []"
  shows "\<exists>t. do_cmd spi p tx rxlen True s = Some ((fst (classify reply), pad_to rxlen 0 reply), t) \<and>
     radio s t \<and> miso t = rest \<and> kfail t = [] \<and> clocked tx s t"
  using assms by (rule do_cmd_after_reset)

definition retry_sys :: sys where
  \<comment> \<open>a reset notification, then the protocol version\<close>
  "retry_sys = sys0\<lparr>miso := ([0xFF, 0xFF] @ replicate 1 0xFF @ [0x00, 0x02, 0xA7]) @
     ([0xFF, 0xFF] @ replicate 0 0xFF @ [0x82, 0xA7]) @ []\<rparr>"

theorem do_cmd_retries_witness:
  "\<exists>t. do_cmd 9 sample_pins [0x0A, 0xA7] 4 True retry_sys = Some ((RSP_VERSION, [0x82, 0xA7, 0, 0]), t) \<and>
     miso t = []"
proof -
  have c: "cfg retry_sys = default_cfg" "kfail retry_sys = []" by (simp_all add: retry_sys_def sys0_def)
  have 1: "answers default_cfg [0x0A, 0xA7] [0x00, 0x02, 0xA7] ([0xFF, 0xFF] @ replicate 1 0xFF @ [0x00, 0x02, 0xA7])"
    by (rule answersI) (simp_all add: default_wait_bytes)
  have 2: "answers default_cfg [0x0A, 0xA7] [0x82, 0xA7] ([0xFF, 0xFF] @ replicate 0 0xFF @ [0x82, 0xA7])"
    by (rule answersI) (simp_all add: default_wait_bytes)
  show ?thesis
    using do_cmd_retries [of retry_sys, unfolded c, OF refl 1 2, of "[]" 4 9 sample_pins]
    by (auto simp: retry_sys_def classify_def pad_to_4)
qed

text \<open>
  Whatever the NCP sends, the buffer a caller reads has its size, and a response of
  class EZSP starts at its first byte: the fixed offsets the callers use are right.
\<close>

theorem do_cmd_layout:
  assumes "do_cmd spi p tx rxlen r s = Some ((cls, rx), t)" and "0 < rxlen"
  shows "length rx = rxlen \<and> (cls = RSP_EZSP \<longrightarrow> rx ! 0 = 0xFE)"
  using assms by (rule do_cmd_buffer)

definition nop_sys :: sys where
  \<comment> \<open>an EZSP frame of one byte\<close>
  "nop_sys = sys0\<lparr>miso := ([0xFF] @ replicate 1 0xFF @ [0xFE, 0x01, 0x55, 0xA7]) @ []\<rparr>"

theorem do_cmd_layout_witness:
  "\<exists>rx t. do_cmd 9 sample_pins [0x0A] 6 True nop_sys = Some ((RSP_EZSP, rx), t) \<and> rx ! 0 = 0xFE"
proof -
  have c: "cfg nop_sys = default_cfg" "kfail nop_sys = []" by (simp_all add: nop_sys_def sys0_def)
  have "answers default_cfg [0x0A] [0xFE, 0x01, 0x55, 0xA7] ([0xFF] @ replicate 1 0xFF @ [0xFE, 0x01, 0x55, 0xA7])"
    by (rule answersI) (simp_all add: default_wait_bytes)
  from do_cmd_reply [of nop_sys, unfolded c, OF refl this, of "[]" 6 9 sample_pins True]
  obtain rx t where "do_cmd 9 sample_pins [0x0A] 6 True nop_sys = Some ((RSP_EZSP, rx), t)"
    by (auto simp: nop_sys_def classify_def)
  with do_cmd_layout [of 9 sample_pins "[0x0A]" 6 True nop_sys RSP_EZSP rx t] show ?thesis by auto
qed

text \<open>
  C40: A silent NCP is classed as idle, but the buffer handed back is all zeros, which
  \<open>decode_response\<close> over the whole buffer, as \<open>cmd_probe\<close> calls it, reports
  as the error "reset occurred" and not as "no response".
\<close>

theorem silent_ncp_reads_as_reset:
  assumes "kfail s = []" and "0 < rxlen"
    and "list_all (\<lambda>b. b = SPI_IDLE) (take (unat (cfg_wait_bytes (cfg s))) (drop (length tx) (miso s)))"
  shows "\<exists>t. do_cmd spi p tx rxlen r s = Some ((RSP_IDLE, replicate rxlen 0), t) \<and>
     decode_response (replicate rxlen 0) = (0, SpiError SPI_ERR_RESET 0)"
proof -
  have "decode_response (replicate rxlen 0) = (0, SpiError SPI_ERR_RESET 0)"
    using assms(2) by (cases rxlen) (auto simp: decode_response_def byte_after_def nth_Cons')
  with do_cmd_silent [OF assms(1,3)] show ?thesis by blast
qed

theorem silent_ncp_reads_as_reset_witness:
  "\<exists>t. do_cmd 9 sample_pins [0x0B, 0xA7] 512 True sys0 = Some ((RSP_IDLE, replicate 512 0), t)"
  using silent_ncp_reads_as_reset [of sys0 512 "[0x0B, 0xA7]" 9 sample_pins True]
  by (auto simp: sys0_def)
end
