(* ===== verification/Ash.thy ===== *)
theory Ash
  imports Probe
begin

text \<open>
  The ASH framing of the TCP bridge (first half of bridge.c): the pseudo-random mask, the
  CRC, byte stuffing, and the functions that send a frame to the client. \<open>struct bridge\<close>
  is the record of the bridge's state; its two buffers with a length, \<open>rx\<close>/\<open>rxlen\<close> and
  \<open>sent[i].body\<close>/\<open>sent[i].len\<close>, are lists of the bytes in use.
\<close>

unbundle bit_operations_syntax

section \<open>Constants and state (ezsp-spi.h)\<close>

abbreviation ASH_FLAG :: u8 where "ASH_FLAG \<equiv> 0x7E"
abbreviation ASH_ESC :: u8 where "ASH_ESC \<equiv> 0x7D"
abbreviation ASH_XON :: u8 where "ASH_XON \<equiv> 0x11"
abbreviation ASH_XOFF :: u8 where "ASH_XOFF \<equiv> 0x13"
abbreviation ASH_SUB :: u8 where "ASH_SUB \<equiv> 0x18"
abbreviation ASH_CANCEL :: u8 where "ASH_CANCEL \<equiv> 0x1A"
abbreviation ASH_CTRL_RST :: u8 where "ASH_CTRL_RST \<equiv> 0xC0"
abbreviation ASH_CTRL_RSTACK :: u8 where "ASH_CTRL_RSTACK \<equiv> 0xC1"
abbreviation ASH_RESET_SOFTWARE :: u8 where "ASH_RESET_SOFTWARE \<equiv> 0x0B"
abbreviation ASH_MAX_FRAME :: nat where "ASH_MAX_FRAME \<equiv> 140"
abbreviation ASH_WINDOW :: nat where "ASH_WINDOW \<equiv> 8"

record bridge =
  b_spi :: int
  b_p :: pins
  b_srv :: int
  b_cli :: int                \<comment> \<open>connected client, \<open>-1\<close> if none\<close>
  b_ready :: bool             \<comment> \<open>RST answered with RSTACK; may send\<close>
  b_negotiated :: bool        \<comment> \<open>EZSP version agreed; may poll callbacks\<close>
  b_frm :: u8                 \<comment> \<open>next frame number we send\<close>
  b_ack :: u8                 \<comment> \<open>next frame number we expect\<close>
  b_cbseq :: u8               \<comment> \<open>sequence for our own callback polls\<close>
  b_ver :: int                \<comment> \<open>negotiated EZSP version\<close>
  b_rx :: "u8 list"
  b_esc :: bool
  b_sent :: "u8 list list"    \<comment> \<open>unacked DATA frames by frame number, \<open>[]\<close> for length 0\<close>


section \<open>Mask, checksum, stuffing\<close>

definition ash_rand_next :: "u8 \<Rightarrow> u8" where
  "ash_rand_next r = (if r AND 1 \<noteq> 0 then drop_bit 1 r XOR 0xB8 else drop_bit 1 r)"

fun ash_rand_fill :: "nat \<Rightarrow> u8 \<Rightarrow> u8 list" where
  "ash_rand_fill 0 r = []"
| "ash_rand_fill (Suc n) r = r # ash_rand_fill n (ash_rand_next r)"

text \<open>The table as \<open>ash_rand_init\<close> leaves it; \<open>cmd_bridge\<close> calls that first.\<close>

definition ash_rand :: "u8 list" where
  "ash_rand = ash_rand_fill 256 0x42"

text \<open>The loops \<open>d[i] ^ ash_rand[i]\<close> over frames of at most 140 bytes.\<close>

definition ash_mask :: "u8 list \<Rightarrow> u8 list" where
  "ash_mask d = map2 (XOR) d ash_rand"

definition crc_bit :: "u16 \<Rightarrow> u16" where
  "crc_bit c = (if c AND 0x8000 \<noteq> 0 then push_bit 1 c XOR 0x1021 else push_bit 1 c)"

definition crc_byte :: "u16 \<Rightarrow> u8 \<Rightarrow> u16" where
  "crc_byte c d = (crc_bit ^^ 8) (c XOR push_bit 8 (ucast d))"

definition ash_crc :: "u8 list \<Rightarrow> u16" where
  "ash_crc d = foldl crc_byte 0xFFFF d"

definition crc_tail :: "u8 list \<Rightarrow> u8 list" where
  "crc_tail d = [ucast (drop_bit 8 (ash_crc d)), ucast (ash_crc d AND 0xFF)]"

definition reserved :: "u8 \<Rightarrow> bool" where
  "reserved c \<longleftrightarrow> c = ASH_FLAG \<or> c = ASH_ESC \<or> c = ASH_XON \<or> c = ASH_XOFF \<or>
     c = ASH_SUB \<or> c = ASH_CANCEL"

fun stuff :: "u8 list \<Rightarrow> u8 list" where
  "stuff [] = []"
| "stuff (c # cs) = (if reserved c then ASH_ESC # (c XOR 0x20) # stuff cs else c # stuff cs)"

definition ash_encode :: "u8 list \<Rightarrow> u8 list" where
  "ash_encode frame = stuff (frame @ crc_tail frame) @ [ASH_FLAG]"


section \<open>Sending to the client\<close>

text \<open>
  The loop of \<open>write_all\<close> over the kernel's answers: whether all was written, the pieces
  that were, the answers left.
\<close>

fun write_loop :: "write_res list \<Rightarrow> u8 list \<Rightarrow> bool \<times> u8 list list \<times> write_res list" where
  "write_loop ws [] = (True, [], ws)"
| "write_loop [] buf = (True, [buf], [])"
| "write_loop (WIntr # ws) buf = write_loop ws buf"
| "write_loop (WErr # ws) buf = (False, [], ws)"
| "write_loop (Wrote n # ws) buf =
     (if n = 0 then (False, [], ws)
      else (let (ok, cs, ws') = write_loop ws (drop n buf) in (ok, take n buf # cs, ws')))"

definition write_all :: "int \<Rightarrow> u8 list \<Rightarrow> (sys, int) cmd" where
  "write_all fd buf s =
     (let (ok, cs, ws) = write_loop (writes s) buf
      in Some (if ok then 0 else -1, s\<lparr>writes := ws, trace := trace s @ map (TcpSend fd) cs\<rparr>))"

definition ash_send :: "bridge \<Rightarrow> u8 list \<Rightarrow> (sys, int) cmd" where
  "ash_send b frame s =
     (if b_cli b < 0 \<or> length frame + 2 > ASH_MAX_FRAME + 2 then Some (-1, s)
      else write_all (b_cli b) (ash_encode frame) s)"

definition ash_send_ack :: "bridge \<Rightarrow> (sys, unit) cmd" where
  "ash_send_ack b s = do {
     (_, s) \<leftarrow> ash_send b [0x80 OR (b_ack b AND 0x07)] s;
     Some ((), s)
   }"

definition data_ctrl :: "bridge \<Rightarrow> u8" where
  "data_ctrl b = push_bit 4 (b_frm b AND 0x07) OR (b_ack b AND 0x07)"

definition ash_send_data :: "bridge \<Rightarrow> u8 list \<Rightarrow> (sys, bridge) cmd" where
  "ash_send_data b ezsp s =
     (if length ezsp + 1 > ASH_MAX_FRAME then Some (b, s)
      else do {
        let body = data_ctrl b # ash_mask ezsp;
        let b' = b\<lparr>b_sent := (b_sent b)[unat (b_frm b AND 0x07) := body],
                   b_frm := (b_frm b + 1) AND 0x07\<rparr>;
        (_, s) \<leftarrow> ash_send b' body s;
        Some (b', s)
      })"

text \<open>
  The frame numbers the loop of \<open>ash_retransmit\<close> goes through, with fuel: \<open>None\<close> is a loop
  that has not come to its end. Both numbers are always below 8, and then 8 is enough.
\<close>

fun retransmit_slots :: "nat \<Rightarrow> u8 \<Rightarrow> u8 \<Rightarrow> u8 list option" where
  "retransmit_slots 0 n frm = None"
| "retransmit_slots (Suc k) n frm =
     (if n = frm then Some []
      else map_option (Cons n) (retransmit_slots k ((n + 1) AND 0x07) frm))"

definition resend_slot :: "bridge \<Rightarrow> u8 \<Rightarrow> (sys, int) cmd" where
  "resend_slot b n s = (case b_sent b ! unat (n AND 0x07) of
      [] \<Rightarrow> Some (0, s)
    | c # body \<Rightarrow> ash_send b ((c OR 0x08) # body) s)"

fun resend :: "bridge \<Rightarrow> u8 list \<Rightarrow> (sys, unit) cmd" where
  "resend b [] s = Some ((), s)"
| "resend b (n # ns) s = do { (_, s) \<leftarrow> resend_slot b n s; resend b ns s }"

definition ash_retransmit :: "bridge \<Rightarrow> u8 \<Rightarrow> (sys, unit) cmd" where
  "ash_retransmit b from s =
     (case retransmit_slots ASH_WINDOW from (b_frm b) of
        None \<Rightarrow> None
      | Some ns \<Rightarrow> resend b ns s)"


section \<open>Mask facts\<close>

lemma length_ash_rand_fill [simp]: "length (ash_rand_fill n r) = n"
  by (induction n r rule: ash_rand_fill.induct) simp_all

lemma length_ash_rand [simp]: "length ash_rand = 256"
  by (simp add: ash_rand_def)

lemma length_ash_mask [simp]: "length d \<le> 256 \<Longrightarrow> length (ash_mask d) = length d"
  by (simp add: ash_mask_def)

lemma ash_mask_twice: "length d \<le> 256 \<Longrightarrow> ash_mask (ash_mask d) = d"
  by (rule nth_equalityI) (simp_all add: ash_mask_def)


section \<open>Checksum facts\<close>

lemma crc_top_bit: "(c::u16) AND 0x8000 \<noteq> 0 \<longleftrightarrow> bit c 15"
  using bit_iff_and_push_bit_not_eq_0 [of c 15] by simp

lemma crc_bit_alt: "crc_bit c = push_bit 1 c XOR (if bit c 15 then 0x1021 else 0)"
  by (simp add: crc_bit_def crc_top_bit)

lemma crc_bit_xor: "crc_bit (a XOR b) = crc_bit a XOR crc_bit b"
  by (cases "bit a 15"; cases "bit b 15")
    (simp_all add: crc_bit_alt bit_xor_iff push_bit_xor xor.assoc xor.left_commute xor.commute)

lemma crc_bit_0: assumes "crc_bit x = 0" shows "x = 0"
proof -
  have b: "bit (crc_bit x) n = False" for n using assms by simp
  have t: "\<not> bit x 15" using b [of 0] by (auto simp: crc_bit_alt bit_0 even_xor_iff split: if_splits)
  show ?thesis
  proof (rule bit_eqI)
    fix n assume "possible_bit TYPE(16 word) n"
    then have n: "n < 16" by simp
    show "bit x n = bit 0 n"
    proof (cases "n = 15")
      case True with t show ?thesis by simp
    next
      case False
      with n b [of "Suc n"] t show ?thesis
        by (simp add: crc_bit_alt mult.commute [of x 2] bit_double_iff)
    qed
  qed
qed

lemma crc_bits_xor: "(crc_bit ^^ n) (a XOR b) = (crc_bit ^^ n) a XOR (crc_bit ^^ n) b"
  by (induction n) (simp_all add: crc_bit_xor)

lemma crc_bits_inj: "(crc_bit ^^ n) a = (crc_bit ^^ n) b \<Longrightarrow> a = b"
proof (induction n)
  case (Suc n)
  then have "crc_bit ((crc_bit ^^ n) a XOR (crc_bit ^^ n) b) = 0"
    by (simp add: crc_bit_xor)
  then have "(crc_bit ^^ n) a XOR (crc_bit ^^ n) b = 0" by (rule crc_bit_0)
  then have "(crc_bit ^^ n) a = (crc_bit ^^ n) b" 
    using xor_cancel [of "(crc_bit ^^ n) a" "(crc_bit ^^ n) b"] by simp
  then show ?case by (rule Suc.IH)
qed simp

lemma high_byte: "bit (push_bit 8 (ucast (d::u8)) :: u16) n \<longleftrightarrow> 8 \<le> n \<and> n < 16 \<and> bit d (n - 8)"
  by (auto simp: bit_push_bit_iff bit_ucast_iff dest: bit_imp_le_length)

lemma push8_inj: "(push_bit 8 (ucast (a::u8)) :: u16) = push_bit 8 (ucast b) \<Longrightarrow> a = b"
proof (rule bit_eqI)
  fix n assume e: "(push_bit 8 (ucast a) :: u16) = push_bit 8 (ucast b)" and "possible_bit TYPE(8 word) n"
  then have "n < 8" by simp
  moreover have "bit (push_bit 8 (ucast a) :: u16) (n + 8) = bit (push_bit 8 (ucast b) :: u16) (n + 8)" using e by simp
  ultimately show "bit a n = bit b n" by (simp add: high_byte)
qed


lemma crc_bits_low: "k \<le> 8 \<Longrightarrow> (crc_bit ^^ k) (ucast (z::u8)) = push_bit k (ucast z)"
proof (induction k)
  case (Suc k)
  then have "\<not> bit (push_bit k (ucast z) :: u16) 15"
    by (auto simp: bit_push_bit_iff bit_ucast_iff dest: bit_imp_le_length)
  with Suc show ?case by (simp add: crc_bit_alt push_bit_double)
qed simp

lemma high_low: "(push_bit 8 (ucast (x::u8)) :: u16) = ucast (y::u8) \<Longrightarrow> x = 0 \<and> y = 0"
proof -
  assume e: "(push_bit 8 (ucast x) :: u16) = ucast y"
  have b: "bit (push_bit 8 (ucast x) :: u16) n = bit (ucast y :: u16) n" for n using e by simp
  have "bit x n = bit (0::u8) n" if "n < 8" for n
    using b [of "n + 8"] that by (auto simp: high_byte bit_ucast_iff dest: bit_imp_le_length)
  moreover have "bit y n = bit (0::u8) n" if "n < 8" for n
    using b [of n] that by (auto simp: high_byte bit_ucast_iff)
  ultimately show ?thesis by (auto intro: bit_eqI)
qed

lemma push8_xor: "(push_bit 8 (ucast (a XOR b :: u8)) :: u16) = push_bit 8 (ucast a) XOR push_bit 8 (ucast b)"
  by (rule bit_eqI) (auto simp: high_byte bit_xor_iff)

lemma crc_byte_state: "crc_byte c d = crc_byte c' d \<Longrightarrow> c = c'"
  unfolding crc_byte_def by (drule crc_bits_inj) (metis xor_cancel)

lemma crc_byte_byte: "crc_byte c d = crc_byte c d' \<Longrightarrow> d = d'"
  unfolding crc_byte_def by (drule crc_bits_inj) (metis xor_cancel xor.commute push8_inj)

lemma crc_byte_pair:
  assumes "crc_byte (crc_byte c a) b = crc_byte (crc_byte c a') b'"
  shows "a = a' \<and> b = b'"
proof -
  let ?h = "\<lambda>x::u8. push_bit 8 (ucast x) :: u16" and ?T = "crc_bit ^^ 8"
  have "?T (c XOR ?h a) XOR ?h b = ?T (c XOR ?h a') XOR ?h b'"
    using assms unfolding crc_byte_def by (rule crc_bits_inj)
  then have "?T (c XOR ?h a) XOR ?T (c XOR ?h a') = ?h b XOR ?h b'" by (rule xor_swap)
  then have "?T ((c XOR ?h a) XOR (c XOR ?h a')) = ?h (b XOR b')"
    by (simp only: crc_bits_xor push8_xor)
  moreover have "(c XOR ?h a) XOR (c XOR ?h a') = ?h (a XOR a')"
    by (simp add: push8_xor xor.assoc xor.left_commute)
  ultimately have "?T (?h (a XOR a')) = ?T (ucast (b XOR b'))"
    by (simp only: crc_bits_low order_refl)
  then have "a XOR a' = 0 \<and> b XOR b' = 0"
    using high_low crc_bits_inj by blast
  then show ?thesis by (auto dest: xor_zero)
qed

text \<open>
  What the frame check relies on: a step that loses nothing of the state and nothing of
  the byte. Changing one byte of a message, or two neighbours, then changes the checksum.
\<close>

locale checksum =
  fixes step :: "'s \<Rightarrow> 'b \<Rightarrow> 's"
  assumes step_state: "step s b = step t b \<Longrightarrow> s = t"
    and step_byte: "step s b = step s c \<Longrightarrow> b = c"
begin

lemma fold_state: "foldl step s xs = foldl step t xs \<Longrightarrow> s = t"
  by (induction xs arbitrary: s t) (auto dest: step_state)

lemma single_byte: "foldl step s (u @ x # v) = foldl step s (u @ y # v) \<Longrightarrow> x = y"
  by (auto dest!: fold_state step_byte)

end

locale burst_checksum = checksum +
  assumes step_pair: "step (step s a) b = step (step s c) d \<Longrightarrow> a = c \<and> b = d"
begin

lemma pair_burst: "foldl step s (u @ a # b # v) = foldl step s (u @ c # d # v) \<Longrightarrow> a = c \<and> b = d"
  by (auto dest!: fold_state step_pair)

end

interpretation crc: burst_checksum crc_byte
  by unfold_locales (blast dest: crc_byte_state crc_byte_byte crc_byte_pair)+

text \<open>The receiver's comparison value, and that it is the sender's checksum.\<close>

lemma low_byte: "bit (c AND 0xFF :: u16) n \<longleftrightarrow> n < 8 \<and> bit c n"
proof -
  have m: "(0xFF :: u16) = mask 8" by (simp add: mask_eq_exp_minus_1)
  show ?thesis unfolding m by (auto simp: bit_and_iff bit_mask_iff dest: bit_imp_le_length)
qed

lemma crc_tail_value:
  fixes c :: u16
  shows "(push_bit 8 (ucast (ucast (drop_bit 8 c) :: u8)) OR ucast (ucast (c AND 0xFF) :: u8)) = c"
    (is "?v = c")
proof (rule bit_eqI)
  fix n assume "possible_bit TYPE(16 word) n"
  then have n: "n < 16" by simp
  show "bit ?v n = bit c n"
    using n by (cases "n < 8") (auto simp: bit_or_iff high_byte bit_ucast_iff bit_drop_bit_eq low_byte
      dest: bit_imp_le_length)
qed

text \<open>The textbook form: one shift per message bit, most significant bit first.\<close>

definition crc_serial :: "u16 \<Rightarrow> bool \<Rightarrow> u16" where
  "crc_serial c m = (if bit c 15 \<noteq> m then push_bit 1 c XOR 0x1021 else push_bit 1 c)"

definition byte_bits :: "u8 \<Rightarrow> bool list" where
  "byte_bits d = map (bit d) [7, 6, 5, 4, 3, 2, 1, 0]"

lemma crc_step_serial:
  assumes "k < 8"
  shows "crc_bit (c XOR push_bit (8 + k) (ucast (d::u8))) =
         crc_serial c (bit d (7 - k)) XOR push_bit (9 + k) (ucast d)"
proof -
  have "bit (push_bit (8 + k) (ucast d) :: u16) 15 \<longleftrightarrow> bit d (7 - k)"
    using assms by (auto simp: bit_push_bit_iff bit_ucast_iff)
  moreover have "push_bit 1 (push_bit (8 + k) (ucast d)) = (push_bit (9 + k) (ucast d) :: u16)"
    by (simp only: push_bit_push_bit) simp
  ultimately show ?thesis
    by (simp only: crc_bit_alt crc_serial_def push_bit_xor bit_xor_iff)
      (auto simp: xor.assoc xor.left_commute xor.commute)
qed

lemma nth_byte_bits: "k < 8 \<Longrightarrow> byte_bits d ! k = bit d (7 - k)"
  unfolding byte_bits_def by (auto simp: nth_Cons' numeral_eq_Suc less_Suc_eq)

lemma crc_bits_serial:
  "k \<le> 8 \<Longrightarrow> (crc_bit ^^ k) (c XOR push_bit 8 (ucast (d::u8))) =
     foldl crc_serial c (take k (byte_bits d)) XOR push_bit (8 + k) (ucast d)"
proof (induction k)
  case (Suc k)
  then have k: "k < 8" by simp
  then have "take (Suc k) (byte_bits d) = take k (byte_bits d) @ [bit d (7 - k)]"
    by (subst take_Suc_conv_app_nth) (simp_all add: nth_byte_bits, simp add: byte_bits_def)
  with Suc k show ?case
    by (simp only: funpow.simps o_apply less_imp_le crc_step_serial foldl_append foldl.simps)
      (simp add: add.commute)
qed simp

lemma crc_byte_serial: "crc_byte c d = foldl crc_serial c (byte_bits d)"
proof -
  have z: "push_bit (8 + 8) (ucast d :: u16) = 0"
    by (rule bit_eqI) (auto simp: bit_push_bit_iff)
  have "take 8 (byte_bits d) = byte_bits d" by (simp add: byte_bits_def)
  then show ?thesis by (simp only: crc_byte_def crc_bits_serial [OF order_refl] z xor.right_neutral)
qed

lemma ash_crc_serial: "ash_crc d = foldl crc_serial 0xFFFF (concat (map byte_bits d))"
proof -
  have "foldl crc_byte c d = foldl crc_serial c (concat (map byte_bits d))" for c
    by (induction d arbitrary: c) (simp_all add: crc_byte_serial)
  then show ?thesis by (simp add: ash_crc_def)
qed


text \<open>The receiver's comparison: the last two bytes, high byte first, are the checksum of the rest.\<close>

definition frame_ok :: "u8 list \<Rightarrow> bool" where
  "frame_ok rx \<longleftrightarrow> ash_crc (take (length rx - 2) rx) =
     push_bit 8 (ucast (rx ! (length rx - 2))) OR ucast (rx ! (length rx - 1))"

lemma frame_ok_append:
  "frame_ok (f @ [a, b]) \<longleftrightarrow> ash_crc f = push_bit 8 (ucast a) OR ucast b"
  by (simp add: frame_ok_def nth_append)

lemma length_crc_tail [simp]: "length (crc_tail f) = 2"
  by (simp add: crc_tail_def)

lemma frame_ok_crc_tail: "frame_ok (f @ crc_tail g) \<longleftrightarrow> ash_crc f = ash_crc g"
  by (simp only: crc_tail_def frame_ok_append crc_tail_value)


section \<open>Stuffing facts\<close>

lemma reserved_unstuff: "reserved c \<Longrightarrow> \<not> reserved (c XOR 0x20)"
  by (auto simp: reserved_def)

lemma stuff_append: "stuff (xs @ ys) = stuff xs @ stuff ys"
  by (induction xs) auto

lemma stuff_reserved: "c \<in> set (stuff xs) \<Longrightarrow> reserved c \<Longrightarrow> c = ASH_ESC"
  by (induction xs) (auto split: if_splits dest: reserved_unstuff)

lemma length_stuff: "length xs \<le> length (stuff xs) \<and> length (stuff xs) \<le> 2 * length xs"
  by (induction xs) auto

lemma length_ash_encode: "length (ash_encode f) \<le> 2 * (length f + 2) + 1"
  using length_stuff [of "f @ crc_tail f"] by (simp add: ash_encode_def)


section \<open>Writing to a socket\<close>

fun willing :: "write_res \<Rightarrow> bool" where
  "willing (Wrote n) = (0 < n)"
| "willing WIntr = True"
| "willing WErr = False"

lemma write_loop_willing:
  "list_all willing ws \<Longrightarrow> write_loop ws buf = (ok, cs, ws') \<Longrightarrow>
   ok \<and> concat cs = buf \<and> list_all willing ws'"
  by (induction ws buf arbitrary: ok cs ws' rule: write_loop.induct) (auto split: prod.splits if_splits)

lemma write_loop_prefix:
  "write_loop ws buf = (ok, cs, ws') \<Longrightarrow> \<exists>rest. buf = concat cs @ rest \<and> (ok \<longleftrightarrow> rest = [])"
proof (induction ws buf arbitrary: ok cs ws' rule: write_loop.induct)
  case (5 n ws v va)
  show ?case
  proof (cases "n = 0")
    case False
    obtain ok1 cs1 ws1 where w: "write_loop ws (drop n (v # va)) = (ok1, cs1, ws1)"
      by (cases "write_loop ws (drop n (v # va))") auto
    from "5.IH" [OF False w] obtain rest where
      "drop n (v # va) = concat cs1 @ rest" "ok1 \<longleftrightarrow> rest = []" by blast
    moreover have "v # va = take n (v # va) @ drop n (v # va)" by simp
    ultimately show ?thesis using 5 w False by (auto simp del: append_take_drop_id)
  qed (use 5 in auto)
qed auto

text \<open>The bytes a client has been sent.\<close>

fun sent_to :: "int \<Rightarrow> event list \<Rightarrow> u8 list" where
  "sent_to fd [] = []"
| "sent_to fd (TcpSend f bs # es) = (if f = fd then bs else []) @ sent_to fd es"
| "sent_to fd (e # es) = sent_to fd es"

lemma sent_to_append [simp]: "sent_to fd (a @ b) = sent_to fd a @ sent_to fd b"
  by (induction fd a rule: sent_to.induct) simp_all

lemma sent_to_sends [simp]: "sent_to fd (map (TcpSend fd) cs) = concat cs"
  by (induction cs) simp_all

lemma sent_to_radio: "list_all radio_event ev \<Longrightarrow> sent_to fd ev = []"
  by (induction fd ev rule: sent_to.induct) simp_all

lemma radio_sent_to: "radio s t \<Longrightarrow> sent_to fd (trace t) = sent_to fd (trace s)"
  by (auto simp: radio_def sent_to_radio)

text \<open>\<open>sends s t\<close>: between \<open>s\<close> and \<open>t\<close> bytes went to clients, nothing else happened.\<close>

fun send_event :: "event \<Rightarrow> bool" where
  "send_event (TcpSend fd bs) = True"
| "send_event e = False"

definition sends :: "sys \<Rightarrow> sys \<Rightarrow> bool" where
  "sends s t \<longleftrightarrow> t\<lparr>writes := [], trace := []\<rparr> = s\<lparr>writes := [], trace := []\<rparr> \<and>
     (\<exists>ev. trace t = trace s @ ev \<and> list_all send_event ev)"

lemma sends_trans: "sends s t \<Longrightarrow> sends t u \<Longrightarrow> sends s u"
  by (fastforce simp: sends_def)

interpretation sends: frame_rel sends
  by unfold_locales (simp add: sends_def, rule sends_trans)

lemma sends_write_all: "keeps sends (write_all fd buf)"
proof -
  have "list_all send_event (map (TcpSend fd) cs)" for cs by (induction cs) simp_all
  then show ?thesis by (auto simp: keeps_def sends_def write_all_def split: prod.splits)
qed

lemma sends_ash_send: "keeps sends (ash_send b f)"
  unfolding ash_send_def by (intro keeps_if sends.keeps_return sends_write_all)

lemma sends_same: "sends s t \<Longrightarrow> cfg t = cfg s \<and> kfail t = kfail s \<and> miso t = miso s \<and>
    levels t = levels s \<and> edges t = edges s \<and> cs_follows t = cs_follows s"
  unfolding sends_def by (cases s; cases t) simp

lemma sends_boot: "keeps sends m \<Longrightarrow> keeps (boots_app p) m"
proof -
  have "boot_ok w r True ev \<and> level_after f True ev" if "list_all send_event ev" for w r f ev
    using that by (induction ev) (auto elim!: send_event.elims)
  then show "keeps sends m \<Longrightarrow> keeps (boots_app p) m"
    by (fastforce simp: keeps_def sends_def boots_app_def)
qed

text \<open>What the client reads when its socket takes everything offered, in pieces or at once.\<close>

lemma write_all_willing:
  assumes "list_all willing (writes s)" and "write_all fd buf s = Some (r, t)"
  shows "r = 0 \<and> sent_to fd (trace t) = sent_to fd (trace s) @ buf \<and> list_all willing (writes t)"
  using assms by (cases "write_loop (writes s) buf")
    (auto simp: write_all_def dest!: write_loop_willing [OF assms(1)])

lemma ash_send_willing:
  assumes "list_all willing (writes s)" and "0 \<le> b_cli b" and "length frame \<le> ASH_MAX_FRAME"
    and "ash_send b frame s = Some (r, t)"
  shows "r = 0 \<and> sent_to (b_cli b) (trace t) = sent_to (b_cli b) (trace s) @ ash_encode frame \<and>
     list_all willing (writes t)"
  using assms write_all_willing [OF assms(1)] by (simp add: ash_send_def)

lemma ash_send_returns: "\<exists>r t. ash_send b frame s = Some (r, t)"
  by (auto simp: ash_send_def write_all_def split: prod.splits)


section \<open>Retransmission\<close>

lemma retransmit_slots_enough:
  assumes "n < 8" and "frm < 8"
  shows "retransmit_slots 8 n frm =
    Some (map (\<lambda>i. (n + of_nat i) AND 7) [0..<unat ((frm - n) AND 7)])"
proof -
  have "\<forall>n \<in> set (map of_nat [0..<8]). \<forall>frm \<in> set (map of_nat [0..<8]). retransmit_slots 8 n frm =
    Some (map (\<lambda>i. (n + of_nat i) AND 7) [0..<unat ((frm - n) AND 7 :: u8)])"
    by code_simp
  moreover have "x \<in> set (map of_nat [0..<8])" if "x < 8" for x :: u8
    using that by (auto simp: word_less_nat_alt intro!: image_eqI [of _ _ "unat x"])
  ultimately show ?thesis using assms by blast
qed

lemma sends_resend_slot: "keeps sends (resend_slot b n)"
  unfolding resend_slot_def
  by (cases "b_sent b ! unat (n AND 7)") (simp_all add: sends.keeps_return sends_ash_send)

lemma sends_resend: "keeps sends (resend b ns)"
  by (induction ns) (simp_all add: sends.keeps_return sends.keeps_bind sends_resend_slot)

lemma resend_returns: "\<exists>t. resend b ns s = Some ((), t)"
proof (induction ns arbitrary: s)
  case (Cons n ns)
  have "\<exists>r t. resend_slot b n s = Some (r, t)"
    by (cases "b_sent b ! unat (n AND 7)") (simp_all add: resend_slot_def ash_send_returns)
  then obtain r t where "resend_slot b n s = Some (r, t)" by blast
  with Cons [of t] show ?case by simp
qed simp

text \<open>What a retransmission puts on the wire: the slots in order, each with the reTx bit.\<close>

fun resent :: "bridge \<Rightarrow> u8 list \<Rightarrow> u8 list" where
  "resent b [] = []"
| "resent b (n # ns) = (case b_sent b ! unat (n AND 7) of
     [] \<Rightarrow> [] | c # body \<Rightarrow> ash_encode ((c OR 8) # body)) @ resent b ns"

lemma resend_willing:
  assumes "list_all willing (writes s)" and "0 \<le> b_cli b" and "length (b_sent b) = 8"
    and "\<forall>x \<in> set (b_sent b). length x \<le> ASH_MAX_FRAME"
    and "resend b ns s = Some (r, t)"
  shows "sent_to (b_cli b) (trace t) = sent_to (b_cli b) (trace s) @ resent b ns \<and>
     list_all willing (writes t)"
  using assms(1,5)
proof (induction ns arbitrary: s)
  case (Cons n ns)
  have len: "length (b_sent b ! unat (n AND 7)) \<le> ASH_MAX_FRAME"
    using assms(3,4) nth_mem [of "unat (n AND 7)" "b_sent b"] by simp
  show ?case
  proof (cases "b_sent b ! unat (n AND 7)")
    case Nil with Cons show ?thesis by (simp add: resend_slot_def)
  next
    case c: (Cons c body)
    with Cons.prems(2) obtain q s1 where 1: "ash_send b ((c OR 8) # body) s = Some (q, s1)"
      and 2: "resend b ns s1 = Some (r, t)" by (auto simp: Option.bind_eq_Some_conv resend_slot_def)
    from ash_send_willing [OF Cons.prems(1) assms(2) _ 1] len c Cons.IH [OF _ 2] show ?thesis
      by (simp add: c)
  qed
qed simp


section \<open>Properties of the framing\<close>

text \<open>
  C39: A frame on the wire fits the buffer \<open>ash_send\<close> assembles it in, ends with the one flag
  in it, and holds no other control character but the escape.
\<close>

theorem ash_encode_wire:
  assumes "length f \<le> ASH_MAX_FRAME"
  shows "length (ash_encode f) \<le> ASH_MAX_FRAME * 2 + 8 \<and>
     (\<exists>body. ash_encode f = body @ [ASH_FLAG] \<and> (\<forall>c \<in> set body. reserved c \<longrightarrow> c = ASH_ESC))"
  using assms length_ash_encode [of f] stuff_reserved [of _ "f @ crc_tail f"]
  by (auto simp: ash_encode_def)

theorem ash_encode_wire_witness:
  "length (ash_encode [ASH_CTRL_RSTACK, 0x02, ASH_RESET_SOFTWARE]) \<le> 288"
  using ash_encode_wire [of "[ASH_CTRL_RSTACK, 0x02, ASH_RESET_SOFTWARE]"] by simp

text \<open>
  C31: The byte-wise checksum is the textbook one: CRC-16/CCITT as a shift register that
  takes the message's bits one by one, most significant first.
\<close>

theorem ash_crc_bitwise: "ash_crc d = foldl crc_serial 0xFFFF (concat (map byte_bits d))"
  by (rule ash_crc_serial)

text \<open>
  The checksum tells apart any two messages that differ only in two neighbouring bytes:
  every burst of up to 16 bits within them, of one byte or of two, is detected.
\<close>

theorem ash_crc_detects_burst:
  assumes "(a, b) \<noteq> (c, d)"
  shows "ash_crc (u @ a # b # v) \<noteq> ash_crc (u @ c # d # v)"
  using assms crc.pair_burst by (auto simp: ash_crc_def)

theorem ash_crc_detects_burst_witness: "ash_crc [0x11, 0x22, 0x33] \<noteq> ash_crc [0x11, 0x2A, 0xB3]"
  using ash_crc_detects_burst [of "0x22" "0x33" "0x2A" "0xB3" "[0x11]" "[]"] by simp

text \<open>
  \<open>write_all\<close> sends a prefix of the buffer, in order, and returns 0 exactly when that is
  all of it, however the kernel splits, interrupts or refuses the writes; it always returns.
\<close>

theorem write_all_prefix:
  "\<exists>r t done rest. write_all fd buf s = Some (r, t) \<and> buf = done @ rest \<and>
     sent_to fd (trace t) = sent_to fd (trace s) @ done \<and> (r = 0 \<longleftrightarrow> rest = [])"
proof -
  obtain ok cs ws where w: "write_loop (writes s) buf = (ok, cs, ws)"
    by (cases "write_loop (writes s) buf") auto
  obtain rest where "buf = concat cs @ rest" "ok \<longleftrightarrow> rest = []" using write_loop_prefix [OF w] by blast
  then show ?thesis using w by (auto simp: write_all_def)
qed

text \<open>
  C24: A NAK resends, in order and with the retransmit bit, exactly the unacknowledged frames
  from the one asked for up to the last one sent. The loop over the frame numbers modulo 8
  always ends.
\<close>

theorem ash_retransmit_window:
  assumes "n < 8" and "b_frm b < 8" and "length (b_sent b) = ASH_WINDOW"
    and "\<forall>x \<in> set (b_sent b). length x \<le> ASH_MAX_FRAME"
    and "list_all willing (writes s)" and "0 \<le> b_cli b"
  shows "\<exists>t. ash_retransmit b n s = Some ((), t) \<and>
     sent_to (b_cli b) (trace t) = sent_to (b_cli b) (trace s) @
       resent b (map (\<lambda>i. (n + of_nat i) AND 7) [0..<unat ((b_frm b - n) AND 7)])"
proof -
  let ?ns = "map (\<lambda>i. (n + of_nat i) AND 7) [0..<unat ((b_frm b - n) AND 7)]"
  obtain t where "resend b ?ns s = Some ((), t)" using resend_returns by blast
  with resend_willing [OF assms(5,6,3,4) this] retransmit_slots_enough [OF assms(1,2)] show ?thesis
    by (simp add: ash_retransmit_def)
qed

definition sample_bridge :: bridge where
  "sample_bridge = \<lparr>b_spi = 9, b_p = sample_pins, b_srv = 10, b_cli = 11, b_ready = True,
     b_negotiated = True, b_frm = 1, b_ack = 0, b_cbseq = 0, b_ver = 4, b_rx = [], b_esc = False,
     b_sent = [[], [], [], [], [], [], [], [0x70, 0x42]]\<rparr>"

theorem ash_retransmit_window_witness:
  "\<exists>t. ash_retransmit sample_bridge 7 sys0 = Some ((), t) \<and>
     sent_to 11 (trace t) = ash_encode [0x78, 0x42]"
proof -
  have e: "map (\<lambda>i. (7 + of_nat i) AND 7) [0..<unat ((b_frm sample_bridge - 7) AND 7)] = [7, 0 :: u8]"
    by (simp add: sample_bridge_def upt_rec)
  have r: "resent sample_bridge [7, 0] = ash_encode [0x78, 0x42]" by (simp add: sample_bridge_def)
  show ?thesis
    using ash_retransmit_window [of 7 sample_bridge sys0, unfolded e r]
    by (simp add: sample_bridge_def sys0_def)
qed
end
