(* ===== verification/Bridge.thy ===== *)
theory Bridge
  imports Ash
begin

text \<open>
  The TCP bridge (second half of bridge.c): relaying EZSP frames, collecting callbacks, the
  handling of one ASH frame, the byte receiver, and the rounds of the main loop of
  \<open>cmd_bridge\<close>. A host stack on the other end of the socket drives the radio through it.
\<close>

unbundle bit_operations_syntax

section \<open>Relaying EZSP frames\<close>

abbreviation EZSP_VERSION :: u8 where "EZSP_VERSION \<equiv> 0x00"
abbreviation EZSP_CALLBACK :: u8 where "EZSP_CALLBACK \<equiv> 0x06"
abbreviation EZSP_NO_CALLBACKS :: u8 where "EZSP_NO_CALLBACKS \<equiv> 0x07"

definition spi_frame :: "u8 list \<Rightarrow> u8 list" where
  \<comment> \<open>an EZSP frame as it goes over SPI\<close>
  "spi_frame inp = SPI_CMD_EZSP_FRAME # of_nat (length inp) # inp @ [SPI_FRAME_TERMINATOR]"

definition relay_payload :: "nat \<Rightarrow> u8 list \<Rightarrow> u8 list" where
  "relay_payload outmax rx = take (min (unat (rx ! 1)) outmax) (drop 2 rx)"

text \<open>The reply's bytes, \<open>None\<close> for the code's \<open>-1\<close>.\<close>

definition ezsp_relay :: "int \<Rightarrow> pins \<Rightarrow> u8 list \<Rightarrow> nat \<Rightarrow> (sys, u8 list option) cmd" where
  "ezsp_relay spi p inp outmax s =
     (if inp = [] \<or> length inp > 255 \<or> length inp + 3 > ASH_MAX_FRAME + 8 then Some (None, s)
      else do {
        ((cls, rx), s) \<leftarrow> do_cmd spi p (spi_frame inp) 260 True s;
        Some (if cls \<noteq> RSP_EZSP then None else Some (relay_payload outmax rx), s)
      })"

text \<open>Header length and offset of the frame id for an EZSP version.\<close>

definition ezsp_layout :: "int \<Rightarrow> nat \<times> nat" where
  "ezsp_layout ver = (if ver \<ge> 8 then (5, 3) else if ver \<ge> 5 then (5, 4) else (3, 2))"

definition callback_request :: "int \<Rightarrow> u8 \<Rightarrow> u8 list" where
  "callback_request ver sq =
     (if ver \<ge> 8 then [sq, 0x00, 0x01, EZSP_CALLBACK, 0x00]
      else if ver \<ge> 5 then [sq, 0x00, 0xFF, 0x00, EZSP_CALLBACK]
      else [sq, 0x00, EZSP_CALLBACK])"

text \<open>What one poll of the queue yields: \<open>[]\<close> where the code returns 0.\<close>

definition callback_frame :: "int \<Rightarrow> u8 list option \<Rightarrow> u8 list" where
  "callback_frame ver r = (case r of
      None \<Rightarrow> []
    | Some out \<Rightarrow>
       (let id_off = snd (ezsp_layout ver)
        in if length out \<le> id_off then []
           else if out ! id_off = EZSP_NO_CALLBACKS then []
           else out))"

definition ezsp_relay_callback :: "bridge \<Rightarrow> nat \<Rightarrow> (sys, u8 list \<times> bridge) cmd" where
  "ezsp_relay_callback b outmax s = do {
     let f = callback_request (b_ver b) (b_cbseq b);
     let b = b\<lparr>b_cbseq := b_cbseq b + 1\<rparr>;
     (r, s) \<leftarrow> ezsp_relay (b_spi b) (b_p b) f outmax s;
     Some ((callback_frame (b_ver b) r, b), s)
   }"

fun drain_loop :: "nat \<Rightarrow> bridge \<Rightarrow> (sys, bridge) cmd" where
  "drain_loop 0 b s = Some (b, s)"
| "drain_loop (Suc guard) b s = do {
     (level, s) \<leftarrow> gpio_get (pin_hint (b_p b)) s;
     if level \<noteq> 0 then Some (b, s)
     else do {
       ((frame, b), s) \<leftarrow> ezsp_relay_callback b ASH_MAX_FRAME s;
       if frame = [] then Some (b, s)
       else do {
         (b, s) \<leftarrow> ash_send_data b frame s;
         drain_loop guard b s
       }
     }
   }"

definition bridge_drain_callbacks :: "bridge \<Rightarrow> (sys, bridge) cmd" where
  "bridge_drain_callbacks b s =
     (if b_cli b < 0 \<or> \<not> b_ready b \<or> \<not> b_negotiated b \<or> pin_hint (b_p b) < 0
      then Some (b, s)
      else drain_loop 32 b s)"


section \<open>One ASH frame\<close>

definition bridge_reset :: "bridge \<Rightarrow> (sys, bridge) cmd" where
  "bridge_reset b s = do {
     (_, s) \<leftarrow> ncp_reset (b_p b) s;
     let b = b\<lparr>b_frm := 0, b_ack := 0, b_ver := 4, b_sent := replicate ASH_WINDOW []\<rparr>;
     (_, s) \<leftarrow> ash_send b [ASH_CTRL_RSTACK, 0x02, ASH_RESET_SOFTWARE] s;
     Some (b\<lparr>b_ready := True, b_negotiated := False\<rparr>, s)
   }"

text \<open>The version the two ends agreed on, if this was a version command and its reply.\<close>

definition adopt_version :: "bridge \<Rightarrow> u8 list \<Rightarrow> u8 list \<Rightarrow> bridge" where
  "adopt_version b ezsp resp =
     (let (hdr, id_off) = ezsp_layout (b_ver b)
      in if length ezsp > id_off \<and> ezsp ! id_off = EZSP_VERSION \<and> length resp > hdr
         then (let neg = int (unat (resp ! hdr))
               in if 4 \<le> neg \<and> neg \<le> 13 then b\<lparr>b_ver := neg, b_negotiated := True\<rparr> else b)
         else b)"

text \<open>The last part of \<open>bridge_handle_frame\<close>: an EZSP frame of acceptable length.\<close>

definition bridge_data :: "bridge \<Rightarrow> u8 \<Rightarrow> u8 list \<Rightarrow> (sys, bridge) cmd" where
  "bridge_data b ctrl ezsp s = do {
     let b = b\<lparr>b_ack := ((drop_bit 4 ctrl AND 0x07) + 1) AND 0x07\<rparr>;
     (_, s) \<leftarrow> ash_send_ack b s;
     (r, s) \<leftarrow> ezsp_relay (b_spi b) (b_p b) ezsp ASH_MAX_FRAME s;
     case r of
       None \<Rightarrow> Some (b, s)
     | Some resp \<Rightarrow>
         if resp = [] then Some (b, s)
         else do {
           (b, s) \<leftarrow> ash_send_data (adopt_version b ezsp resp) resp s;
           bridge_drain_callbacks b s
         }
   }"

definition bridge_handle_frame :: "bridge \<Rightarrow> u8 list \<Rightarrow> (sys, bridge) cmd" where
  "bridge_handle_frame b f s =
     (let ctrl = hd f in
      if ctrl = ASH_CTRL_RST then bridge_reset b s
      else if ctrl AND 0xE0 = 0x80 then Some (b, s)
      else if ctrl AND 0xE0 = 0xA0 then do {
        (_, s) \<leftarrow> ash_retransmit b (ctrl AND 0x07) s;
        Some (b, s)
      }
      else if ctrl AND 0x80 \<noteq> 0 then Some (b, s)
      else if \<not> b_ready b then Some (b, s)
      else if tl f = [] \<or> length (tl f) > ASH_MAX_FRAME then Some (b, s)
      else bridge_data b ctrl (ash_mask (tl f)) s)"


section \<open>The receiver\<close>

definition rx_byte :: "bridge \<Rightarrow> u8 \<Rightarrow> bridge" where
  \<comment> \<open>the end of the loop body: a byte that is not a control character\<close>
  "rx_byte b c =
     (let c = (if b_esc b then c XOR 0x20 else c)
      in b\<lparr>b_esc := False,
           b_rx := (if length (b_rx b) < ASH_MAX_FRAME * 2 then b_rx b @ [c] else [])\<rparr>)"

definition rx_flag :: "bridge \<Rightarrow> (sys, bridge) cmd" where
  "rx_flag b s = do {
     (b, s) \<leftarrow> (if 3 \<le> length (b_rx b) \<and> frame_ok (b_rx b)
               then bridge_handle_frame b (take (length (b_rx b) - 2) (b_rx b)) s
               else Some (b, s));
     Some (b\<lparr>b_rx := [], b_esc := False\<rparr>, s)
   }"

fun bridge_feed :: "bridge \<Rightarrow> u8 list \<Rightarrow> (sys, bridge) cmd" where
  "bridge_feed b [] s = Some (b, s)"
| "bridge_feed b (c # cs) s =
     (if c = ASH_XON \<or> c = ASH_XOFF then bridge_feed b cs s
      else if c = ASH_CANCEL then bridge_feed (b\<lparr>b_rx := [], b_esc := False\<rparr>) cs s
      else if c = ASH_SUB then bridge_feed (b\<lparr>b_rx := [], b_esc := True\<rparr>) cs s
      else if c = ASH_ESC then bridge_feed (b\<lparr>b_esc := True\<rparr>) cs s
      else if c = ASH_FLAG then do { (b, s) \<leftarrow> rx_flag b s; bridge_feed b cs s }
      else bridge_feed (rx_byte b c) cs s)"


section \<open>The main loop\<close>

text \<open>
  What one round of the loop learns from the kernel. \<open>Ready srv hup inp acc rd\<close>: poll
  returned, with the listening socket readable, with POLLERR or POLLHUP on the client,
  with the client readable; \<open>acc\<close> is what \<open>accept\<close> would return, \<open>rd\<close> what the \<open>read\<close> of
  the client would. An edge read from nHOST_INT in a round is dropped and changes nothing.
\<close>

datatype read_res = Got "u8 list" | ReadAgain | ReadErr

datatype poll_res = PollSignal | PollFails | Ready bool bool bool int read_res

definition bridge_drop_client :: "bridge \<Rightarrow> (sys, bridge) cmd" where
  "bridge_drop_client b s =
     (if b_cli b < 0 then Some (b, s)
      else Some (b\<lparr>b_cli := -1, b_rx := [], b_esc := False\<rparr>, emit (CloseFd (b_cli b)) s))"

definition bridge_accept :: "bridge \<Rightarrow> int \<Rightarrow> (sys, bridge) cmd" where
  "bridge_accept b fd s =
     (if fd \<ge> 0 then do {
        (b, s) \<leftarrow> (if b_cli b \<ge> 0 then bridge_drop_client b s else Some (b, s));
        Some (b\<lparr>b_cli := fd, b_ready := False, b_negotiated := False, b_rx := [], b_esc := False,
                b_frm := 0, b_ack := 0, b_ver := 4, b_sent := replicate ASH_WINDOW []\<rparr>, s)
      }
      else Some (b, s))"

definition bridge_read :: "bridge \<Rightarrow> read_res \<Rightarrow> (sys, bridge) cmd" where
  "bridge_read b rd s = (case rd of
      Got bs \<Rightarrow> if bs \<noteq> [] then bridge_feed b bs s else bridge_drop_client b s
    | ReadAgain \<Rightarrow> Some (b, s)
    | ReadErr \<Rightarrow> bridge_drop_client b s)"

text \<open>
  One round; the client's entry in the poll set, and its events, are those of the client
  that was connected when the round began (\<open>had\<close>).
\<close>

definition bridge_events :: "bool \<Rightarrow> bridge \<Rightarrow> poll_res \<Rightarrow> (sys, bridge) cmd" where
  "bridge_events had b a s = (case a of
      PollSignal \<Rightarrow> Some (b, s)
    | PollFails \<Rightarrow> None
    | Ready srv hup inp acc rd \<Rightarrow> do {
        (b, s) \<leftarrow> (if srv then bridge_accept b acc s else Some (b, s));
        if had \<and> hup then bridge_drop_client b s
        else do {
          (b, s) \<leftarrow> (if had \<and> inp then bridge_read b rd s else Some (b, s));
          bridge_drain_callbacks b s
        }
      })"

definition bridge_round :: "bridge \<Rightarrow> poll_res \<Rightarrow> (sys, bridge) cmd" where
  "bridge_round b a s = do {
     (_, s) \<leftarrow> (if b_cli b \<ge> 0 \<and> pin_hint (b_p b) \<ge> 0
               then gpio_get (pin_hint (b_p b)) s else Some (0, s));
     bridge_events (b_cli b \<ge> 0) b a s
   }"

text \<open>
  \<open>cmd_bridge\<close> up to the loop. The listening socket is the kernel's (\<open>srv\<close>; \<open>bridge_listen\<close>
  ends the process where it cannot be had).
\<close>

definition cmd_bridge_start :: "int option \<Rightarrow> (sys, bridge) cmd" where
  "cmd_bridge_start srv s = do {
     (p, s) \<leftarrow> pins_open s;
     (spi, s) \<leftarrow> spi_open s;
     fd \<leftarrow> srv;
     Some (\<lparr>b_spi = spi, b_p = p, b_srv = fd, b_cli = -1, b_ready = False, b_negotiated = False,
            b_frm = 0, b_ack = 0, b_cbseq = 0, b_ver = 4, b_rx = [], b_esc = False,
            b_sent = replicate ASH_WINDOW []\<rparr>, s)
   }"

text \<open>The states the loop goes through from a state at its head.\<close>

inductive bridge_reach :: "bridge \<times> sys \<Rightarrow> bridge \<times> sys \<Rightarrow> bool" where
  start: "bridge_reach c c"
| round: "bridge_reach c (b, s) \<Longrightarrow> bridge_round b a s = Some (b', s') \<Longrightarrow> bridge_reach c (b', s')"

section \<open>Invariant of the bridge\<close>

text \<open>
  Slot \<open>i\<close> of the window is free or holds a DATA frame numbered \<open>i\<close>, first sent (its reTx
  bit is clear), that fits the frame limit.
\<close>

definition slot_ok :: "nat \<Rightarrow> u8 list \<Rightarrow> bool" where
  "slot_ok i body \<longleftrightarrow> body = [] \<or>
     length body \<le> ASH_MAX_FRAME \<and> hd body AND 0xF8 = push_bit 4 (of_nat i)"

definition bridge_inv :: "pins \<Rightarrow> bridge \<Rightarrow> bool" where
  "bridge_inv p b \<longleftrightarrow> b_p b = p \<and> b_frm b < 8 \<and> b_ack b < 8 \<and> 4 \<le> b_ver b \<and> b_ver b \<le> 13 \<and>
     length (b_rx b) \<le> ASH_MAX_FRAME * 2 \<and> length (b_sent b) = ASH_WINDOW \<and>
     (\<forall>i < ASH_WINDOW. slot_ok i (b_sent b ! i)) \<and>
     (\<not> b_ready b \<longrightarrow> \<not> b_negotiated b \<and> b_sent b = replicate ASH_WINDOW [])"

lemma and_7_less: "x AND 7 < (8 :: u8)"
  using unat_and_7_less [of x] by (simp add: word_less_nat_alt)

lemma small_byte: "x < 8 \<Longrightarrow> x AND 7 = (x :: u8)"
  by (simp add: and_7_eq word_unat_eq_iff unat_mod word_less_nat_alt)

lemma data_ctrl_slot: "data_ctrl b AND 0xF8 = push_bit 4 (of_nat (unat (b_frm b AND 7)))"
proof -
  have "(push_bit 4 x AND 0xF8 :: u8) = push_bit 4 x" if "x < 8" for x
  proof -
    have "\<forall>x \<in> set (map of_nat [0..<8]). (push_bit 4 x AND 0xF8 :: u8) = push_bit 4 x" by code_simp
    moreover have "x \<in> set (map of_nat [0..<8])"
      using that by (auto simp: word_less_nat_alt intro!: image_eqI [of _ _ "unat x"])
    ultimately show ?thesis by blast
  qed
  then show ?thesis
    using and_7_less by (simp add: data_ctrl_def word_ao_dist and.assoc)
qed

lemma inv_rx: "bridge_inv p b \<Longrightarrow> length xs \<le> ASH_MAX_FRAME * 2 \<Longrightarrow> bridge_inv p (b\<lparr>b_rx := xs\<rparr>)"
  by (simp add: bridge_inv_def)

lemma inv_esc: "bridge_inv p (b\<lparr>b_esc := e\<rparr>) \<longleftrightarrow> bridge_inv p b"
  by (simp add: bridge_inv_def)

lemma inv_reset_state: "bridge_inv p b \<Longrightarrow> bridge_inv p (b\<lparr>b_frm := 0, b_ack := 0, b_ver := 4,
    b_sent := replicate ASH_WINDOW [], b_ready := r, b_negotiated := False\<rparr>)"
  by (simp add: bridge_inv_def slot_ok_def)

lemma inv_ash_send_data:
  assumes "bridge_inv p b" and "b_ready b"
  shows "gives (\<lambda>b'. bridge_inv p b' \<and> b_ready b') (ash_send_data b ezsp)"
proof -
  have "bridge_inv p (b\<lparr>b_sent := (b_sent b)[unat (b_frm b AND 7) := data_ctrl b # ash_mask ezsp],
      b_frm := (b_frm b + 1) AND 7\<rparr>)" if "length ezsp + 1 \<le> ASH_MAX_FRAME"
    using assms that by (auto simp: bridge_inv_def and_7_less slot_ok_def nth_list_update data_ctrl_slot)
  then show ?thesis
    using assms unfolding ash_send_data_def Let_def by (auto intro!: gives_if gives_return gives_then)
qed

lemma inv_relay_callback:
  "bridge_inv p b \<Longrightarrow> b_ready b \<Longrightarrow>
   gives (\<lambda>(f, b'). bridge_inv p b' \<and> b_ready b') (ezsp_relay_callback b m)"
  unfolding ezsp_relay_callback_def Let_def
  by (intro gives_then gives_return) (simp add: bridge_inv_def)

lemma inv_drain_loop:
  "bridge_inv p b \<Longrightarrow> b_ready b \<Longrightarrow> gives (\<lambda>b'. bridge_inv p b' \<and> b_ready b') (drain_loop k b)"
proof (induction k arbitrary: b)
  case (Suc k)
  have "gives (\<lambda>b'. bridge_inv p b' \<and> b_ready b') (\<lambda>s. do { (b, s) \<leftarrow> ash_send_data b f s; drain_loop k b s })"
    if "bridge_inv p b" "b_ready b" for b f
    using that by (intro gives_bind [OF inv_ash_send_data] Suc.IH) auto
  with Suc.prems show ?case
    unfolding drain_loop.simps
    by (intro gives_then gives_if gives_return gives_bind [OF inv_relay_callback]) 
      (auto intro: gives_if gives_return)
qed (simp add: gives_def)

lemma inv_drain_callbacks:
  assumes "bridge_inv p b"
  shows "gives (\<lambda>b'. bridge_inv p b' \<and> b_ready b' = b_ready b) (bridge_drain_callbacks b)"
  unfolding bridge_drain_callbacks_def
proof (rule gives_if)
  assume "\<not> (b_cli b < 0 \<or> \<not> b_ready b \<or> \<not> b_negotiated b \<or> pin_hint (b_p b) < 0)"
  then show "gives (\<lambda>b'. bridge_inv p b' \<and> b_ready b' = b_ready b) (drain_loop 32 b)"
    using inv_drain_loop [OF assms] by auto
qed (use assms in \<open>auto intro: gives_return\<close>)

lemma inv_adopt_version:
  "bridge_inv p b \<Longrightarrow> b_ready b \<Longrightarrow> bridge_inv p (adopt_version b e r) \<and> b_ready (adopt_version b e r)"
  by (auto simp: adopt_version_def Let_def bridge_inv_def split: prod.split)

lemma inv_data:
  assumes "bridge_inv p b" and "b_ready b"
  shows "gives (\<lambda>b'. bridge_inv p b' \<and> b_ready b') (bridge_data b c e)"
proof -
  let ?b = "b\<lparr>b_ack := ((drop_bit 4 c AND 7) + 1) AND 7\<rparr>"
  have b: "bridge_inv p ?b" "b_ready ?b" using assms by (simp_all add: bridge_inv_def and_7_less)
  have d: "gives (\<lambda>b'. bridge_inv p b' \<and> b_ready b') (bridge_drain_callbacks b')"
    if "bridge_inv p b' \<and> b_ready b'" for b'
    using that inv_drain_callbacks [of p b'] by (auto simp: gives_def)
  show ?thesis
    unfolding bridge_data_def Let_def
    by (intro gives_then gives_case_option gives_if gives_return conjI b
        gives_bind [OF inv_ash_send_data] d) (use inv_adopt_version [OF b] in auto)
qed

lemma inv_handle_frame:
  assumes "bridge_inv p b"
  shows "gives (bridge_inv p) (bridge_handle_frame b f)"
proof -
  have r: "gives (bridge_inv p) (bridge_reset b)"
    unfolding bridge_reset_def Let_def
    by (intro gives_then gives_return) (use inv_reset_state [OF assms] in simp)
  have d: "gives (bridge_inv p) (bridge_data b c e)" if "b_ready b" for c e
    using inv_data [OF assms that, of c e] by (auto simp: gives_def)
  show ?thesis
    unfolding bridge_handle_frame_def Let_def
    by (intro gives_if gives_then gives_return assms r d) auto
qed

lemma inv_rx_flag: "bridge_inv p b \<Longrightarrow> gives (bridge_inv p) (rx_flag b)"
  unfolding rx_flag_def
  by (rule gives_bind [where P = "bridge_inv p"])
    (auto intro!: gives_if gives_return inv_handle_frame simp: inv_esc inv_rx)

lemma inv_feed: "bridge_inv p b \<Longrightarrow> gives (bridge_inv p) (bridge_feed b bs)"
proof (induction bs arbitrary: b)
  case (Cons c cs)
  then show ?case
    by (auto intro!: gives_if gives_return gives_bind [OF inv_rx_flag] Cons.IH
        simp: inv_esc inv_rx rx_byte_def Let_def bridge_inv_def)
qed (simp add: gives_def)

lemma inv_drop_client: "bridge_inv p b \<Longrightarrow> gives (bridge_inv p) (bridge_drop_client b)"
  unfolding bridge_drop_client_def gives_def by (auto simp: bridge_inv_def split: if_splits)

lemma inv_accept: "bridge_inv p b \<Longrightarrow> gives (bridge_inv p) (bridge_accept b fd)"
  unfolding bridge_accept_def
  by (intro gives_if gives_return gives_bind [where P = "bridge_inv p"] inv_drop_client)
    (simp_all add: bridge_inv_def slot_ok_def)

lemma inv_read: "bridge_inv p b \<Longrightarrow> gives (bridge_inv p) (bridge_read b rd)"
  unfolding bridge_read_def
  by (cases rd) (auto intro!: gives_return inv_drop_client inv_feed gives_if)

lemma inv_events: "bridge_inv p b \<Longrightarrow> gives (bridge_inv p) (bridge_events had b a)"
proof -
  have d: "gives (bridge_inv p) (bridge_drain_callbacks b)" if "bridge_inv p b" for b
    using inv_drain_callbacks [OF that] by (auto simp: gives_def)
  assume "bridge_inv p b"
  then show ?thesis
    unfolding bridge_events_def
    by (cases a) (auto intro!: gives_return gives_fail gives_if gives_bind [where P = "bridge_inv p"]
      inv_accept inv_drop_client inv_read d)
qed

lemma inv_round: "bridge_inv p b \<Longrightarrow> gives (bridge_inv p) (bridge_round b a)"
  unfolding bridge_round_def by (intro gives_then inv_events)

lemma inv_reach:
  "bridge_reach c d \<Longrightarrow> bridge_inv p (fst c) \<Longrightarrow> bridge_inv p (fst d)"
proof (induction rule: bridge_reach.induct)
  case (round c b s a b' s')
  then show ?case using givesD [OF inv_round] by fastforce
qed


section \<open>The port to the NCP\<close>

text \<open>
  What the relay relies on in the layer below it, as a contract: a port clocks a command
  out and returns the class of the response and the receive buffer. The buffer has the
  size asked for, a response of class EZSP starts it, and a port that shares a process
  with a client's socket leaves the socket alone.
\<close>

locale ncp_port =
  fixes port :: "u8 list \<Rightarrow> nat \<Rightarrow> (sys, rsp_class \<times> u8 list) cmd"
  assumes port_buffer: "port tx n s = Some ((cls, rx), t) \<Longrightarrow> 0 < n \<Longrightarrow>
      length rx = n \<and> (cls = RSP_EZSP \<longrightarrow> rx ! 0 = SPI_CMD_EZSP_FRAME)"
    and port_radio: "keeps radio (port tx n)"
    and port_lives: "lives ioctls_ok (port tx n)"
begin

lemma port_payload:
  assumes "port tx 260 s = Some ((cls, rx), t)"
  shows "length (relay_payload m rx) = min (unat (rx ! 1)) m"
  using port_buffer [OF assms] unat_u8_le [of "rx ! 1"] by (simp add: relay_payload_def)

lemma port_silent_client:
  assumes "port tx n s = Some (r, t)"
  shows "sent_to fd (trace t) = sent_to fd (trace s)" and "writes t = writes s" and "cfg t = cfg s"
  using keepsD [OF port_radio assms] radio_sent_to by (auto simp: radio_def)

lemma port_returns: "kfail s = [] \<Longrightarrow> \<exists>cls rx t. port tx n s = Some ((cls, rx), t) \<and> kfail t = []"
  using port_lives [of tx n] by (fastforce simp: lives_def ioctls_ok_def)

end

interpretation ncp: ncp_port "\<lambda>tx n. do_cmd spi p tx n retry"
  by unfold_locales (use do_cmd_buffer in blast, rule radio_do_cmd, rule lives_do_cmd)

lemma relay_length:
  assumes "ezsp_relay spi p inp m s = Some (Some out, t)"
  shows "length out \<le> m \<and> length out \<le> 255"
proof -
  from assms obtain cls rx where r: "do_cmd spi p (spi_frame inp) 260 True s = Some ((cls, rx), t)"
    and o: "out = relay_payload m rx"
    by (auto simp: ezsp_relay_def Option.bind_eq_Some_conv split: if_splits)
  show ?thesis using ncp.port_payload [OF r, of m] unat_u8_le [of "rx ! 1"] by (simp add: o)
qed


section \<open>The bridge returns and boots only the application\<close>

lemma sends_lives: "keeps sends m \<Longrightarrow> (\<And>s. \<exists>r t. m s = Some (r, t)) \<Longrightarrow> lives ioctls_ok m"
  unfolding lives_def ioctls_ok_def by (metis keepsD sends_same)

lemma sends_ash_send_ack: "keeps sends (ash_send_ack b)"
  unfolding ash_send_ack_def by (intro sends.keeps_bind sends.keeps_return sends_ash_send)

lemma sends_ash_send_data: "keeps sends (ash_send_data b e)"
  unfolding ash_send_data_def Let_def
  by (intro keeps_if sends.keeps_bind sends.keeps_return sends_ash_send)

lemma lives_ash_send [lives_rules]: "lives ioctls_ok (ash_send b f)"
  by (rule sends_lives [OF sends_ash_send ash_send_returns])

lemma lives_ash_send_ack [lives_rules]: "lives ioctls_ok (ash_send_ack b)"
  unfolding ash_send_ack_def by (intro lives_rules)

lemma lives_ash_send_data [lives_rules]: "lives ioctls_ok (ash_send_data b e)"
  unfolding ash_send_data_def Let_def by (intro lives_rules)

lemma lives_resend [lives_rules]: "lives ioctls_ok (resend b ns)"
  by (rule sends_lives [OF sends_resend]) (use resend_returns in blast)

lemma lives_retransmit:
  assumes "n < 8" and "b_frm b < 8" shows "lives ioctls_ok (ash_retransmit b n)"
  unfolding ash_retransmit_def retransmit_slots_enough [OF assms] option.case by (rule lives_resend)

lemma lives_ezsp_relay [lives_rules]: "lives ioctls_ok (ezsp_relay spi p i m)"
  unfolding ezsp_relay_def by (intro lives_rules)

lemma lives_relay_callback [lives_rules]: "lives ioctls_ok (ezsp_relay_callback b m)"
  unfolding ezsp_relay_callback_def Let_def by (intro lives_rules)

lemma lives_drain_loop [lives_rules]: "lives ioctls_ok (drain_loop k b)"
proof (induction k arbitrary: b)
  case (Suc k)
  then show ?case unfolding drain_loop.simps by (intro lives_rules)
qed (simp add: lives_def)

lemma lives_drain_callbacks [lives_rules]: "lives ioctls_ok (bridge_drain_callbacks b)"
  unfolding bridge_drain_callbacks_def by (intro lives_rules)

lemma lives_bridge_reset [lives_rules]: "lives ioctls_ok (bridge_reset b)"
  unfolding bridge_reset_def Let_def by (intro lives_rules)

lemma lives_bridge_data [lives_rules]: "lives ioctls_ok (bridge_data b c e)"
  unfolding bridge_data_def Let_def by (intro lives_rules)

lemma lives_handle_frame: "b_frm b < 8 \<Longrightarrow> lives ioctls_ok (bridge_handle_frame b f)"
  unfolding bridge_handle_frame_def Let_def
  by (intro lives_rules lives_retransmit) (simp_all add: word_less_nat_alt)

text \<open>The same walk for the boot mode of the NCP.\<close>

lemma boot_sends [boot_rules]:
  "keeps (boots_app p) (ash_send b f)" "keeps (boots_app p) (ash_send_ack b)"
  "keeps (boots_app p) (ash_send_data b e)" "keeps (boots_app p) (resend b ns)"
  by (rule sends_boot, rule sends_ash_send sends_ash_send_ack sends_ash_send_data sends_resend)+

lemma boot_retransmit [boot_rules]: "keeps (boots_app p) (ash_retransmit b n)"
  unfolding ash_retransmit_def by (intro boot_seq boot_rules)

lemma boot_gpio_get [boot_rules]: "keeps (boots_app p) (gpio_get fd)"
  by (auto simp: keeps_def dest!: gpio_get_Some intro: boots_app_trace)

lemma boot_ezsp_relay [boot_rules]:
  "pins_distinct p \<Longrightarrow> keeps (boots_app p) (ezsp_relay spi p i m)"
  unfolding ezsp_relay_def by (intro boot_seq boot_rules)

lemma boot_relay_callback [boot_rules]:
  "pins_distinct p \<Longrightarrow> b_p b = p \<Longrightarrow> keeps (boots_app p) (ezsp_relay_callback b m)"
  unfolding ezsp_relay_callback_def Let_def by (intro boot_seq) (simp add: boot_rules)

lemma boot_drain_loop:
  "pins_distinct p \<Longrightarrow> bridge_inv p b \<Longrightarrow> b_ready b \<Longrightarrow> keeps (boots_app p) (drain_loop k b)"
proof (induction k arbitrary: b)
  case (Suc k)
  have p: "b_p b = p" using Suc.prems by (simp add: bridge_inv_def)
  have "keeps (boots_app p) (\<lambda>s. do { (b, s) \<leftarrow> ash_send_data b f s; drain_loop k b s })"
    if "bridge_inv p b" "b_ready b" for b f
    by (rule boot.keeps_bind_gives [OF inv_ash_send_data [OF that] boot_sends(3)]) (use Suc in simp)
  with Suc.prems p show ?case
    unfolding drain_loop.simps
    by (intro boot.keeps_bind boot_gpio_get keeps_if boot.keeps_return
        boot.keeps_bind_gives [OF inv_relay_callback boot_relay_callback])
      (auto intro!: keeps_if boot.keeps_return)
qed (simp add: keeps_def boots_app_trace)

lemma boot_drain_callbacks:
  "pins_distinct p \<Longrightarrow> bridge_inv p b \<Longrightarrow> keeps (boots_app p) (bridge_drain_callbacks b)"
  unfolding bridge_drain_callbacks_def
  by (intro keeps_if boot.keeps_return boot_drain_loop) auto

lemma boot_data:
  assumes "pins_distinct p" and "bridge_inv p b" and "b_ready b"
  shows "keeps (boots_app p) (bridge_data b c e)"
proof -
  let ?b = "b\<lparr>b_ack := ((drop_bit 4 c AND 7) + 1) AND 7\<rparr>"
  have b: "bridge_inv p ?b" "b_ready ?b" "b_p b = p" using assms by (simp_all add: bridge_inv_def and_7_less)
  note s = inv_ash_send_data [OF conjunct1 conjunct2, OF inv_adopt_version inv_adopt_version, OF b(1,2) b(1,2)]
  have d: "keeps (boots_app p) (\<lambda>s. do { (b, s) \<leftarrow> ash_send_data (adopt_version ?b e r) r s; bridge_drain_callbacks b s })" for r
    by (rule boot.keeps_bind_gives [OF s boot_sends(3)]) (use assms(1) boot_drain_callbacks in blast)
  show ?thesis
    unfolding bridge_data_def Let_def
    by (intro boot_seq boot_rules d) (simp add: b boot_ezsp_relay assms)
qed

lemma boot_handle_frame:
  assumes "pins_distinct p" and "bridge_inv p b"
  shows "keeps (boots_app p) (bridge_handle_frame b f)"
proof -
  have p: "b_p b = p" using assms by (simp add: bridge_inv_def)
  have r: "keeps (boots_app p) (bridge_reset b)"
    unfolding bridge_reset_def Let_def p by (intro boot_seq boot_rules assms)
  show ?thesis
    unfolding bridge_handle_frame_def Let_def
    by (intro boot_seq r boot_retransmit boot_data assms) simp
qed

lemma boot_rx_flag: "pins_distinct p \<Longrightarrow> bridge_inv p b \<Longrightarrow> keeps (boots_app p) (rx_flag b)"
  unfolding rx_flag_def by (intro boot_seq boot_handle_frame)

lemma boot_feed: "pins_distinct p \<Longrightarrow> bridge_inv p b \<Longrightarrow> keeps (boots_app p) (bridge_feed b bs)"
proof (induction bs arbitrary: b)
  case (Cons c cs)
  have f: "keeps (boots_app p) (\<lambda>s. do { (b, s) \<leftarrow> rx_flag b s; bridge_feed b cs s })"
    by (rule boot.keeps_bind_gives [OF inv_rx_flag boot_rx_flag]) (use Cons in simp_all)
  show ?case
    unfolding bridge_feed.simps
    by (intro keeps_if f Cons.IH Cons.prems(1)) (use Cons.prems(2) in \<open>simp_all add: bridge_inv_def rx_byte_def Let_def\<close>)
qed (simp add: keeps_def boots_app_trace)

lemma boot_drop_client: "keeps (boots_app p) (bridge_drop_client b)"
  unfolding bridge_drop_client_def by (intro boot_seq boot_rules) simp

lemma boot_accept: "keeps (boots_app p) (bridge_accept b fd)"
  unfolding bridge_accept_def by (intro boot_seq boot_drop_client)

lemma boot_read: "pins_distinct p \<Longrightarrow> bridge_inv p b \<Longrightarrow> keeps (boots_app p) (bridge_read b rd)"
  unfolding bridge_read_def
  by (cases rd) (simp_all add: boot.keeps_return boot_drop_client keeps_if boot_feed)

lemma inv_if: "bridge_inv p b \<Longrightarrow> (c \<Longrightarrow> gives (bridge_inv p) m) \<Longrightarrow>
    gives (bridge_inv p) (\<lambda>s. if c then m s else Some (b, s))"
  by (simp add: gives_if gives_return)

lemma boot_round:
  assumes "pins_distinct p" and "bridge_inv p b"
  shows "keeps (boots_app p) (bridge_round b a)"
proof -
  note rules = keeps_if boot.keeps_return boot_accept boot_drop_client boot_read boot_drain_callbacks
  have rd: "keeps (boots_app p) (\<lambda>s. do { (b, s) \<leftarrow> (if c then bridge_read b rd s else Some (b, s));
      bridge_drain_callbacks b s })" if "bridge_inv p b" for b c rd
    by (rule boot.keeps_bind_gives [where P = "bridge_inv p"])
      (use that assms(1) in \<open>auto intro!: inv_if inv_read rules\<close>)
  have "keeps (boots_app p) (bridge_events h b a)" for h
  proof (cases a)
    case (Ready srv hup inp acc r)
    show ?thesis
      unfolding bridge_events_def Ready poll_res.case
      by (rule boot.keeps_bind_gives [where P = "bridge_inv p"])
        (use assms in \<open>auto intro!: inv_if inv_accept rules rd\<close>)
  qed (simp_all add: keeps_def bridge_events_def boots_app_trace)
  then show ?thesis
    unfolding bridge_round_def by (intro boot_seq boot_gpio_get)
qed

lemma boot_reach:
  "bridge_reach c d \<Longrightarrow> pins_distinct p \<Longrightarrow> bridge_inv p (fst c) \<Longrightarrow> boots_app p (snd c) (snd d)"
proof (induction rule: bridge_reach.induct)
  case (start c)
  then show ?case by (simp add: boot.refl)
next
  case (round c b s a b' s')
  then have "bridge_inv p b" using inv_reach by fastforce
  then have "boots_app p s s'" using keepsD [OF boot_round round.hyps(2)] round.prems by blast
  then show ?case using round.IH round.prems boots_app_trans by fastforce
qed

text \<open>And that a round ends unless \<open>poll\<close> itself fails.\<close>

lemma lives_rx_flag: "bridge_inv p b \<Longrightarrow> lives ioctls_ok (rx_flag b)"
  unfolding rx_flag_def by (intro lives_rules lives_handle_frame) (simp add: bridge_inv_def)

lemma lives_feed: "bridge_inv p b \<Longrightarrow> lives ioctls_ok (bridge_feed b bs)"
proof (induction bs arbitrary: b)
  case (Cons c cs)
  have f: "lives ioctls_ok (\<lambda>s. do { (b, s) \<leftarrow> rx_flag b s; bridge_feed b cs s })"
    by (rule lives_bind_gives [OF inv_rx_flag lives_rx_flag]) (use Cons in simp_all)
  show ?case
    unfolding bridge_feed.simps
    by (intro lives_if f Cons.IH) (use Cons.prems in \<open>simp_all add: bridge_inv_def rx_byte_def Let_def\<close>)
qed (simp add: lives_def)

lemma lives_drop_client [lives_rules]: "lives ioctls_ok (bridge_drop_client b)"
  unfolding bridge_drop_client_def by (intro lives_rules)

lemma lives_accept [lives_rules]: "lives ioctls_ok (bridge_accept b fd)"
  unfolding bridge_accept_def by (intro lives_rules)

lemma lives_bridge_read: "bridge_inv p b \<Longrightarrow> lives ioctls_ok (bridge_read b rd)"
  unfolding bridge_read_def
  by (cases rd) (simp_all add: lives_return lives_drop_client lives_if lives_feed)

lemma lives_round:
  assumes "bridge_inv p b" and "a \<noteq> PollFails"
  shows "lives ioctls_ok (bridge_round b a)"
proof -
  note rules = lives_if lives_return lives_accept lives_drop_client lives_bridge_read lives_drain_callbacks
  have rd: "lives ioctls_ok (\<lambda>s. do { (b, s) \<leftarrow> (if c then bridge_read b rd s else Some (b, s));
      bridge_drain_callbacks b s })" if "bridge_inv p b" for b c rd
    by (rule lives_bind_gives [where P = "bridge_inv p"]) (use that in \<open>auto intro!: inv_if inv_read rules\<close>)
  have "lives ioctls_ok (bridge_events h b a)" for h
  proof (cases a)
    case (Ready srv hup inp acc r)
    show ?thesis
      unfolding bridge_events_def Ready poll_res.case
      by (rule lives_bind_gives [where P = "bridge_inv p"])
        (use assms in \<open>auto intro!: inv_if inv_accept rules rd\<close>)
  qed (use assms in \<open>simp_all add: lives_def bridge_events_def\<close>)
  then show ?thesis
    unfolding bridge_round_def by (intro lives_rules)
qed

lemma bridge_start_inv:
  assumes "cmd_bridge_start srv s = Some (b, t)"
  shows "bridge_inv (b_p b) b"
  using assms by (auto simp: cmd_bridge_start_def Option.bind_eq_Some_conv bridge_inv_def slot_ok_def)

section \<open>The receiver undoes the encoder\<close>

lemma feed_stuffed:
  assumes "b_esc b = False" and "length (b_rx b) + length xs \<le> ASH_MAX_FRAME * 2"
  shows "bridge_feed b (stuff xs @ ys) s = bridge_feed (b\<lparr>b_rx := b_rx b @ xs\<rparr>) ys s"
  using assms
proof (induction xs arbitrary: b)
  case (Cons x xs)
  have "rx_byte (b\<lparr>b_esc := True\<rparr>) (x XOR 0x20) = b\<lparr>b_rx := b_rx b @ [x]\<rparr>"
    using Cons.prems by (simp add: rx_byte_def)
  moreover have "rx_byte b x = b\<lparr>b_rx := b_rx b @ [x]\<rparr>"
    using Cons.prems by (simp add: rx_byte_def)
  moreover have "bridge_feed (b\<lparr>b_rx := b_rx b @ [x]\<rparr>) (stuff xs @ ys) s =
      bridge_feed (b\<lparr>b_rx := b_rx b @ x # xs\<rparr>) ys s"
    using Cons.IH [of "b\<lparr>b_rx := b_rx b @ [x]\<rparr>"] Cons.prems by simp
  ultimately show ?case
    using reserved_unstuff [of x] by (auto simp: reserved_def)
qed simp

lemma feed_frame:
  assumes "b_esc b = False" and "b_rx b = []" and "f \<noteq> []" and "length f + 2 \<le> ASH_MAX_FRAME * 2"
    and "length g = 2"
  shows "bridge_feed b (stuff (f @ g) @ ASH_FLAG # ys) s =
    (if frame_ok (f @ g)
     then do { (b, s) \<leftarrow> bridge_handle_frame (b\<lparr>b_rx := f @ g\<rparr>) f s;
               bridge_feed (b\<lparr>b_rx := [], b_esc := False\<rparr>) ys s }
     else bridge_feed (b\<lparr>b_rx := [], b_esc := False\<rparr>) ys s)"
  using assms feed_stuffed [of b "f @ g" "ASH_FLAG # ys" s]
  by (cases f) (auto simp: rx_flag_def split: Option.bind_split)

section \<open>Relaying with an NCP that answers\<close>

lemma relay_payload_reply:
  assumes "length resp \<le> 140"
  shows "relay_payload 140 (pad_to 260 0 (spi_frame resp)) = resp"
  using assms by (simp add: relay_payload_def pad_to_def spi_frame_def unat_of_nat)

lemma spi_frame_reply:
  "length resp \<le> 255 \<Longrightarrow> is_reply (spi_frame resp) \<and> fst (classify (spi_frame resp)) = RSP_EZSP"
  by (simp add: spi_frame_def unat_of_nat classify_def Let_def)

lemma relay_reply:
  assumes "kfail s = []" and "inp \<noteq> []" and "length inp \<le> 145" and "length resp \<le> 140"
    and "answers (cfg s) (spi_frame inp) (spi_frame resp) m" and "miso s = m @ rest"
  shows "\<exists>t. ezsp_relay spi p inp 140 s = Some (Some resp, t) \<and> radio s t \<and> miso t = rest \<and>
     kfail t = [] \<and> clocked (spi_frame inp) s t"
proof -
  have "length (spi_frame resp) \<le> 260" "spi_frame inp \<noteq> []" "hd (spi_frame resp) \<noteq> SPI_ERR_RESET"
    using assms(4) by (simp_all add: spi_frame_def)
  from do_cmd_reply [OF assms(1,5,6) this, of spi p True] spi_frame_reply [of resp] assms(4)
  obtain t where "do_cmd spi p (spi_frame inp) 260 True s =
      Some ((RSP_EZSP, pad_to 260 0 (spi_frame resp)), t)" "radio s t" "miso t = rest" "kfail t = []"
    "clocked (spi_frame inp) s t"
    by auto
  with assms(2-4) relay_payload_reply show ?thesis by (simp add: ezsp_relay_def)
qed

lemma ash_send_ack_willing:
  assumes "list_all willing (writes s)" and "0 \<le> b_cli b"
  shows "\<exists>t. ash_send_ack b s = Some ((), t) \<and> sends s t \<and>
     sent_to (b_cli b) (trace t) = sent_to (b_cli b) (trace s) @ ash_encode [0x80 OR (b_ack b AND 7)] \<and>
     list_all willing (writes t)"
proof -
  obtain r t where t: "ash_send b [0x80 OR (b_ack b AND 7)] s = Some (r, t)"
    using ash_send_returns by blast
  with ash_send_willing [OF assms _ t] keepsD [OF sends_ash_send t] show ?thesis
    by (simp add: ash_send_ack_def)
qed

definition data_frame :: "bridge \<Rightarrow> u8 list \<Rightarrow> u8 list" where
  "data_frame b ezsp = data_ctrl b # ash_mask ezsp"

definition after_data :: "bridge \<Rightarrow> u8 list \<Rightarrow> bridge" where
  "after_data b ezsp = b\<lparr>b_sent := (b_sent b)[unat (b_frm b AND 7) := data_frame b ezsp],
     b_frm := (b_frm b + 1) AND 7\<rparr>"

lemma ash_send_data_willing:
  assumes "list_all willing (writes s)" and "0 \<le> b_cli b" and "length ezsp + 1 \<le> ASH_MAX_FRAME"
  shows "\<exists>t. ash_send_data b ezsp s = Some (after_data b ezsp, t) \<and> sends s t \<and>
     sent_to (b_cli b) (trace t) = sent_to (b_cli b) (trace s) @ ash_encode (data_frame b ezsp) \<and>
     list_all willing (writes t)"
proof -
  obtain r t where t: "ash_send (after_data b ezsp) (data_frame b ezsp) s = Some (r, t)"
    using ash_send_returns by blast
  have "0 \<le> b_cli (after_data b ezsp)" "length (data_frame b ezsp) \<le> ASH_MAX_FRAME"
    using assms(2,3) by (simp_all add: after_data_def data_frame_def)
  from ash_send_willing [OF assms(1) this t] keepsD [OF sends_ash_send t] t assms(3)
  show ?thesis by (simp add: ash_send_data_def Let_def after_data_def data_frame_def)
qed

text \<open>
  A DATA frame end to end: the client is acknowledged, then sent the NCP's reply, and what
  goes over SPI is the client's EZSP frame, unmasked and otherwise as it came.
\<close>

definition data_acked :: "bridge \<Rightarrow> u8 \<Rightarrow> bridge" where
  "data_acked b ctrl = b\<lparr>b_ack := ((drop_bit 4 ctrl AND 7) + 1) AND 7\<rparr>"

lemma adopt_version_sel [simp]:
  "b_cli (adopt_version b e r) = b_cli b" "b_frm (adopt_version b e r) = b_frm b"
  "b_ack (adopt_version b e r) = b_ack b" "b_sent (adopt_version b e r) = b_sent b"
  "b_p (adopt_version b e r) = b_p b"
  by (simp_all add: adopt_version_def Let_def split: prod.split)

lemma data_end_to_end:
  fixes b :: bridge and ctrl :: u8
  assumes k: "kfail s = []" and w: "list_all willing (writes s)" and c: "0 \<le> b_cli b"
    and e: "ezsp \<noteq> []" "length ezsp \<le> 140" and r: "resp \<noteq> []" "length resp + 1 \<le> ASH_MAX_FRAME"
    and a: "answers (cfg s) (spi_frame ezsp) (spi_frame resp) m" and m: "miso s = m @ rest"
  defines "b1 \<equiv> data_acked b ctrl"
  shows "\<exists>t. bridge_data b ctrl ezsp s =
      bridge_drain_callbacks (after_data (adopt_version b1 ezsp resp) resp) t \<and>
    sent_to (b_cli b) (trace t) = sent_to (b_cli b) (trace s) @
      ash_encode [0x80 OR (b_ack b1 AND 7)] @ ash_encode (data_frame b1 resp) \<and>
    miso t = rest \<and> kfail t = [] \<and> list_all willing (writes t) \<and> clocked (spi_frame ezsp) s t"
proof -
  have c1: "b_cli b1 = b_cli b" "b_spi b1 = b_spi b" "b_p b1 = b_p b"
    by (simp_all add: b1_def data_acked_def)
  obtain s1 where 1: "ash_send_ack b1 s = Some ((), s1)" "sends s s1" "list_all willing (writes s1)"
    "sent_to (b_cli b) (trace s1) = sent_to (b_cli b) (trace s) @ ash_encode [0x80 OR (b_ack b1 AND 7)]"
    using ash_send_ack_willing [OF w, of b1] c c1 by auto
  have "kfail s1 = []" "answers (cfg s1) (spi_frame ezsp) (spi_frame resp) m" "miso s1 = m @ rest"
    using sends_same [OF 1(2)] k a m by simp_all
  with e r obtain s2 where 2: "ezsp_relay (b_spi b) (b_p b) ezsp 140 s1 = Some (Some resp, s2)"
    "radio s1 s2" "miso s2 = rest" "kfail s2 = []" "clocked (spi_frame ezsp) s1 s2"
    using relay_reply [of s1 ezsp resp m rest] by fastforce
  let ?b = "adopt_version b1 ezsp resp"
  have w2: "list_all willing (writes s2)" using 1(3) 2(2) by (simp add: radio_def)
  obtain t where 3: "ash_send_data ?b resp s2 = Some (after_data ?b resp, t)" "sends s2 t"
    "sent_to (b_cli b) (trace t) = sent_to (b_cli b) (trace s2) @ ash_encode (data_frame ?b resp)"
    "list_all willing (writes t)"
    using ash_send_data_willing [OF w2, of ?b resp] c c1 r by auto
  have "data_frame ?b resp = data_frame b1 resp" by (simp add: data_frame_def data_ctrl_def)
  moreover have "bridge_data b ctrl ezsp s = bridge_drain_callbacks (after_data ?b resp) t"
    using 1(1) 2(1) 3(1) r(1) c1 by (simp add: bridge_data_def Let_def flip: data_acked_def b1_def)
  moreover have "clocked (spi_frame ezsp) s t"
    using 1(2) 2(5) 3(2) by (fastforce simp: clocked_def sends_def)
  ultimately show ?thesis
    using 1(4) 2(3,4) 3(3,4) radio_sent_to [OF 2(2)] sends_same [OF 3(2)] by auto
qed

text \<open>Before its RST a client gets nothing and reaches nothing.\<close>

definition resets :: "u8 list \<Rightarrow> bool" where
  \<comment> \<open>the frame that opens a session\<close>
  "resets f \<longleftrightarrow> hd f = ASH_CTRL_RST"

lemma resend_empty: "b_sent b = replicate 8 [] \<Longrightarrow> resend b ns s = Some ((), s)"
  by (induction ns) (simp_all add: resend_slot_def)

lemma handle_frame_closed:
  assumes "bridge_inv p b" and "\<not> b_ready b" and "\<not> resets f"
  shows "bridge_handle_frame b f s = Some (b, s)"
proof -
  have "b_sent b = replicate 8 []" "b_frm b < 8" using assms by (simp_all add: bridge_inv_def)
  then have "ash_retransmit b (c AND 7) s = Some ((), s)" for c
    by (simp add: ash_retransmit_def retransmit_slots_enough and_7_less resend_empty)
  with assms show ?thesis by (simp add: bridge_handle_frame_def Let_def resets_def)
qed

lemma adopt_ready [simp]: "b_ready (adopt_version b e r) = b_ready b"
  by (simp add: adopt_version_def Let_def split: prod.split)

lemma handle_frame_ready:
  assumes "bridge_inv p b" and "b_ready b" shows "gives b_ready (bridge_handle_frame b f)"
  using inv_data [OF assms]
  unfolding bridge_handle_frame_def Let_def bridge_reset_def
  by (intro gives_if gives_then gives_return) (auto simp: assms gives_def)

lemma rx_flag_gate:
  assumes "bridge_inv p b" and "rx_flag b s = Some (b', t)"
  shows "b_ready b' \<or> \<not> b_ready b \<and> t = s"
proof (cases "b_ready b")
  case True
  have "gives b_ready (rx_flag b)"
    unfolding rx_flag_def
    by (rule gives_bind [where P = b_ready])
      (intro gives_if gives_return handle_frame_ready [OF assms(1)], simp_all add: True gives_return)
  then show ?thesis using givesD assms(2) by fastforce
next
  case False
  show ?thesis
  proof (cases "resets (take (length (b_rx b) - 2) (b_rx b)) \<and> 3 \<le> length (b_rx b) \<and> frame_ok (b_rx b)")
    case True
    then show ?thesis
      using assms(2) by (auto simp: rx_flag_def bridge_handle_frame_def resets_def bridge_reset_def
          Option.bind_eq_Some_conv Let_def)
  next
    case no: False
    then show ?thesis
      using assms(2) False handle_frame_closed [OF assms(1) False]
      by (auto simp: rx_flag_def Option.bind_eq_Some_conv split: if_splits)
  qed
qed

text \<open>The receiver between two flags.\<close>

definition rx_char :: "bridge \<Rightarrow> u8 \<Rightarrow> bridge" where
  "rx_char b c =
     (if c = ASH_XON \<or> c = ASH_XOFF then b
      else if c = ASH_CANCEL then b\<lparr>b_rx := [], b_esc := False\<rparr>
      else if c = ASH_SUB then b\<lparr>b_rx := [], b_esc := True\<rparr>
      else if c = ASH_ESC then b\<lparr>b_esc := True\<rparr>
      else rx_byte b c)"

lemma feed_char: "c \<noteq> ASH_FLAG \<Longrightarrow> bridge_feed b (c # cs) s = bridge_feed (rx_char b c) cs s"
  by (simp add: rx_char_def)

lemma rx_char_sel [simp]: "b_ready (rx_char b c) = b_ready b" "b_cli (rx_char b c) = b_cli b"
  by (simp_all add: rx_char_def rx_byte_def Let_def)

lemma inv_rx_char: "bridge_inv p b \<Longrightarrow> bridge_inv p (rx_char b c)"
  by (simp add: rx_char_def inv_esc inv_rx rx_byte_def Let_def bridge_inv_def)

lemma feed_gate:
  assumes "bridge_inv p b" and "bridge_feed b bs s = Some (b', t)"
  shows "b_ready b' \<or> \<not> b_ready b \<and> t = s"
  using assms
proof (induction bs arbitrary: b s)
  case (Cons c cs)
  show ?case
  proof (cases "c = ASH_FLAG")
    case True
    with Cons.prems(2) obtain b1 s1 where f: "rx_flag b s = Some (b1, s1)" "bridge_feed b1 cs s1 = Some (b', t)"
      by (auto simp: Option.bind_eq_Some_conv)
    then show ?thesis
      using rx_flag_gate [OF Cons.prems(1) f(1)] Cons.IH [OF givesD [OF inv_rx_flag f(1)] f(2)] Cons.prems(1)
      by auto
  next
    case False
    with Cons.prems(2) have "bridge_feed (rx_char b c) cs s = Some (b', t)" by (metis feed_char)
    from Cons.IH [OF inv_rx_char [OF Cons.prems(1)] this] show ?thesis by simp
  qed
qed simp


text \<open>A round without the client's bytes leaves an unopened session alone as well.\<close>

lemma flow_control_ignored:
  "bridge_feed b (filter (\<lambda>c. c \<noteq> ASH_XON \<and> c \<noteq> ASH_XOFF) bs) s = bridge_feed b bs s"
proof (induction bs arbitrary: b s)
  case (Cons c cs)
  then show ?case by (cases "rx_flag b s") auto
qed simp

lemma feed_append:
  "bridge_feed b (xs @ ys) s = do { (b, s) \<leftarrow> bridge_feed b xs s; bridge_feed b ys s }"
proof (induction xs arbitrary: b s)
  case (Cons c cs)
  show ?case
  proof (cases "c = ASH_FLAG")
    case True
    then show ?thesis by (cases "rx_flag b s") (auto simp: Cons.IH)
  next
    case False
    then show ?thesis by (simp add: feed_char Cons.IH del: bridge_feed.simps(2))
  qed
qed simp

text \<open>After a flag or a cancel the receiver is in step again, whatever came before.\<close>

lemma rx_flag_clean: "gives (\<lambda>b. b_rx b = [] \<and> b_esc b = False) (rx_flag b)"
  unfolding rx_flag_def by (intro gives_then gives_return) simp

lemma feed_ends_clean:
  assumes "bridge_feed b (bs @ [c]) s = Some (b', t)" and "c = ASH_FLAG \<or> c = ASH_CANCEL"
  shows "b_rx b' = [] \<and> b_esc b' = False"
proof -
  from assms(1) obtain x where "(case x of (b, s) \<Rightarrow> bridge_feed b [c] s) = Some (b', t)"
    unfolding feed_append Option.bind_eq_Some_conv by blast
  then obtain b1 s1 where 1: "bridge_feed b1 [c] s1 = Some (b', t)" by (cases x) simp
  from assms(2) show ?thesis
  proof
    assume "c = ASH_FLAG"
    with 1 have "rx_flag b1 s1 = Some (b', t)" by (cases "rx_flag b1 s1") auto
    from givesD [OF rx_flag_clean this] show ?thesis .
  next
    assume "c = ASH_CANCEL"
    with 1 show ?thesis by auto
  qed
qed

text \<open>Callback polls in one go.\<close>

lemma relay_callback_seq: "gives (\<lambda>(f, b'). b_cbseq b' = b_cbseq b + 1) (ezsp_relay_callback b m)"
  unfolding ezsp_relay_callback_def Let_def by (intro gives_then gives_return) simp

lemma send_data_seq: "gives (\<lambda>b'. b_cbseq b' = b_cbseq b) (ash_send_data b e)"
  unfolding ash_send_data_def Let_def by (intro gives_if gives_then gives_return) simp_all

lemma drain_loop_bound:
  "gives (\<lambda>b'. \<exists>n \<le> k. b_cbseq b' = b_cbseq b + of_nat n) (drain_loop k b)"
proof (induction k arbitrary: b)
  case (Suc k)
  let ?Q = "\<lambda>b' :: bridge. \<exists>n \<le> Suc k. b_cbseq b' = b_cbseq b + of_nat n"
  have q: "?Q b'" if "b_cbseq b1 = b_cbseq b + 1" "\<exists>n \<le> k. b_cbseq b' = b_cbseq b1 + of_nat n" for b1 b' :: bridge
  proof -
    from that(2) obtain n where "n \<le> k" "b_cbseq b' = b_cbseq b1 + of_nat n" by blast
    then show ?thesis using that(1) by (intro exI [of _ "Suc n"]) simp
  qed
  have 0: "?Q b" by (rule exI [of _ 0]) simp
  have 1: "?Q b1" if "b_cbseq b1 = b_cbseq b + 1" for b1 :: bridge
    by (rule exI [of _ 1]) (simp add: that)
  have l: "gives ?Q (\<lambda>s. do { (b, s) \<leftarrow> ash_send_data b1 f s; drain_loop k b s })"
    if b1: "b_cbseq b1 = b_cbseq b + 1" for b1 :: bridge and f
  proof (rule gives_bind [OF send_data_seq])
    fix b2 :: bridge assume "b_cbseq b2 = b_cbseq b1"
    then have "b_cbseq b2 = b_cbseq b + 1" using b1 by simp
    from q [OF this] Suc.IH [of b2] show "gives ?Q (drain_loop k b2)" unfolding gives_def by blast
  qed
  have p: "gives ?Q (case x of (f, b1) \<Rightarrow> \<lambda>s. if f = [] then Some (b1, s)
      else do { (b, s) \<leftarrow> ash_send_data b1 f s; drain_loop k b s })"
    if "(\<lambda>(f, b'). b_cbseq b' = b_cbseq b + 1) x" for x
    using that by (cases x) (auto intro!: gives_if gives_return 1 l)
  show ?case
    unfolding drain_loop.simps
    by (intro gives_then gives_if gives_return 0 gives_bind [OF relay_callback_seq] p)
qed (simp add: gives_def)


section \<open>Properties of the bridge\<close>

text \<open>The receiver's state between two frames.\<close>

definition idle_rx :: "bridge \<Rightarrow> bridge" where
  "idle_rx b = b\<lparr>b_rx := [], b_esc := False\<rparr>"

lemma idle_rx_sel [simp]: "b_rx (idle_rx b) = []" "b_esc (idle_rx b) = False"
  by (simp_all add: idle_rx_def)

lemma feed_idle_frame:
  assumes "f \<noteq> []" and "length f + 2 \<le> ASH_MAX_FRAME * 2"
  shows "bridge_feed (idle_rx b) (stuff (f @ crc_tail g) @ ASH_FLAG # ys) s =
    (if ash_crc f = ash_crc g
     then do { (b, s) \<leftarrow> bridge_handle_frame (b\<lparr>b_rx := f @ crc_tail g, b_esc := False\<rparr>) f s;
               bridge_feed (idle_rx b) ys s }
     else bridge_feed (idle_rx b) ys s)"
proof -
  have "(idle_rx b)\<lparr>b_rx := f @ crc_tail g\<rparr> = b\<lparr>b_rx := f @ crc_tail g, b_esc := False\<rparr>"
    "(idle_rx b)\<lparr>b_rx := [], b_esc := False\<rparr> = idle_rx b" by (simp_all add: idle_rx_def)
  with feed_frame [of "idle_rx b" f "crc_tail g" ys s] assms show ?thesis
    by (simp add: frame_ok_crc_tail flip: idle_rx_def)
qed

text \<open>
  C9: What the bridge or a client encodes with \<open>ash_encode\<close> the receiver decodes: from its
  idle state it takes the frame's bytes and hands \<open>bridge_handle_frame\<close> exactly the frame,
  once, then is idle again with the bytes after the frame still to come.
\<close>

theorem feed_decodes:
  assumes "f \<noteq> []" and "length f + 2 \<le> ASH_MAX_FRAME * 2"
  shows "bridge_feed (idle_rx b) (ash_encode f @ ys) s = do {
     (b, s) \<leftarrow> bridge_handle_frame (b\<lparr>b_rx := f @ crc_tail f, b_esc := False\<rparr>) f s;
     bridge_feed (idle_rx b) ys s
   }"
  using feed_idle_frame [OF assms, of b f ys s] by (simp add: ash_encode_def)

theorem feed_decodes_witness:
  "bridge_feed (idle_rx sample_bridge) (ash_encode [0x81]) sys0 = Some (idle_rx sample_bridge, sys0)"
  using feed_decodes [of "[0x81]" sample_bridge "[]" sys0]
  by (simp add: bridge_handle_frame_def) (simp add: idle_rx_def)

text \<open>
  C10: A frame with two neighbouring bytes changed on the way, in any way and even with the
  stuffing redone, is dropped: nothing is sent, the NCP is not touched, and the receiver is
  idle for the next frame.
\<close>

theorem feed_drops_corrupted:
  assumes "(c, d) \<noteq> (c', d')" and "length u + length v + 4 \<le> ASH_MAX_FRAME * 2"
  shows "bridge_feed (idle_rx b) (stuff (u @ c' # d' # v @ crc_tail (u @ c # d # v)) @ [ASH_FLAG]) s =
     Some (idle_rx b, s)"
proof -
  have "ash_crc (u @ c' # d' # v) \<noteq> ash_crc (u @ c # d # v)"
    using assms(1) crc.pair_burst by (fastforce simp: ash_crc_def)
  with feed_idle_frame [of "u @ c' # d' # v" b "u @ c # d # v" "[]" s] assms(2) show ?thesis by simp
qed

theorem feed_drops_corrupted_witness:
  "bridge_feed (idle_rx sample_bridge)
     (stuff ([0xC0, 0x01] @ crc_tail [0xC1, 0x01]) @ [ASH_FLAG]) sys0 = Some (idle_rx sample_bridge, sys0)"
  using feed_drops_corrupted [of "0xC1" "0x01" "0xC0" "0x01" "[]" "[]" sample_bridge sys0] by simp

text \<open>
  XON and XOFF bytes are invisible: wherever flow control puts them in the stream, the
  bridge behaves as without them.
\<close>

theorem feed_ignores_flow_control:
  "bridge_feed b (filter (\<lambda>c. c \<noteq> ASH_XON \<and> c \<noteq> ASH_XOFF) bs) s = bridge_feed b bs s"
  by (rule flow_control_ignored)

text \<open>
  After a flag or a cancel byte the receiver is in step, whatever came before: no byte of
  what it saw can become part of the next frame.
\<close>

theorem feed_resynchronises:
  assumes "bridge_feed b (bs @ [c]) s = Some (b', t)" and "c = ASH_FLAG \<or> c = ASH_CANCEL"
  shows "b' = idle_rx b'"
  using feed_ends_clean [OF assms] by (simp add: idle_rx_def)

theorem feed_resynchronises_witness:
  "\<exists>b'. bridge_feed sample_bridge ([0x55, ASH_ESC] @ [ASH_CANCEL]) sys0 = Some (b', sys0) \<and> b' = idle_rx b'"
proof -
  have "bridge_feed sample_bridge ([0x55, ASH_ESC] @ [ASH_CANCEL]) sys0 = Some (sample_bridge, sys0)"
    by (simp add: rx_byte_def sample_bridge_def)
  from feed_resynchronises [OF this] this show ?thesis by blast
qed

lemma data_ctrl_bits:
  assumes "(ctrl :: u8) AND 0x80 = 0"
  shows "ctrl \<noteq> ASH_CTRL_RST \<and> ctrl AND 0xE0 \<noteq> 0x80 \<and> ctrl AND 0xE0 \<noteq> 0xA0"
proof -
  have "(ctrl AND 0xE0) AND 0x80 = 0" using assms by (simp add: and.assoc)
  then show ?thesis using assms by auto
qed

text \<open>
  A DATA frame is relayed verbatim in both directions: the root theory states this for the
  bytes as they arrive.
\<close>

lemma data_relayed:
  fixes b :: bridge and ctrl :: u8
  assumes "b_ready b" and "ctrl AND 0x80 = 0" and "0 \<le> b_cli b"
    and "kfail s = []" and "list_all willing (writes s)"
    and "ezsp \<noteq> []" and "length ezsp \<le> 140" and "resp \<noteq> []" and "length resp + 1 \<le> ASH_MAX_FRAME"
    and "answers (cfg s) (spi_frame ezsp) (spi_frame resp) m" and "miso s = m @ rest"
  defines "b1 \<equiv> data_acked b ctrl"
  shows "\<exists>t. bridge_handle_frame b (ctrl # ash_mask ezsp) s =
      bridge_drain_callbacks (after_data (adopt_version b1 ezsp resp) resp) t \<and>
    sent_to (b_cli b) (trace t) = sent_to (b_cli b) (trace s) @
      ash_encode [0x80 OR (b_ack b1 AND 7)] @ ash_encode (data_frame b1 resp) \<and>
    miso t = rest \<and> kfail t = [] \<and> list_all willing (writes t) \<and> clocked (spi_frame ezsp) s t"
proof -
  have "length (ash_mask ezsp) = length ezsp" using assms(7) by simp
  then have "ash_mask ezsp \<noteq> []" using assms(6) by fastforce
  then have e: "bridge_handle_frame b (ctrl # ash_mask ezsp) s = bridge_data b ctrl ezsp s"
    using assms(1,2,6,7) data_ctrl_bits [OF assms(2)] by (simp add: bridge_handle_frame_def ash_mask_twice)
  show ?thesis
    unfolding e b1_def by (rule data_end_to_end [OF assms(4,5,3,6,7,8,9,10,11)])
qed

text \<open>
  C23: An RST frame resets the NCP, with the sequence of \<open>ncp_reset\<close>, and only then is the client
  answered, with RSTACK, version 2, software reset; the session starts with both counters at
  0, nothing to retransmit, EZSP version 4 and no version agreed yet.
\<close>

theorem rst_restarts_session:
  assumes "hd f = ASH_CTRL_RST" and "kfail s = []" and "list_all willing (writes s)" and "0 \<le> b_cli b"
  shows "\<exists>s1 t. ncp_reset (b_p b) s = Some ((), s1) \<and>
     bridge_handle_frame b f s = Some (b\<lparr>b_frm := 0, b_ack := 0, b_ver := 4,
       b_sent := replicate ASH_WINDOW [], b_ready := True, b_negotiated := False\<rparr>, t) \<and> sends s1 t \<and>
     sent_to (b_cli b) (trace t) = sent_to (b_cli b) (trace s) @
       ash_encode [ASH_CTRL_RSTACK, 0x02, ASH_RESET_SOFTWARE]"
proof -
  let ?b = "b\<lparr>b_frm := 0, b_ack := 0, b_ver := 4, b_sent := replicate ASH_WINDOW []\<rparr>"
  let ?f = "[ASH_CTRL_RSTACK, 0x02, ASH_RESET_SOFTWARE]"
  obtain s1 where 1: "ncp_reset (b_p b) s = Some ((), s1)"
    using livesE [OF lives_ncp_reset, of s "b_p b"] assms(2) by (auto simp: ioctls_ok_def)
  have r: "radio s s1" using keepsD [OF radio_ncp_reset 1] .
  obtain x t where 2: "ash_send ?b ?f s1 = Some (x, t)" using ash_send_returns by blast
  have w: "list_all willing (writes s1)" "0 \<le> b_cli ?b" "length ?f \<le> ASH_MAX_FRAME"
    using r assms(3,4) by (simp_all add: radio_def)
  have "bridge_handle_frame b f s = Some (?b\<lparr>b_ready := True, b_negotiated := False\<rparr>, t)"
    using assms(1) 1 2 by (simp add: bridge_handle_frame_def bridge_reset_def)
  with 1 ash_send_willing [OF w 2] keepsD [OF sends_ash_send 2] radio_sent_to [OF r] show ?thesis by simp
qed

theorem rst_restarts_session_witness:
  "\<exists>t. bridge_handle_frame sample_bridge [ASH_CTRL_RST] sys0 = Some (sample_bridge\<lparr>b_frm := 0, b_ack := 0,
       b_ver := 4, b_sent := replicate ASH_WINDOW [], b_ready := True, b_negotiated := False\<rparr>, t) \<and>
     sent_to 11 (trace t) = ash_encode [ASH_CTRL_RSTACK, 0x02, ASH_RESET_SOFTWARE]"
proof -
  have b: "0 \<le> b_cli sample_bridge" "b_cli sample_bridge = 11" by (simp_all add: sample_bridge_def)
  have s: "kfail sys0 = []" "list_all willing (writes sys0)" "trace sys0 = []" by (simp_all add: sys0_def)
  show ?thesis
    using rst_restarts_session [of "[ASH_CTRL_RST]" sys0, OF _ s(1,2) b(1)] unfolding b(2) s(3) by auto
qed



lemma start_pins:
  assumes "cmd_bridge_start srv s0 = Some (b, s)" and "distinct (line_fds (line_results s0))"
  shows "pins_distinct (b_p b)"
proof -
  from assms(1) obtain t where "pins_open s0 = Some (b_p b, t)"
    by (auto simp: cmd_bridge_start_def Option.bind_eq_Some_conv)
  with pins_open_distinct_fds assms(2) show ?thesis by blast
qed

text \<open>
  C2: The bridge never starts the NCP's bootloader. In every state it reaches from its start,
  whatever the clients, the NCP and the kernel do, each release of nRESET happened with nWAKE
  high, and both lines are high at the end of the round.
\<close>

theorem bridge_boots_application:
  assumes "cmd_bridge_start srv s0 = Some (b, s)" and "distinct (line_fds (line_results s0))"
    and "bridge_reach (b, s) (b', t)"
  shows "boots_app (b_p b) s t"
  using boot_reach [OF assms(3) start_pins [OF assms(1,2)]] bridge_start_inv [OF assms(1)] by simp

definition started_sys :: sys where
  "started_sys = v1_sys\<lparr>cs_follows := True, line_results := [],
     cfg := board_lines whw03 default_cfg, trace := [LineOut 49 True, LineOut 55 True, LineOut 56 True,
       LineOut 45 True, LineIn 50, SpiOpen ''/dev/spidev1.0'' 1000000]\<rparr>"

definition started_bridge :: bridge where
  "started_bridge = \<lparr>b_spi = 0, b_p = opened_pins, b_srv = 8, b_cli = -1, b_ready = False,
     b_negotiated = False, b_frm = 0, b_ack = 0, b_cbseq = 0, b_ver = 4, b_rx = [], b_esc = False,
     b_sent = replicate 8 []\<rparr>"

lemma bridge_starts: "cmd_bridge_start (Some 8) v1_sys = Some (started_bridge, started_sys)"
  unfolding cmd_bridge_start_def v1_opens
  by (simp add: spi_open_def ioctl_def started_bridge_def started_sys_def v1_sys_def sys0_def emit_def
      board_lines_def default_cfg_def)

text \<open>A client connects, then opens its session.\<close>

lemma bridge_accepts:
  "bridge_reach (started_bridge, started_sys) (started_bridge\<lparr>b_cli := 9\<rparr>, started_sys)"
  by (rule bridge_reach.round [where a = "Ready True False False 9 ReadAgain", OF bridge_reach.start])
    (simp add: bridge_round_def bridge_events_def bridge_accept_def bridge_drain_callbacks_def
      started_bridge_def)

lemma bridge_inv_started: "bridge_inv opened_pins (started_bridge\<lparr>b_cli := 9\<rparr>)"
  by (simp add: bridge_inv_def started_bridge_def slot_ok_def)

lemma bridge_opens:
  "\<exists>b t. bridge_round (started_bridge\<lparr>b_cli := 9\<rparr>) (Ready False False True 0 (Got (ash_encode [ASH_CTRL_RST])))
     started_sys = Some (b, t) \<and> bridge_reach (started_bridge, started_sys) (b, t)"
proof -
  have k: "ioctls_ok started_sys" by (simp add: started_sys_def v1_sys_def sys0_def ioctls_ok_def)
  show ?thesis
    by (rule livesE [OF lives_round [OF bridge_inv_started] k]) (auto intro: bridge_reach.round [OF bridge_accepts])
qed

theorem bridge_boots_application_witness:
  "\<exists>b t. bridge_round (started_bridge\<lparr>b_cli := 9\<rparr>) (Ready False False True 0 (Got (ash_encode [ASH_CTRL_RST])))
     started_sys = Some (b, t) \<and> boots_app opened_pins started_sys t"
proof -
  have d: "distinct (line_fds (line_results v1_sys))" by (simp add: v1_sys_def)
  have "b_p started_bridge = opened_pins" by (simp add: started_bridge_def)
  then show ?thesis
    using bridge_opens bridge_boots_application [OF bridge_starts d] by fastforce
qed

text \<open>
  C20: In every state the bridge reaches its counters are three bits, the receive buffer within
  its size, each slot of the window free or a frame of that number that fits, the EZSP version
  one of 4 to 13, and a session that is not open has nothing in its window.
\<close>

theorem bridge_invariant:
  assumes "cmd_bridge_start srv s0 = Some (b, s)" and "bridge_reach (b, s) (b', t)"
  shows "bridge_inv (b_p b) b'"
  using inv_reach [OF assms(2)] bridge_start_inv [OF assms(1)] by simp

theorem bridge_invariant_witness: "bridge_inv opened_pins (started_bridge\<lparr>b_cli := 9\<rparr>)"
  using bridge_invariant [OF bridge_starts bridge_accepts] by (simp add: started_bridge_def)



text \<open>
  One call of \<open>bridge_drain_callbacks\<close> polls the NCP at most 32 times (its own sequence
  byte counts the polls), so a stuck nHOST_INT cannot keep it from returning to the socket.
\<close>

theorem drain_bounded:
  assumes "bridge_drain_callbacks b s = Some (b', t)"
  shows "\<exists>n \<le> 32. b_cbseq b' = b_cbseq b + of_nat n"
proof (cases "b_cli b < 0 \<or> \<not> b_ready b \<or> \<not> b_negotiated b \<or> pin_hint (b_p b) < 0")
  case True
  then have "b' = b" using assms by (auto simp: bridge_drain_callbacks_def)
  then show ?thesis by (intro exI [of _ 0]) simp
next
  case False
  then have "drain_loop 32 b s = Some (b', t)" using assms by (simp add: bridge_drain_callbacks_def)
  from givesD [OF drain_loop_bound this] show ?thesis .
qed

theorem drain_bounded_witness:
  "\<exists>b' t. bridge_drain_callbacks sample_bridge sys0 = Some (b', t) \<and>
     (\<exists>n \<le> 32. b_cbseq b' = b_cbseq sample_bridge + of_nat n)"
proof -
  have "bridge_drain_callbacks sample_bridge sys0 = Some (sample_bridge, sys0)"
    by (simp add: bridge_drain_callbacks_def sample_bridge_def sample_pins_def)
  from this drain_bounded [OF this] show ?thesis by blast
qed
end
