(* ===== verification/Ezsp.thy ===== *)
theory Ezsp
  imports Bridge
begin

text \<open>
  EZSP commands (ezsp.c): one command and its reply in the three frame layouts, the version
  negotiation, configuration, callbacks, permit-join, the two active scans, and the frame
  of a command (\<open>session\<close>). \<open>converses\<close> describes an NCP that answers a sequence of commands. Receive
  buffers are lists of their declared size; what a reply does not overwrite stays, so a
  caller that reads past a reply reads what was there before, in the model as in the code.
  Buffers no caller reads unwritten start as zeros, the others are arguments.
\<close>

unbundle bit_operations_syntax

section \<open>Identifiers (ezsp-spi.h)\<close>

abbreviation EZSP_START_SCAN :: u8 where "EZSP_START_SCAN \<equiv> 0x1A"
abbreviation EZSP_NETWORK_FOUND_HANDLER :: u8 where "EZSP_NETWORK_FOUND_HANDLER \<equiv> 0x1B"
abbreviation EZSP_SCAN_COMPLETE_HANDLER :: u8 where "EZSP_SCAN_COMPLETE_HANDLER \<equiv> 0x1C"
abbreviation EZSP_ACTIVE_SCAN :: u8 where "EZSP_ACTIVE_SCAN \<equiv> 0x01"
abbreviation EZSP_PERMIT_JOINING :: u8 where "EZSP_PERMIT_JOINING \<equiv> 0x22"
abbreviation EZSP_SET_CONFIGURATION_VALUE :: u8 where "EZSP_SET_CONFIGURATION_VALUE \<equiv> 0x53"
abbreviation EMBER_SUCCESS :: u8 where "EMBER_SUCCESS \<equiv> 0x00"


section \<open>One command\<close>

definition ezsp_header :: "u32 \<Rightarrow> u8 \<Rightarrow> u8 \<Rightarrow> u8 list" where
  "ezsp_header ver sq frame_id =
     (if ver \<ge> 8 then [sq, 0x00, 0x01, frame_id, 0x00]
      else if ver \<ge> 5 then [sq, 0x00, 0xFF, 0x00, frame_id]
      else [sq, 0x00, frame_id])"

definition ezsp_tx :: "u32 \<Rightarrow> u8 \<Rightarrow> u8 \<Rightarrow> u8 list \<Rightarrow> u8 list" where
  "ezsp_tx ver sq frame_id params =
     [SPI_CMD_EZSP_FRAME, of_nat (length params + fst (ezsp_layout (uint ver)))] @
     ezsp_header ver sq frame_id @ params @ [SPI_FRAME_TERMINATOR]"

text \<open>What is taken from a frame: the return value, the id, the buffer.\<close>

definition ezsp_parse :: "u32 \<Rightarrow> u8 list \<Rightarrow> u8 \<Rightarrow> u8 list \<Rightarrow> int \<times> u8 \<times> u8 list" where
  "ezsp_parse ver rx got buf =
     (let (hdr, id_off) = ezsp_layout (uint ver) in
      if unat (rx ! 1) < hdr then (-1, got, buf)
      else (let len = min (unat (rx ! 1) - hdr) (length buf)
            in (int len, rx ! (2 + id_off), take len (drop (2 + hdr) rx) @ drop len buf)))"

text \<open>
  \<open>ezsp_xfer\<close>, with the caller's id variable and buffer as they were: its return value (-1
  or the payload's length) and the two as they are after it.
\<close>

definition ezsp_xfer :: "int \<Rightarrow> pins \<Rightarrow> u8 \<Rightarrow> u8 list \<Rightarrow> u8 \<Rightarrow> u8 list \<Rightarrow>
    (sys, int \<times> u8 \<times> u8 list) cmd" where
  "ezsp_xfer spi p frame_id params got buf s =
     (if length params + 5 > 160 then None
      else do {
        let tx = ezsp_tx (cfg_ezsp_version (cfg s)) (ezsp_seq s) frame_id params;
        ((cls, rx), s) \<leftarrow> do_cmd spi p tx 260 True (s\<lparr>ezsp_seq := ezsp_seq s + 1\<rparr>);
        Some (if cls \<noteq> RSP_EZSP then (-1, got, buf)
              else ezsp_parse (cfg_ezsp_version (cfg s)) rx got buf, s)
      })"

text \<open>An id other than the one asked for is only a warning.\<close>

definition ezsp_cmd :: "int \<Rightarrow> pins \<Rightarrow> u8 \<Rightarrow> u8 list \<Rightarrow> u8 list \<Rightarrow> (sys, int \<times> u8 list) cmd" where
  "ezsp_cmd spi p frame_id params buf s = do {
     ((n, got, buf), s) \<leftarrow> ezsp_xfer spi p frame_id params 0 buf s;
     Some ((n, buf), s)
   }"

text \<open>The callback's id, 0 for none.\<close>

definition ezsp_poll_callback :: "int \<Rightarrow> pins \<Rightarrow> u8 list \<Rightarrow> (sys, u8 \<times> u8 list) cmd" where
  "ezsp_poll_callback spi p buf s = do {
     ((n, got, buf), s) \<leftarrow> ezsp_xfer spi p EZSP_CALLBACK [] 0 buf s;
     Some ((if n < 0 \<or> got = EZSP_NO_CALLBACKS then 0 else got, buf), s)
   }"


section \<open>Version negotiation\<close>

definition set_version :: "u32 \<Rightarrow> sys \<Rightarrow> sys" where
  "set_version v s = s\<lparr>cfg := (cfg s)\<lparr>cfg_ezsp_version := v\<rparr>\<rparr>"

text \<open>The end of \<open>ezsp_init\<close>: adopt what the NCP reported.\<close>

definition ezsp_adopt :: "u8 list \<Rightarrow> (sys, int) cmd" where
  "ezsp_adopt out s =
     (let s = set_version (ucast (out ! 0)) s
      in Some (if out ! 0 > 8 then -1 else int (unat (out ! 0)), s))"

definition ezsp_init :: "int \<Rightarrow> pins \<Rightarrow> (sys, int) cmd" where
  "ezsp_init spi p s = do {
     let want = ucast (cfg_ezsp_want (cfg s));
     ((n, out), s) \<leftarrow> ezsp_cmd spi p EZSP_VERSION [want] (replicate 8 0) (set_version 4 s);
     if n < 3 then Some (-1, s)
     else if out ! 0 = want then ezsp_adopt out s
     else do {
       let want = out ! 0;
       (_, s) \<leftarrow> ncp_reset p s;
       ((n, out), s) \<leftarrow> ezsp_cmd spi p EZSP_VERSION [want] out (set_version 4 s);
       if n < 3 \<or> out ! 0 \<noteq> want then Some (-1, s)
       else ezsp_adopt out s
     }
   }"


section \<open>Configuration and permit-join\<close>

definition status_of :: "int \<Rightarrow> u8 list \<Rightarrow> u8" where
  "status_of n out = (if n \<ge> 1 then out ! 0 else 0xFF)"

definition ezsp_set_config :: "int \<Rightarrow> pins \<Rightarrow> u8 \<Rightarrow> u16 \<Rightarrow> (sys, int) cmd" where
  "ezsp_set_config spi p cid value s = do {
     ((n, out), s) \<leftarrow> ezsp_cmd spi p EZSP_SET_CONFIGURATION_VALUE
        [cid, ucast (value AND 0xFF), ucast (drop_bit 8 value)] (replicate 4 0) s;
     Some (if n < 1 \<or> out ! 0 \<noteq> EMBER_SUCCESS then -1 else 0, s)
   }"

text \<open>The reply for the user: the seconds asked of the NCP, or its status.\<close>

datatype permit_msg = PermitOpen u8 | PermitFailed u8

definition permit_seconds :: "u32 \<Rightarrow> u8" where
  "permit_seconds seconds = (if seconds > 254 then 254 else ucast seconds)"

definition ezsp_permit :: "int \<Rightarrow> pins \<Rightarrow> u32 \<Rightarrow> (sys, int \<times> permit_msg) cmd" where
  "ezsp_permit spi p seconds s = do {
     ((n, out), s) \<leftarrow> ezsp_cmd spi p EZSP_PERMIT_JOINING [permit_seconds seconds] (replicate 8 0) s;
     Some (if n < 1 \<or> out ! 0 \<noteq> EMBER_SUCCESS then (-1, PermitFailed (status_of n out))
           else (0, PermitOpen (permit_seconds seconds)), s)
   }"


section \<open>Active scans\<close>

definition scan_params :: "u32 \<Rightarrow> u8 \<Rightarrow> u8 list" where
  "scan_params chans duration =
     [EZSP_ACTIVE_SCAN, ucast (chans AND 0xFF), ucast (drop_bit 8 chans AND 0xFF),
      ucast (drop_bit 16 chans AND 0xFF), ucast (drop_bit 24 chans AND 0xFF), duration]"

definition le16 :: "u8 \<Rightarrow> u8 \<Rightarrow> u16" where
  "le16 lo hi = ucast lo OR push_bit 8 (ucast hi)"

text \<open>A match of \<open>scan_find\<close>: the extended pan id, the join flag, the update id.\<close>

type_synonym found = "u8 list \<times> bool \<times> u8"

definition found_of :: "u8 list \<Rightarrow> found" where
  "found_of out = (take 8 (drop 3 out), out ! 11 \<noteq> 0, out ! 13)"

fun find_loop :: "nat \<Rightarrow> int \<Rightarrow> pins \<Rightarrow> u16 \<Rightarrow> u8 list \<Rightarrow> (sys, int \<times> found option) cmd" where
  "find_loop 0 spi p pan out s = Some ((0, None), s)"
| "find_loop (Suc i) spi p pan out s = do {
     (_, s) \<leftarrow> usleep 250000 s;
     ((fid, out), s) \<leftarrow> ezsp_poll_callback spi p out s;
     if fid = EZSP_NETWORK_FOUND_HANDLER then
       (if le16 (out ! 1) (out ! 2) \<noteq> pan then find_loop i spi p pan out s
        else Some ((1, Some (found_of out)), s))
     else if fid = EZSP_SCAN_COMPLETE_HANDLER then Some ((0, None), s)
     else find_loop i spi p pan out s
   }"

text \<open>\<open>out\<close> is the 64-byte buffer as the stack left it. A shift by 32 or more is not modelled.\<close>

definition scan_find :: "int \<Rightarrow> pins \<Rightarrow> u32 \<Rightarrow> u16 \<Rightarrow> u8 list \<Rightarrow> (sys, int \<times> found option) cmd" where
  "scan_find spi p channel pan out s = do {
     ((n, out), s) \<leftarrow> ezsp_cmd spi p EZSP_START_SCAN
        (scan_params (push_bit (unat channel) 1) 3) out s;
     if n < 1 \<or> out ! 0 \<noteq> EMBER_SUCCESS then Some ((-1, None), s)
     else find_loop 80 spi p pan out s
   }"

datatype scan_line =
    Network u8 u16 "u8 list" bool u8 u8 u8
      \<comment> \<open>channel, pan id, extended pan id, allowing join, stack profile, lqi, rssi\<close>
  | ScanComplete nat
  | ScanFailedOn u8 u8

definition network_line :: "u8 list \<Rightarrow> scan_line" where
  "network_line out = Network (out ! 0) (le16 (out ! 1) (out ! 2)) (take 8 (drop 3 out))
     (out ! 11 \<noteq> 0) (out ! 12) (out ! 14) (out ! 15)"

text \<open>The loop of \<open>cmd_scan\<close>: the networks found and the lines printed.\<close>

fun scan_loop :: "nat \<Rightarrow> int \<Rightarrow> pins \<Rightarrow> nat \<Rightarrow> u8 list \<Rightarrow> (sys, nat \<times> scan_line list) cmd" where
  "scan_loop 0 spi p n out s = Some ((n, []), s)"
| "scan_loop (Suc i) spi p n out s = do {
     (_, s) \<leftarrow> usleep 250000 s;
     ((fid, out), s) \<leftarrow> ezsp_poll_callback spi p out s;
     if fid = EZSP_NETWORK_FOUND_HANDLER then do {
       ((m, ls), s) \<leftarrow> scan_loop i spi p (Suc n) out s;
       Some ((m, network_line out # ls), s)
     }
     else if fid = EZSP_SCAN_COMPLETE_HANDLER then
       Some ((n, [if out ! 1 = EMBER_SUCCESS then ScanComplete n
                  else ScanFailedOn (out ! 0) (out ! 1)]), s)
     else scan_loop i spi p n out s
   }"

definition scan_mask :: "u32 \<Rightarrow> u32" where
  "scan_mask channel = (if channel \<noteq> 0 then push_bit (unat channel) 1 else 0x07FFF800)"

definition release :: "int \<Rightarrow> pins \<Rightarrow> sys \<Rightarrow> (unit \<times> sys) option" where
  \<comment> \<open>\<open>close(spi); pins_close(&p);\<close> at the end of a command\<close>
  "release spi p s = do { (_, s) \<leftarrow> pins_close p (emit (CloseFd spi) s); Some ((), s) }"

definition scan_body :: "int \<Rightarrow> pins \<Rightarrow> u8 list \<Rightarrow> (sys, int \<times> scan_line list) cmd" where
  "scan_body spi p out s = do {
     (v, s) \<leftarrow> ezsp_init spi p s;
     if v < 0 then Some ((1, []), s)
     else do {
       ((n, out), s) \<leftarrow> ezsp_cmd spi p EZSP_START_SCAN
          (scan_params (scan_mask (cfg_channel (cfg s))) 4) out s;
       if n < 1 \<or> out ! 0 \<noteq> EMBER_SUCCESS then Some ((1, []), s)
       else do {
         ((found, ls), s) \<leftarrow> scan_loop 240 spi p 0 out s;
         Some ((if found \<noteq> 0 then 0 else 1, ls), s)
       }
     }
   }"

definition cmd_scan :: "u8 list \<Rightarrow> (sys, int \<times> scan_line list) cmd" where
  "cmd_scan out s = do {
     (p, s) \<leftarrow> pins_open s;
     (spi, s) \<leftarrow> spi_open s;
     (_, s) \<leftarrow> (if \<not> cfg_no_reset (cfg s) then ncp_reset p s else Some ((), s));
     (r, s) \<leftarrow> scan_body spi p out s;
     (_, s) \<leftarrow> release spi p s;
     Some (r, s)
   }"


section \<open>The contract of a command\<close>

text \<open>
  What the functions above \<open>ezsp_xfer\<close> rely on: a buffer keeps its size and the length
  returned is within it; -1 leaves the caller's variables alone; a short command returns
  unless the kernel refuses something.
\<close>

locale ezsp_port =
  fixes xfer :: "u8 \<Rightarrow> u8 list \<Rightarrow> u8 \<Rightarrow> u8 list \<Rightarrow> (sys, int \<times> u8 \<times> u8 list) cmd"
  assumes xfer_buffer: "xfer fid ps got buf s = Some ((n, got', buf'), t) \<Longrightarrow>
      length buf' = length buf \<and> -1 \<le> n \<and> n \<le> int (length buf) \<and>
      (n = -1 \<longrightarrow> got' = got \<and> buf' = buf)"
    and xfer_lives: "length ps \<le> 155 \<Longrightarrow> lives ioctls_ok (xfer fid ps got buf)"
begin

lemma xfer_size: "gives (\<lambda>(n, got', buf'). length buf' = length buf) (xfer fid ps got buf)"
  using xfer_buffer by (fastforce simp: gives_def)

text \<open>A length that was checked before reading a field proves that the field is the reply's.\<close>

lemma xfer_checked: "xfer fid ps got buf s = Some ((n, got', buf'), t) \<Longrightarrow> int k < n \<Longrightarrow> k < length buf'"
  using xfer_buffer [of fid ps got buf s n got' buf' t] by auto

end

lemma layout_bounds: "fst (ezsp_layout v) \<le> 5 \<and> 3 \<le> fst (ezsp_layout v) \<and> snd (ezsp_layout v) < fst (ezsp_layout v)"
  by (simp add: ezsp_layout_def)

lemma parse_buffer:
  assumes "ezsp_parse ver rx got buf = (n, got', buf')" and "length rx = 260"
  shows "length buf' = length buf \<and> -1 \<le> n \<and> n \<le> int (length buf) \<and> (n = -1 \<longrightarrow> got' = got \<and> buf' = buf)"
proof (cases "unat (rx ! 1) < fst (ezsp_layout (uint ver))")
  case True
  with assms(1) show ?thesis by (auto simp: ezsp_parse_def split: prod.splits)
next
  case False
  let ?h = "fst (ezsp_layout (uint ver))" and ?l = "unat (rx ! 1)"
  have "?l \<le> 255" by (rule unat_u8_le)
  then have "min (?l - ?h) (length buf) + 2 + ?h \<le> 260" using False by simp
  moreover have "n = int (min (?l - ?h) (length buf))"
    "buf' = take (min (?l - ?h) (length buf)) (drop (2 + ?h) rx) @ drop (min (?l - ?h) (length buf)) buf"
    using assms(1) False by (auto simp: ezsp_parse_def Let_def split: prod.splits)
  ultimately show ?thesis using assms(2) by simp
qed

lemma xfer_cases:
  assumes "ezsp_xfer spi p fid ps got buf s = Some ((n, got', buf'), t)"
  obtains cls rx where "length ps \<le> 155"
    "do_cmd spi p (ezsp_tx (cfg_ezsp_version (cfg s)) (ezsp_seq s) fid ps) 260 True
       (s\<lparr>ezsp_seq := ezsp_seq s + 1\<rparr>) = Some ((cls, rx), t)"
    "(n, got', buf') = (if cls \<noteq> RSP_EZSP then (-1, got, buf)
       else ezsp_parse (cfg_ezsp_version (cfg t)) rx got buf)"
  using assms by (auto simp: ezsp_xfer_def Option.bind_eq_Some_conv Let_def split: if_splits)

lemma xfer_buffer_ezsp:
  assumes "ezsp_xfer spi p fid ps got buf s = Some ((n, got', buf'), t)"
  shows "length buf' = length buf \<and> -1 \<le> n \<and> n \<le> int (length buf) \<and>
      (n = -1 \<longrightarrow> got' = got \<and> buf' = buf)"
proof -
  from assms obtain cls rx where
    d: "do_cmd spi p (ezsp_tx (cfg_ezsp_version (cfg s)) (ezsp_seq s) fid ps) 260 True
       (s\<lparr>ezsp_seq := ezsp_seq s + 1\<rparr>) = Some ((cls, rx), t)"
    and r: "(n, got', buf') = (if cls \<noteq> RSP_EZSP then (-1, got, buf)
       else ezsp_parse (cfg_ezsp_version (cfg t)) rx got buf)"
    by (rule xfer_cases)
  have "length rx = 260" using ncp.port_buffer [OF d] by simp
  from parse_buffer [OF _ this] r show ?thesis by (metis (no_types) Pair_inject eq_refl
        int_one_le_iff_zero_less neg_le_0_iff_le of_nat_0_le_iff order_trans zero_le_one)
qed

lemma lives_ezsp_xfer [lives_rules]:
  assumes "length ps \<le> 155"
  shows "lives ioctls_ok (ezsp_xfer spi p fid ps got buf)"
  unfolding lives_def
proof (intro allI impI)
  fix s assume "ioctls_ok s"
  then have "ioctls_ok (s\<lparr>ezsp_seq := ezsp_seq s + 1\<rparr>)" by (simp add: ioctls_ok_def)
  then obtain cls rx t where "do_cmd spi p (ezsp_tx (cfg_ezsp_version (cfg s)) (ezsp_seq s) fid ps) 260 True
       (s\<lparr>ezsp_seq := ezsp_seq s + 1\<rparr>) = Some ((cls, rx), t)" "ioctls_ok t"
    using lives_do_cmd by (fastforce simp: lives_def)
  with assms show "\<exists>x t. ezsp_xfer spi p fid ps got buf s = Some (x, t) \<and> ioctls_ok t"
    unfolding ezsp_xfer_def Let_def
    by (cases "ezsp_parse (cfg_ezsp_version (cfg t)) rx got buf") auto
qed

interpretation ncp_cmd: ezsp_port "ezsp_xfer spi p"
  by unfold_locales (erule xfer_buffer_ezsp, erule lives_ezsp_xfer)

lemma boot_ezsp_xfer [boot_rules]:
  assumes "pins_distinct p" shows "keeps (boots_app p) (ezsp_xfer spi p fid ps got buf)"
proof (rule keepsI)
  fix s x t assume "ezsp_xfer spi p fid ps got buf s = Some (x, t)"
  then obtain cls rx where "do_cmd spi p (ezsp_tx (cfg_ezsp_version (cfg s)) (ezsp_seq s) fid ps) 260 True
       (s\<lparr>ezsp_seq := ezsp_seq s + 1\<rparr>) = Some ((cls, rx), t)"
    by (cases x) (auto elim: xfer_cases)
  then have "boots_app p (s\<lparr>ezsp_seq := ezsp_seq s + 1\<rparr>) t" using keepsD [OF boot_do_cmd [OF assms]] by blast
  then show "boots_app p s t" by (simp add: boots_app_def)
qed


section \<open>A command that is answered\<close>

lemma uint_le_word: "(8 :: u32) \<le> v \<longleftrightarrow> 8 \<le> uint v" "(5 :: u32) \<le> v \<longleftrightarrow> 5 \<le> uint v"
  by (simp_all add: word_le_def)

lemma length_ezsp_header: "length (ezsp_header ver sq fid) = fst (ezsp_layout (uint ver))"
  by (simp add: ezsp_header_def ezsp_layout_def uint_le_word)

text \<open>The id is where the layout says, and the rest of a frame is the payload.\<close>

lemma header_id: "ezsp_header ver sq fid ! snd (ezsp_layout (uint ver)) = fid"
  by (simp add: ezsp_header_def ezsp_layout_def uint_le_word)

lemma ezsp_tx_frame: "ezsp_tx ver sq fid ps = spi_frame (ezsp_header ver sq fid @ ps)"
  by (simp add: ezsp_tx_def spi_frame_def length_ezsp_header add.commute)

definition reply_frame :: "u32 \<Rightarrow> u8 list \<Rightarrow> u8 list \<Rightarrow> u8 list" where
  \<comment> \<open>a reply with the header \<open>h\<close>\<close>
  "reply_frame ver h payload = spi_frame (h @ payload)"

lemma parse_reply:
  assumes "length h = fst (ezsp_layout (uint ver))" and "length payload \<le> 250" and "length payload \<le> length buf"
  shows "ezsp_parse ver (pad_to 260 0 (spi_frame (h @ payload))) got buf =
    (int (length payload), h ! snd (ezsp_layout (uint ver)), payload @ drop (length payload) buf)"
proof -
  let ?rx = "pad_to 260 0 (spi_frame (h @ payload))"
  have b: "length h \<le> 5" "snd (ezsp_layout (uint ver)) < length h" using layout_bounds assms(1) by simp_all
  have 1: "unat (?rx ! 1) = length h + length payload"
    using b assms(2) by (simp add: pad_to_def spi_frame_def unat_of_nat del: of_nat_add flip: of_nat_add)
  have 2: "?rx ! (2 + snd (ezsp_layout (uint ver))) = h ! snd (ezsp_layout (uint ver))"
    using b by (simp add: pad_to_def spi_frame_def nth_append)
  have 3: "take (length payload) (drop (2 + length h) ?rx) = payload"
    by (simp add: pad_to_def spi_frame_def)
  show ?thesis
    unfolding ezsp_parse_def using 1 2 3 assms by (cases "ezsp_layout (uint ver)") (simp add: Let_def)
qed

lemma xfer_reply:
  assumes "kfail s = []" and "length ps \<le> 155"
    and "length h = fst (ezsp_layout (uint (cfg_ezsp_version (cfg s))))"
    and "length payload \<le> 250" and "length payload \<le> length buf"
    and "answers (cfg s) (ezsp_tx (cfg_ezsp_version (cfg s)) (ezsp_seq s) fid ps) (spi_frame (h @ payload)) m"
    and "miso s = m @ rest"
  shows "\<exists>t. ezsp_xfer spi p fid ps got buf s =
      Some ((int (length payload), h ! snd (ezsp_layout (uint (cfg_ezsp_version (cfg s)))),
             payload @ drop (length payload) buf), t) \<and>
    clocked (ezsp_tx (cfg_ezsp_version (cfg s)) (ezsp_seq s) fid ps) s t \<and>
    miso t = rest \<and> kfail t = [] \<and> cfg t = cfg s \<and> ezsp_seq t = ezsp_seq s + 1"
proof -
  let ?s = "s\<lparr>ezsp_seq := ezsp_seq s + 1\<rparr>"
  let ?tx = "ezsp_tx (cfg_ezsp_version (cfg s)) (ezsp_seq s) fid ps"
  let ?r = "spi_frame (h @ payload)"
  have b: "length h \<le> 5" using layout_bounds assms(3) by simp
  have n: "length ?r \<le> 260" "?tx \<noteq> []" "hd ?r \<noteq> SPI_ERR_RESET"
    using b assms(4) by (simp_all add: spi_frame_def ezsp_tx_def)
  have k: "kfail ?s = []" "answers (cfg ?s) ?tx ?r m" "miso ?s = m @ rest" using assms by simp_all
  obtain t where t: "do_cmd spi p ?tx 260 True ?s = Some ((fst (classify ?r), pad_to 260 0 ?r), t)"
    "radio ?s t" "miso t = rest" "kfail t = []" "clocked ?tx ?s t"
    using do_cmd_reply [OF k n, of spi p True] by blast
  have "fst (classify ?r) = RSP_EZSP" using spi_frame_reply b assms(4) by simp
  moreover have "cfg t = cfg s" "ezsp_seq t = ezsp_seq s + 1" using t(2) by (simp_all add: radio_def)
  moreover have "clocked ?tx s t" using t(5) by (simp add: clocked_def)
  ultimately show ?thesis
    using t assms(2) parse_reply [OF assms(3-5)] by (simp add: ezsp_xfer_def Let_def)
qed


section \<open>The functions above a command\<close>

lemma lives_ezsp_cmd [lives_rules]: "length ps \<le> 155 \<Longrightarrow> lives ioctls_ok (ezsp_cmd spi p fid ps buf)"
  unfolding ezsp_cmd_def by (intro lives_rules)

lemma boot_ezsp_cmd [boot_rules]: "pins_distinct p \<Longrightarrow> keeps (boots_app p) (ezsp_cmd spi p fid ps buf)"
  unfolding ezsp_cmd_def by (intro boot_seq boot_rules)

lemma lives_poll_callback [lives_rules]: "lives ioctls_ok (ezsp_poll_callback spi p buf)"
  unfolding ezsp_poll_callback_def by (intro lives_rules) simp_all

lemma boot_poll_callback [boot_rules]: "pins_distinct p \<Longrightarrow> keeps (boots_app p) (ezsp_poll_callback spi p buf)"
  unfolding ezsp_poll_callback_def by (intro boot_seq boot_rules)

lemma boot_set_version: "pins_distinct p \<Longrightarrow> keeps (boots_app p) (\<lambda>s. ezsp_cmd spi p fid ps buf (set_version v s))"
proof (rule keepsI)
  fix s x t assume d: "pins_distinct p" and "ezsp_cmd spi p fid ps buf (set_version v s) = Some (x, t)"
  then have "boots_app p (set_version v s) t" using keepsD [OF boot_ezsp_cmd] by blast
  then show "boots_app p s t" by (simp add: boots_app_def set_version_def)
qed

lemma lives_set_version: "length ps \<le> 155 \<Longrightarrow> lives ioctls_ok (\<lambda>s. ezsp_cmd spi p fid ps buf (set_version v s))"
  using lives_ezsp_cmd unfolding lives_def ioctls_ok_def by (simp add: set_version_def)

lemma boot_adopt: "keeps (boots_app p) (ezsp_adopt out)"
  by (simp add: keeps_def ezsp_adopt_def Let_def boots_app_trace set_version_def)

lemma lives_adopt: "lives ioctls_ok (ezsp_adopt out)"
  by (simp add: lives_def ioctls_ok_def ezsp_adopt_def Let_def set_version_def)

lemma boot_ezsp_init [boot_rules]: "pins_distinct p \<Longrightarrow> keeps (boots_app p) (ezsp_init spi p)"
proof -
  assume d: "pins_distinct p"
  have "keeps (boots_app p) (\<lambda>s. do { ((n, out), s) \<leftarrow> ezsp_cmd spi p EZSP_VERSION [w] b (set_version 4 s); f n out s })"
    if "\<And>n out. keeps (boots_app p) (f n out)" for w b and f :: "int \<Rightarrow> u8 list \<Rightarrow> (sys, int) cmd"
    using that boot_set_version [OF d] by (intro boot_seq)
  note cmd = this
  show ?thesis
    unfolding ezsp_init_def Let_def
    by (rule keeps_read [where f = "\<lambda>w s. do { ((n, out), s) \<leftarrow> ezsp_cmd spi p EZSP_VERSION [w] (replicate 8 0) (set_version 4 s); F w n out s }" for F])
      (intro cmd boot_seq boot_adopt boot_ncp_reset d)
qed

lemma lives_ezsp_init [lives_rules]: "lives ioctls_ok (ezsp_init spi p)"
proof -
  have cmd: "lives ioctls_ok (\<lambda>s. do { ((n, out), s) \<leftarrow> ezsp_cmd spi p EZSP_VERSION [w] b (set_version 4 s); f n out s })"
    if "\<And>n out. lives ioctls_ok (f n out)" for w b and f :: "int \<Rightarrow> u8 list \<Rightarrow> (sys, int) cmd"
    using that lives_set_version [of "[w]"] by (intro lives_rules) simp_all
  show ?thesis
    unfolding ezsp_init_def Let_def
    by (rule lives_read [where f = "\<lambda>w s. do { ((n, out), s) \<leftarrow> ezsp_cmd spi p EZSP_VERSION [w] (replicate 8 0) (set_version 4 s); F w n out s }" for F])
      (intro cmd lives_rules lives_adopt)
qed


section \<open>Negotiation\<close>

definition version_only :: "sys \<Rightarrow> sys \<Rightarrow> bool" where
  \<comment> \<open>the configuration changed at most in the negotiated version\<close>
  "version_only s t \<longleftrightarrow> cfg t = (cfg s)\<lparr>cfg_ezsp_version := cfg_ezsp_version (cfg t)\<rparr>"

interpretation version_only: frame_rel version_only
proof
  show "version_only s s" for s by (simp add: version_only_def)
  show "version_only s u" if "version_only s t" "version_only t u" for s t u
    using that unfolding version_only_def by (metis cfg.update_convs(15) cfg.surjective)
qed

lemma radio_version_only: "keeps radio m \<Longrightarrow> keeps version_only m"
  by (fastforce simp: keeps_def version_only_def radio_def)

lemma version_only_xfer: "keeps version_only (ezsp_xfer spi p fid ps got buf)"
proof (rule keepsI)
  fix s x t assume "ezsp_xfer spi p fid ps got buf s = Some (x, t)"
  then obtain cls rx where "do_cmd spi p (ezsp_tx (cfg_ezsp_version (cfg s)) (ezsp_seq s) fid ps) 260 True
       (s\<lparr>ezsp_seq := ezsp_seq s + 1\<rparr>) = Some ((cls, rx), t)"
    by (cases x) (auto elim: xfer_cases)
  from ncp.port_silent_client(3) [OF this] show "version_only s t" by (simp add: version_only_def)
qed

lemma version_only_cmd: "keeps version_only (\<lambda>s. ezsp_cmd spi p fid ps buf s)"
  unfolding ezsp_cmd_def by (intro version_only.keeps_bind version_only_xfer keeps_case_prod_fun version_only.keeps_return)

lemma version_only_cmd_as:
  "keeps version_only (\<lambda>s. ezsp_cmd spi p fid ps buf (set_version v s))"
  using version_only_cmd unfolding keeps_def version_only_def by (fastforce simp: set_version_def)

lemma version_only_adopt: "keeps version_only (ezsp_adopt out)"
  by (simp add: keeps_def ezsp_adopt_def Let_def version_only_def set_version_def)

lemma version_only_init: "keeps version_only (ezsp_init spi p)"
proof -
  have cmd: "keeps version_only (\<lambda>s. do { ((n, out), s) \<leftarrow> ezsp_cmd spi p EZSP_VERSION [w] b (set_version 4 s); f n out s })"
    if "\<And>n out. keeps version_only (f n out)" for w b and f :: "int \<Rightarrow> u8 list \<Rightarrow> (sys, int) cmd"
    using that by (intro version_only.keeps_bind version_only_cmd_as keeps_case_prod_fun)
  show ?thesis
    unfolding ezsp_init_def Let_def
    by (rule keeps_read [where f = "\<lambda>w s. do { ((n, out), s) \<leftarrow> ezsp_cmd spi p EZSP_VERSION [w] (replicate 8 0) (set_version 4 s); F w n out s }" for F])
      (intro cmd version_only.keeps_bind version_only.keeps_return keeps_if version_only_adopt
        radio_version_only radio_ncp_reset)
qed

lemma uint_ucast_u8: "uint (ucast (x :: u8) :: u32) = uint x"
proof -
  have "uint x < 256" using unsigned_less [of x, where 'a = int] by simp
  then show ?thesis by (simp add: unsigned_ucast_eq take_bit_int_eq_self_iff)
qed

lemma adopt_result:
  assumes "ezsp_adopt out s = Some (r, t)"
  shows "r = -1 \<or> 0 \<le> r \<and> r \<le> 8 \<and> uint (cfg_ezsp_version (cfg t)) = r"
proof (cases "out ! 0 > 8")
  case False
  then have "uint (out ! 0) \<le> 8" by (simp add: word_less_def not_less)
  with assms False show ?thesis by (auto simp: ezsp_adopt_def Let_def set_version_def uint_ucast_u8)
qed (use assms in \<open>auto simp: ezsp_adopt_def Let_def\<close>)

lemma init_result:
  "ezsp_init spi p s = Some (r, t) \<Longrightarrow>
   r = -1 \<or> 0 \<le> r \<and> r \<le> 8 \<and> uint (cfg_ezsp_version (cfg t)) = r"
  unfolding ezsp_init_def Let_def
  by (auto simp: Option.bind_eq_Some_conv dest: adopt_result split: if_splits)

lemma answers_cong: "cfg_wait_bytes c = cfg_wait_bytes d \<Longrightarrow> answers c tx r m = answers d tx r m"
  by (simp add: answers_def)

lemma ncp_reset_ok:
  assumes "kfail s = []"
  shows "\<exists>t. ncp_reset p s = Some ((), t) \<and> radio s t \<and> miso t = miso s \<and> kfail t = []"
proof -
  obtain t where t: "ncp_reset p s = Some ((), t)" "ioctls_ok t"
    using livesE [OF lives_ncp_reset, of s p] assms by (auto simp: ioctls_ok_def)
  moreover have "radio s t" using keepsD [OF radio_ncp_reset t(1)] .
  moreover have "miso t = miso s"
    using t(1) by (auto simp: ncp_reset_def Option.bind_eq_Some_conv dest!: trace_dests split: if_splits)
  ultimately show ?thesis by (auto simp: ioctls_ok_def)
qed

text \<open>One \<open>version\<close> command with the v4 layout, answered with version \<open>v\<close>.\<close>

definition version_reply :: "u8 list \<Rightarrow> u8 \<Rightarrow> u8 list \<Rightarrow> u8 list" where
  "version_reply h v stack = spi_frame (h @ v # stack)"

lemma ask_version:
  assumes "kfail s = []" and "length h = 3" and "length stack = 3" and "length buf = 8"
    and "answers (cfg s) (ezsp_tx 4 (ezsp_seq s) EZSP_VERSION [want]) (version_reply h v stack) m"
    and "miso s = m @ rest"
  shows "\<exists>t. ezsp_cmd spi p EZSP_VERSION [want] buf (set_version 4 s) =
      Some ((4, (v # stack) @ drop 4 buf), t) \<and> miso t = rest \<and> kfail t = [] \<and>
    cfg t = cfg (set_version 4 s) \<and> ezsp_seq t = ezsp_seq s + 1"
proof -
  let ?s = "set_version 4 s"
  have s: "kfail ?s = []" "miso ?s = m @ rest" "ezsp_seq ?s = ezsp_seq s" "cfg_ezsp_version (cfg ?s) = 4"
    using assms by (simp_all add: set_version_def)
  have a: "answers (cfg ?s) (ezsp_tx (cfg_ezsp_version (cfg ?s)) (ezsp_seq ?s) EZSP_VERSION [want])
      (spi_frame (h @ v # stack)) m"
    using assms(5) answers_cong [of "cfg ?s" "cfg s"] by (simp add: set_version_def version_reply_def)
  have h: "length h = fst (ezsp_layout (uint (cfg_ezsp_version (cfg ?s))))"
    using assms(2) by (simp add: s ezsp_layout_def)
  from xfer_reply [OF s(1) _ h _ _ a s(2), of buf spi p 0] assms(3,4) s(3)
  show ?thesis by (auto simp: ezsp_cmd_def)
qed

lemma init_direct:
  assumes "kfail s = []" and "length h = 3" and "length stack = 3"
  defines "want \<equiv> ucast (cfg_ezsp_want (cfg s)) :: u8"
  assumes "want \<le> 8"
    and "answers (cfg s) (ezsp_tx 4 (ezsp_seq s) EZSP_VERSION [want]) (version_reply h want stack) m"
    and "miso s = m @ rest"
  shows "\<exists>t. ezsp_init spi p s = Some (int (unat want), t) \<and> miso t = rest \<and> kfail t = [] \<and>
     cfg t = (cfg s)\<lparr>cfg_ezsp_version := ucast want\<rparr>"
proof -
  obtain t where "ezsp_cmd spi p EZSP_VERSION [want] (replicate 8 0) (set_version 4 s) =
      Some ((4, (want # stack) @ drop 4 (replicate 8 0)), t)" "miso t = rest" "kfail t = []"
    "cfg t = cfg (set_version 4 s)"
    using ask_version [OF assms(1-3) _ assms(6,7), of "replicate 8 0" spi p] by auto
  moreover have "\<not> 8 < want" using assms(5) by simp
  ultimately show ?thesis
    by (simp add: ezsp_init_def want_def [symmetric] ezsp_adopt_def Let_def set_version_def)
qed

lemma init_reask:
  assumes "kfail s = []" and "length h = 3" and "length stack = 3"
  defines "want \<equiv> ucast (cfg_ezsp_want (cfg s)) :: u8"
  assumes "v \<noteq> want" and "v \<le> 8"
    and "answers (cfg s) (ezsp_tx 4 (ezsp_seq s) EZSP_VERSION [want]) (version_reply h v stack) m1"
    and "answers (cfg s) (ezsp_tx 4 (ezsp_seq s + 1) EZSP_VERSION [v]) (version_reply h v stack) m2"
    and "miso s = m1 @ m2 @ rest"
  shows "\<exists>t. ezsp_init spi p s = Some (int (unat v), t) \<and> miso t = rest \<and> kfail t = [] \<and>
     cfg t = (cfg s)\<lparr>cfg_ezsp_version := ucast v\<rparr>"
proof -
  obtain s1 where 1: "ezsp_cmd spi p EZSP_VERSION [want] (replicate 8 0) (set_version 4 s) =
      Some ((4, (v # stack) @ drop 4 (replicate 8 0)), s1)" "miso s1 = m2 @ rest" "kfail s1 = []"
    "cfg s1 = cfg (set_version 4 s)" "ezsp_seq s1 = ezsp_seq s + 1"
    using ask_version [OF assms(1-3) _ assms(7,9), of "replicate 8 0" spi p] by auto
  obtain s2 where 2: "ncp_reset p s1 = Some ((), s2)" "radio s1 s2" "miso s2 = m2 @ rest" "kfail s2 = []"
    using ncp_reset_ok [OF 1(3)] 1(2) by auto
  have c: "cfg s2 = cfg s1" "ezsp_seq s2 = ezsp_seq s + 1" using 2(2) 1(5) by (simp_all add: radio_def)
  have "answers (cfg s2) (ezsp_tx 4 (ezsp_seq s2) EZSP_VERSION [v]) (version_reply h v stack) m2"
    using assms(8) c answers_cong [of "cfg s2" "cfg s"] by (simp add: 1(4) set_version_def)
  from ask_version [OF 2(4) assms(2,3) _ this 2(3), of "(v # stack) @ drop 4 (replicate 8 0)" spi p]
  obtain t where 3: "ezsp_cmd spi p EZSP_VERSION [v] ((v # stack) @ drop 4 (replicate 8 0)) (set_version 4 s2) =
      Some ((4, (v # stack) @ drop 4 ((v # stack) @ drop 4 (replicate 8 0))), t)" "miso t = rest" "kfail t = []"
    "cfg t = cfg (set_version 4 s2)"
    using assms(3) by auto
  have "\<not> 8 < v" using assms(6) by simp
  then show ?thesis
    using 1(1) 2(1) 3 assms(5) c 1(4)
    by (simp add: ezsp_init_def want_def [symmetric] ezsp_adopt_def Let_def set_version_def)
qed


section \<open>Scans\<close>

lemma lives_find_loop [lives_rules]: "lives ioctls_ok (find_loop i spi p pan out)"
proof (induction i arbitrary: out)
  case (Suc i)
  then show ?case unfolding find_loop.simps by (intro lives_rules)
qed (simp add: lives_def)

lemma boot_find_loop [boot_rules]: "pins_distinct p \<Longrightarrow> keeps (boots_app p) (find_loop i spi p pan out)"
proof (induction i arbitrary: out)
  case (Suc i)
  then show ?case unfolding find_loop.simps by (intro boot_seq boot_rules)
qed (simp add: keeps_def boots_app_trace)

lemma lives_scan_find [lives_rules]: "lives ioctls_ok (scan_find spi p c pan out)"
  unfolding scan_find_def by (intro lives_rules) (simp add: scan_params_def)

lemma boot_scan_find [boot_rules]: "pins_distinct p \<Longrightarrow> keeps (boots_app p) (scan_find spi p c pan out)"
  unfolding scan_find_def by (intro boot_seq boot_rules)

lemma lives_scan_loop [lives_rules]: "lives ioctls_ok (scan_loop i spi p n out)"
proof (induction i arbitrary: n out)
  case (Suc i)
  then show ?case unfolding scan_loop.simps by (intro lives_rules)
qed (simp add: lives_def)

lemma boot_scan_loop [boot_rules]: "pins_distinct p \<Longrightarrow> keeps (boots_app p) (scan_loop i spi p n out)"
proof (induction i arbitrary: n out)
  case (Suc i)
  then show ?case unfolding scan_loop.simps by (intro boot_seq boot_rules)
qed (simp add: keeps_def boots_app_trace)

lemma poll_size: "gives (\<lambda>(fid, out). length out = length buf) (ezsp_poll_callback spi p buf)"
  unfolding ezsp_poll_callback_def
  by (rule gives_bind [OF ncp_cmd.xfer_size]) (auto intro: gives_return)

lemma cmd_size: "gives (\<lambda>(n, out). length out = length buf) (ezsp_cmd spi p fid ps buf)"
  unfolding ezsp_cmd_def
  by (rule gives_bind [OF ncp_cmd.xfer_size]) (auto intro: gives_return)

text \<open>A match comes from one buffer that holds the pan id asked for.\<close>

definition find_ok :: "nat \<Rightarrow> u16 \<Rightarrow> int \<times> found option \<Rightarrow> bool" where
  "find_ok k pan r \<longleftrightarrow> (case r of
      (c, None) \<Rightarrow> c = 0 \<or> c = -1
    | (c, Some f) \<Rightarrow> c = 1 \<and> (\<exists>out. length out = k \<and> f = found_of out \<and>
        le16 (out ! 1) (out ! 2) = pan))"

lemma find_ok_intros:
  "find_ok k pan (0, None)" "find_ok k pan (-1, None)"
  "length out = k \<Longrightarrow> le16 (out ! 1) (out ! 2) = pan \<Longrightarrow> find_ok k pan (1, Some (found_of out))"
  by (auto simp: find_ok_def)

lemma find_loop_ok: "length out = k \<Longrightarrow> gives (find_ok k pan) (find_loop i spi p pan out)"
proof (induction i arbitrary: out)
  case (Suc i)
  show ?case
    unfolding find_loop.simps
    by (intro gives_then gives_bind [OF poll_size] gives_case_prod_fun gives_if gives_return
        find_ok_intros Suc.IH) (use Suc.prems in auto)
qed (simp add: gives_def find_ok_intros)

lemma scan_find_ok: "length out = k \<Longrightarrow> gives (find_ok k pan) (scan_find spi p c pan out)"
  unfolding scan_find_def
  by (intro gives_bind [OF cmd_size] gives_case_prod_fun gives_if gives_return find_loop_ok
      find_ok_intros) auto

text \<open>The count \<open>cmd_scan\<close> decides its exit code by is the number of networks it printed.\<close>

fun is_network :: "scan_line \<Rightarrow> bool" where
  "is_network (Network c pan ext j prof lqi rssi) = True"
| "is_network l = False"

lemma scan_loop_count:
  "gives (\<lambda>(m, ls). m = n + length (filter is_network ls)) (scan_loop i spi p n out)"
proof (induction i arbitrary: n out)
  case (Suc i)
  show ?case
    unfolding scan_loop.simps
    by (intro gives_then gives_case_prod_fun gives_if gives_return gives_bind [OF Suc] Suc)
      (auto simp: network_line_def)
qed (simp add: gives_def)

lemma release_trace: "release spi p s = Some ((), t) \<Longrightarrow>
   trace t = trace s @ CloseFd spi # map CloseFd (filter (\<lambda>fd. 0 \<le> fd)
     [pin_cs p, pin_reset p, pin_wake p, pin_nssel_int p, pin_hint p])"
  by (auto simp: release_def pins_close_def close_fd_def)

lemma scan_body_lives [lives_rules]: "lives ioctls_ok (scan_body spi p out)"
proof -
  have c: "lives ioctls_ok (\<lambda>s. do { ((n, out), s) \<leftarrow> ezsp_cmd spi p EZSP_START_SCAN (scan_params (g s) d) out s; f n out s })"
    if "\<And>n out. lives ioctls_ok (f n out)" for f :: "int \<Rightarrow> u8 list \<Rightarrow> (sys, int \<times> scan_line list) cmd" and g d
    by (rule lives_read [where g = g and f = "\<lambda>m s. do { ((n, out), s) \<leftarrow> ezsp_cmd spi p EZSP_START_SCAN (scan_params m d) out s; f n out s }"])
      (intro lives_rules that, simp add: scan_params_def)
  show ?thesis
    unfolding scan_body_def by (intro lives_rules c)
qed


section \<open>What a command leaves alone\<close>

text \<open>
  \<open>calls s t\<close>: between \<open>s\<close> and \<open>t\<close> only commands were exchanged with the NCP: like
  \<open>radio\<close>, but the sequence byte may have advanced.
\<close>

definition calls :: "sys \<Rightarrow> sys \<Rightarrow> bool" where
  "calls s t \<longleftrightarrow> radio (s\<lparr>ezsp_seq := ezsp_seq t\<rparr>) t"

lemma radio_seq: "radio s t \<Longrightarrow> radio (s\<lparr>ezsp_seq := q\<rparr>) (t\<lparr>ezsp_seq := q\<rparr>)"
  by (simp add: radio_def)

interpretation calls: frame_rel calls
proof
  show "calls s s" for s by (simp add: calls_def radio_def)
  show "calls s u" if "calls s t" "calls t u" for s t u
    using radio_trans [OF radio_seq [OF that(1) [unfolded calls_def], of "ezsp_seq u"]] that(2)
    by (simp add: calls_def)
qed

named_theorems calls_rules \<open>functions that only exchange commands with the NCP\<close>

lemmas calls_seq = calls.keeps_return calls.keeps_returns calls.keeps_bind
  keeps_if keeps_ifs keeps_let keeps_case_prod_fun keeps_case_prod keeps_case_option keeps_fail

lemma callsD: "calls s t \<Longrightarrow> cfg t = cfg s \<and> node t = node s \<and> spi_fd t = spi_fd s \<and>
    writes t = writes s \<and> (kfail s = [] \<longrightarrow> kfail t = [])"
  by (auto simp: calls_def radio_def)

lemma radio_calls: "keeps radio m \<Longrightarrow> keeps calls m"
  by (auto simp: keeps_def calls_def radio_def)

lemma calls_xfer [calls_rules]: "keeps calls (ezsp_xfer spi p fid ps got buf)"
proof (rule keepsI)
  fix s x t assume "ezsp_xfer spi p fid ps got buf s = Some (x, t)"
  then obtain cls rx where "do_cmd spi p (ezsp_tx (cfg_ezsp_version (cfg s)) (ezsp_seq s) fid ps) 260 True
       (s\<lparr>ezsp_seq := ezsp_seq s + 1\<rparr>) = Some ((cls, rx), t)"
    by (cases x) (auto elim: xfer_cases)
  from keepsD [OF ncp.port_radio this] show "calls s t" by (simp add: calls_def radio_def)
qed

lemma calls_cmd [calls_rules]: "keeps calls (ezsp_cmd spi p fid ps buf)"
  unfolding ezsp_cmd_def by (intro calls_seq calls_rules)

lemma calls_poll_callback [calls_rules]: "keeps calls (ezsp_poll_callback spi p buf)"
  unfolding ezsp_poll_callback_def by (intro calls_seq calls_rules)

lemma calls_set_config [calls_rules]: "keeps calls (ezsp_set_config spi p cid v)"
  unfolding ezsp_set_config_def by (intro calls_seq calls_rules)

lemma calls_permit [calls_rules]: "keeps calls (ezsp_permit spi p secs)"
  unfolding ezsp_permit_def by (intro calls_seq calls_rules)

lemma calls_usleep [calls_rules]: "keeps calls (usleep us)"
  by (rule radio_calls) (rule radio_usleep)

lemma calls_find_loop [calls_rules]: "keeps calls (find_loop i spi p pan out)"
proof (induction i arbitrary: out)
  case (Suc i)
  then show ?case unfolding find_loop.simps by (intro calls_seq calls_rules)
qed (simp add: keeps_def calls.refl)

lemma calls_scan_find [calls_rules]: "keeps calls (scan_find spi p c pan out)"
  unfolding scan_find_def by (intro calls_seq calls_rules)


section \<open>Conversations\<close>

text \<open>
  \<open>converses c q es m\<close>: the bytes \<open>m\<close> are the NCP's answers to the commands \<open>es\<close>, in this
  order and from sequence byte \<open>q\<close> on. A command is its id and parameters; its answer is the
  id that comes back and the payload.
\<close>

fun converses :: "cfg \<Rightarrow> u8 \<Rightarrow> (u8 \<times> u8 list \<times> u8 \<times> u8 list) list \<Rightarrow> u8 list \<Rightarrow> bool" where
  "converses c q [] m \<longleftrightarrow> m = []"
| "converses c q ((fid, ps, rid, payload) # es) m \<longleftrightarrow>
     length ps \<le> 155 \<and> length payload \<le> 8 \<and>
     (\<exists>h m1 m2. m = m1 @ m2 \<and>
        answers c (ezsp_tx (cfg_ezsp_version c) q fid ps)
          (spi_frame (ezsp_header (cfg_ezsp_version c) h rid @ payload)) m1 \<and>
        converses c (q + 1) es m2)"

lemma xfer_replied:
  assumes "kfail s = []" and "length payload \<le> length buf"
    and "converses (cfg s) (ezsp_seq s) ((fid, ps, rid, payload) # es) m" and "miso s = m @ rest"
  shows "\<exists>t m2. ezsp_xfer spi p fid ps got buf s =
      Some ((int (length payload), rid, payload @ drop (length payload) buf), t) \<and>
    miso t = m2 @ rest \<and> converses (cfg t) (ezsp_seq t) es m2 \<and> kfail t = [] \<and> calls s t"
proof -
  from assms(3) obtain h m1 m2 where c: "m = m1 @ m2" "length ps \<le> 155" "length payload \<le> 8"
    "answers (cfg s) (ezsp_tx (cfg_ezsp_version (cfg s)) (ezsp_seq s) fid ps)
       (spi_frame (ezsp_header (cfg_ezsp_version (cfg s)) h rid @ payload)) m1"
    "converses (cfg s) (ezsp_seq s + 1) es m2"
    by auto
  have "length payload \<le> 250" "length payload \<le> length buf" using c(3) assms(2) by simp_all
  from xfer_reply [OF assms(1) c(2) length_ezsp_header this c(4), of "m2 @ rest" spi p got] assms(4) c(1)
  obtain t where t: "ezsp_xfer spi p fid ps got buf s =
      Some ((int (length payload), rid, payload @ drop (length payload) buf), t)"
    "miso t = m2 @ rest" "kfail t = []" "cfg t = cfg s" "ezsp_seq t = ezsp_seq s + 1"
    by (auto simp: header_id)
  moreover have "calls s t" using keepsD [OF calls_xfer t(1)] .
  ultimately show ?thesis using c(5) by auto
qed

lemma cmd_replied:
  assumes "kfail s = []" and "length payload \<le> length buf"
    and "converses (cfg s) (ezsp_seq s) ((fid, ps, rid, payload) # es) m" and "miso s = m @ rest"
  obtains t m2 where "ezsp_cmd spi p fid ps buf s =
      Some ((int (length payload), payload @ drop (length payload) buf), t)"
    "miso t = m2 @ rest" "converses (cfg t) (ezsp_seq t) es m2" "kfail t = []" "calls s t"
  using xfer_replied [OF assms, of spi p 0] by (auto simp: ezsp_cmd_def)

lemma poll_replied:
  assumes "kfail s = []" and "length payload \<le> length buf"
    and "converses (cfg s) (ezsp_seq s) ((EZSP_CALLBACK, [], rid, payload) # es) m" and "miso s = m @ rest"
  obtains t m2 where "ezsp_poll_callback spi p buf s =
      Some ((if rid = EZSP_NO_CALLBACKS then 0 else rid, payload @ drop (length payload) buf), t)"
    "miso t = m2 @ rest" "converses (cfg t) (ezsp_seq t) es m2" "kfail t = []" "calls s t"
  using xfer_replied [OF assms, of spi p 0] by (auto simp: ezsp_poll_callback_def)

lemma converses_sleep: "usleep us s = Some (x, t) \<Longrightarrow> calls s t \<and> miso t = miso s \<and> ezsp_seq t = ezsp_seq s"
  using keepsD [OF calls_usleep] by (auto simp: usleep_def)


section \<open>The frame of a command\<close>

text \<open>
  Every command opens the lines and the SPI device, resets the NCP unless told not to, works,
  and closes what it opened.
\<close>

definition session :: "(int \<Rightarrow> pins \<Rightarrow> (sys, 'a) cmd) \<Rightarrow> (sys, 'a) cmd" where
  "session body s = do {
     (p, s) \<leftarrow> pins_open s;
     (spi, s) \<leftarrow> spi_open s;
     (_, s) \<leftarrow> (if \<not> cfg_no_reset (cfg s) then ncp_reset p s else Some ((), s));
     (r, s) \<leftarrow> body spi p s;
     (_, s) \<leftarrow> release spi p s;
     Some (r, s)
   }"

lemma cmd_scan_session: "cmd_scan out = session (\<lambda>spi p. scan_body spi p out)"
  by (simp add: cmd_scan_def session_def fun_eq_iff)

definition all_closed :: "int \<Rightarrow> pins \<Rightarrow> event list" where
  \<comment> \<open>what \<open>close(spi)\<close> and \<open>pins_close\<close> leave in the trace\<close>
  "all_closed spi p = CloseFd spi # map CloseFd (filter (\<lambda>fd. 0 \<le> fd)
     [pin_cs p, pin_reset p, pin_wake p, pin_nssel_int p, pin_hint p])"

lemma release_closes: "release spi p s = Some (x, t) \<Longrightarrow> trace t = trace s @ all_closed spi p"
  using release_trace [of spi p s t] by (simp add: all_closed_def)

lemma session_cases:
  assumes "session body s = Some (r, t)"
  obtains p s0 spi s1 s2 s3 where "pins_open s = Some (p, s0)" and "spi_open s0 = Some (spi, s1)"
    and "(if \<not> cfg_no_reset (cfg s1) then ncp_reset p s1 else Some ((), s1)) = Some ((), s2)"
    and "body spi p s2 = Some (r, s3)" and "trace t = trace s3 @ all_closed spi p"
proof -
  from assms obtain p s0 spi s1 s2 s3 where "pins_open s = Some (p, s0)" "spi_open s0 = Some (spi, s1)"
    "(if \<not> cfg_no_reset (cfg s1) then ncp_reset p s1 else Some ((), s1)) = Some ((), s2)"
    "body spi p s2 = Some (r, s3)" "release spi p s3 = Some ((), t)"
    by (auto simp: session_def Option.bind_eq_Some_conv)
  then show thesis by (intro that) (auto dest: release_closes)
qed

lemma lives_release: "lives ioctls_ok (release spi p)"
  by (simp add: lives_def release_def pins_close_def close_fd_def ioctls_ok_def)

lemma lives_spi_open: "lives ioctls_ok spi_open"
  unfolding spi_open_def by (auto simp: lives_def ioctls_ok_def ioctl_def)

lemma session_lives:
  assumes "pins_open s = Some (p, s0)" and "kfail s0 = []" and "\<And>spi. lives ioctls_ok (body spi p)"
  shows "\<exists>r t. session body s = Some (r, t) \<and> kfail t = []"
proof -
  have "lives ioctls_ok (\<lambda>s. do { (spi, s) \<leftarrow> spi_open s;
      (_, s) \<leftarrow> (if \<not> cfg_no_reset (cfg s) then ncp_reset p s else Some ((), s));
      (r, s) \<leftarrow> body spi p s; (_, s) \<leftarrow> release spi p s; Some (r, s) })"
    by (intro lives_rules lives_spi_open lives_release assms(3))
  with assms(1,2) show ?thesis by (simp add: session_def lives_def ioctls_ok_def)
qed

lemma session_gives: "(\<And>spi p. gives Q (body spi p)) \<Longrightarrow> gives Q (session body)"
  unfolding session_def
  by (intro gives_then gives_case_prod_fun gives_bind [where P = Q and Q = Q] gives_return)


section \<open>Properties of the commands over EZSP\<close>

lemma lives_quiet: "lives ioctls_ok m \<Longrightarrow> kfail s = [] \<Longrightarrow> \<exists>x t. m s = Some (x, t)"
  by (auto simp: lives_def ioctls_ok_def)

lemma scan_body_code:
  "gives (\<lambda>(code, ls). code = (if \<exists>l \<in> set ls. is_network l then 0 else 1)) (scan_body spi p out)"
  unfolding scan_body_def
  by (intro gives_then gives_case_prod_fun gives_if gives_return gives_bind [OF scan_loop_count])
    (auto simp: filter_empty_conv)


definition node_id_sys :: sys where
  \<comment> \<open>the answer 0x1234 to "get node id" in the layout of version 8\<close>
  "node_id_sys = set_version 8 (sys0\<lparr>miso :=
     (replicate 8 0xFF @ replicate 0 0xFF @ spi_frame (ezsp_header 8 0x80 0x27 @ [0x34, 0x12])) @ []\<rparr>)"


text \<open>
  Whatever the NCP answers, a command leaves the caller's buffer at its size and returns -1
  or a length within it; with -1 the buffer and the id are untouched.
\<close>

theorem ezsp_xfer_bounds:
  assumes "ezsp_xfer spi p fid ps got buf s = Some ((n, got', buf'), t)"
  shows "length buf' = length buf \<and> -1 \<le> n \<and> n \<le> int (length buf) \<and>
      (n = -1 \<longrightarrow> got' = got \<and> buf' = buf)"
  using assms by (rule xfer_buffer_ezsp)

lemma silent_xfer: "\<exists>t. ezsp_xfer 9 sample_pins 0x27 [] 0 [7, 7] sys0 = Some ((-1, 0, [7, 7]), t)"
proof -
  have "\<exists>t. do_cmd 9 sample_pins (ezsp_tx 4 0 0x27 []) 260 True (sys0\<lparr>ezsp_seq := 1\<rparr>) =
      Some ((RSP_IDLE, replicate 260 0), t)"
    by (rule do_cmd_silent) (simp_all add: sys0_def)
  then show ?thesis by (auto simp: ezsp_xfer_def sys0_def default_cfg_def)
qed

theorem ezsp_xfer_bounds_witness: "length [7, 7 :: u8] = length [7, 7 :: u8] \<and> (-1 :: int) \<le> -1"
  using ezsp_xfer_bounds [of 9 sample_pins "0x27" "[]" 0 "[7, 7]" sys0 "-1" 0 "[7, 7]"] silent_xfer by auto

text \<open>
  A host that asks for the NCP's own version (up to 8) gets it in one exchange, without a
  reset, and from then on uses that version's layout; nothing else of the configuration changes.
\<close>

theorem ezsp_init_agrees:
  assumes "kfail s = []" and "length h = 3" and "length stack = 3"
  defines "want \<equiv> ucast (cfg_ezsp_want (cfg s)) :: u8"
  assumes "want \<le> 8"
    and "answers (cfg s) (ezsp_tx 4 (ezsp_seq s) EZSP_VERSION [want]) (version_reply h want stack) m"
    and "miso s = m @ rest"
  shows "\<exists>t. ezsp_init spi p s = Some (int (unat want), t) \<and> miso t = rest \<and> kfail t = [] \<and>
     cfg t = (cfg s)\<lparr>cfg_ezsp_version := ucast want\<rparr>"
  using assms init_direct by blast

text \<open>A reply to the first or second version command of a fresh process.\<close>

definition version_bytes :: "u8 \<Rightarrow> u8 list" where
  "version_bytes v = replicate 7 0xFF @ replicate 0 0xFF @ version_reply [0, 0x80, 0] v [2, 0x10, 0x58]"

lemma version_answers:
  "cfg_wait_bytes c = 512 \<Longrightarrow> answers c (ezsp_tx 4 sq EZSP_VERSION [w]) (version_reply [0, 0x80, 0] v [2, 0x10, 0x58]) (version_bytes v)"
  unfolding version_bytes_def
  by (rule answersI) (simp_all add: version_reply_def spi_frame_def ezsp_tx_def ezsp_header_def)

lemma sys0_cfg: "kfail sys0 = []" "ezsp_seq sys0 = 0" "cfg_wait_bytes (cfg sys0) = 512" "cfg_ezsp_want (cfg sys0) = 4"
  by (simp_all add: sys0_def default_cfg_def)

lemma sys0_default: "cfg sys0 = default_cfg"
  by (simp add: sys0_def)

theorem ezsp_init_agrees_witness:
  "\<exists>t. ezsp_init 9 sample_pins (sys0\<lparr>miso := version_bytes 4 @ []\<rparr>) = Some (4, t) \<and>
     cfg t = default_cfg\<lparr>cfg_ezsp_version := 4\<rparr>"
proof -
  let ?s = "sys0\<lparr>miso := version_bytes 4 @ []\<rparr>"
  have s: "kfail ?s = []" "ezsp_seq ?s = 0" "cfg ?s = default_cfg" "ucast (cfg_ezsp_want (cfg ?s)) = (4 :: u8)"
    "cfg_wait_bytes (cfg ?s) = 512" "miso ?s = version_bytes 4 @ []"
    by (simp_all add: sys0_def default_cfg_def)
  from ezsp_init_agrees [where s = ?s and h = "[0, 0x80, 0]" and stack = "[2, 0x10, 0x58]" and spi = 9
      and p = sample_pins, unfolded s(2,4), OF s(1) _ _ _ version_answers [OF s(5)] s(6)]
  show ?thesis by (auto simp: sys0_default)
qed



text \<open>
  C17: Whatever the NCP answers, \<open>ezsp_init\<close> returns -1 or a version of at most 8 that it also
  left in the configuration, and it changes nothing else there.
\<close>

theorem ezsp_init_sound:
  assumes "ezsp_init spi p s = Some (r, t)"
  shows "(r = -1 \<or> 0 \<le> r \<and> r \<le> 8 \<and> uint (cfg_ezsp_version (cfg t)) = r) \<and> version_only s t"
  using init_result [OF assms] keepsD [OF version_only_init assms] by simp

theorem ezsp_init_sound_witness:
  "\<exists>r t. ezsp_init 9 sample_pins sys0 = Some (r, t) \<and> version_only sys0 t"
proof -
  obtain r t where "ezsp_init 9 sample_pins sys0 = Some (r, t)"
    using lives_quiet [OF lives_ezsp_init sys0_cfg(1), of 9 sample_pins] by blast
  with ezsp_init_sound [OF this] show ?thesis by blast
qed



text \<open>
  C33: \<open>cmd_scan\<close> releases what it took on every path: it ends by closing the SPI device and
  every line it holds, in that order, whatever happened before; and its exit code is 0 exactly
  when it printed a network.
\<close>

theorem cmd_scan_releases:
  assumes "cmd_scan out s = Some ((code, ls), t)"
  shows "\<exists>s0 ev p spi. pins_open s = Some (p, s0) \<and>
     trace t = ev @ CloseFd spi # map CloseFd (filter (\<lambda>fd. 0 \<le> fd)
       [pin_cs p, pin_reset p, pin_wake p, pin_nssel_int p, pin_hint p]) \<and>
     code = (if \<exists>l \<in> set ls. is_network l then 0 else 1)"
proof -
  from assms obtain s0 p spi s2 s1 where o: "pins_open s = Some (p, s0)" and r: "release spi p s1 = Some ((), t)"
    and b: "scan_body spi p out s2 = Some ((code, ls), s1)"
    by (auto simp: cmd_scan_def Option.bind_eq_Some_conv)
  have "code = (if \<exists>l \<in> set ls. is_network l then 0 else 1)" using givesD [OF scan_body_code b] by simp
  with o release_trace [OF r] show ?thesis
    by blast
qed

theorem cmd_scan_releases_witness:
  "\<exists>r t ev spi. cmd_scan (replicate 64 0) v1_sys = Some (r, t) \<and>
     trace t = ev @ map CloseFd [spi, 6, 3, 4, 5, 7]"
proof -
  let ?s = "v1_sys\<lparr>cs_follows := True, line_results := [], cfg := board_lines whw03 default_cfg,
    trace := [LineOut 49 True, LineOut 55 True, LineOut 56 True, LineOut 45 True, LineIn 50]\<rparr>"
  have k: "ioctls_ok ?s" by (simp add: ioctls_ok_def v1_sys_def sys0_def)
  have "lives ioctls_ok (\<lambda>s. do { (spi, s) \<leftarrow> spi_open s;
      (_, s) \<leftarrow> (if \<not> cfg_no_reset (cfg s) then ncp_reset opened_pins s else Some ((), s));
      (r, s) \<leftarrow> scan_body spi opened_pins (replicate 64 0) s;
      (_, s) \<leftarrow> release spi opened_pins s; Some (r, s) })"
    by (intro lives_rules lives_spi_open lives_release)
  note l = this
  obtain code ls t where r: "cmd_scan (replicate 64 0) v1_sys = Some ((code, ls), t)"
    by (rule livesE [OF l k]) (auto simp: cmd_scan_def v1_opens)
  show ?thesis
    using cmd_scan_releases [OF r] r by (auto simp: v1_opens opened_pins_def)
qed

text \<open>
  The seconds asked of the NCP by \<open>ezsp_permit\<close> are those of the caller, cut at 254: the
  value 255, which would open the network for ever, is never sent.
\<close>

theorem permit_bounded: "unat (permit_seconds n) = min (unat n) 254"
proof (cases "n > 254")
  case True
  then have "unat n > 254" by (simp add: word_less_nat_alt)
  with True show ?thesis by (simp add: permit_seconds_def)
next
  case False
  then have "unat n \<le> 254" by (simp add: word_less_nat_alt)
  with False show ?thesis by (simp add: permit_seconds_def unsigned_ucast_eq take_bit_nat_eq_self_iff)
qed
end
