(* ===== verification/Zcl.thy ===== *)
theory Zcl
  imports Ezsp "HOL-Library.Sublist"
begin

text \<open>
  The Zigbee node's application layer (zcl.c up to \<open>ezsp_apply_config\<close>): transmit power, the
  jittered report interval, the endpoint and its configuration, unicast frames, the answer to
  a Read Attributes on the Basic cluster, and the periodic report. Messages that the code
  prints or formats are values of a datatype; an answer is the byte list that is sent.
\<close>

unbundle bit_operations_syntax

section \<open>Identifiers (ezsp-spi.h)\<close>

abbreviation EZSP_ADD_ENDPOINT :: u8 where "EZSP_ADD_ENDPOINT \<equiv> 0x02"
abbreviation EZSP_SEND_UNICAST :: u8 where "EZSP_SEND_UNICAST \<equiv> 0x34"
abbreviation EZSP_SET_RADIO_POWER :: u8 where "EZSP_SET_RADIO_POWER \<equiv> 0x99"
abbreviation EZSP_CONFIG_STACK_PROFILE :: u8 where "EZSP_CONFIG_STACK_PROFILE \<equiv> 0x0C"
abbreviation EZSP_CONFIG_SECURITY_LEVEL :: u8 where "EZSP_CONFIG_SECURITY_LEVEL \<equiv> 0x0D"
abbreviation EZSP_CONFIG_TC_ADDRESS_CACHE_SIZE :: u8 where "EZSP_CONFIG_TC_ADDRESS_CACHE_SIZE \<equiv> 0x19"
abbreviation EZSP_CONFIG_KEY_TABLE_SIZE :: u8 where "EZSP_CONFIG_KEY_TABLE_SIZE \<equiv> 0x1E"
abbreviation ZCL_PROFILE_HA :: u16 where "ZCL_PROFILE_HA \<equiv> 0x0104"
abbreviation ZCL_PROFILE_ZDO :: u16 where "ZCL_PROFILE_ZDO \<equiv> 0x0000"
abbreviation ZCL_DEVICE_RANGE_EXTENDER :: u16 where "ZCL_DEVICE_RANGE_EXTENDER \<equiv> 0x0008"
abbreviation ZCL_CLUSTER_BASIC :: u16 where "ZCL_CLUSTER_BASIC \<equiv> 0x0000"
abbreviation ZDO_MGMT_PERMIT_JOINING_REQ :: u16 where "ZDO_MGMT_PERMIT_JOINING_REQ \<equiv> 0x0036"
abbreviation ZCL_ENDPOINT :: u8 where "ZCL_ENDPOINT \<equiv> 1"

definition lo8 :: "u16 \<Rightarrow> u8" where "lo8 v = ucast (v AND 0xFF)"
definition hi8 :: "u16 \<Rightarrow> u8" where "hi8 v = ucast (drop_bit 8 v)"


section \<open>Transmit power\<close>

datatype power_msg = PowerSet int | PowerRefused int u8

definition ezsp_set_power :: "int \<Rightarrow> pins \<Rightarrow> int \<Rightarrow> (sys, int \<times> power_msg) cmd" where
  "ezsp_set_power spi p dbm s = do {
     ((n, out), s) \<leftarrow> ezsp_cmd spi p EZSP_SET_RADIO_POWER [word_of_int dbm] (replicate 8 0) s;
     Some (if n < 1 \<or> out ! 0 \<noteq> EMBER_SUCCESS then (-1, PowerRefused dbm (status_of n out))
           else (0, PowerSet dbm), s)
   }"


section \<open>Identity and reporting interval\<close>

definition zcl_manufacturer :: string where "zcl_manufacturer = ''Linksys''"
definition zcl_model :: string where "zcl_model = ''WHW03V2''"
definition zcl_swbuild :: string where "zcl_swbuild = ''ezsp-spi 0.1''"

definition report_interval :: "sys \<Rightarrow> u32 \<times> sys" where
  "report_interval s =
     (let base = cfg_report_secs (cfg s); span = base div 5
      in if span = 0 then (base, s)
         else let (r, s) = take_rand s in (base - span + of_nat r mod (2 * span + 1), s))"

text \<open>The name is cached in a static buffer of 32 bytes; an empty one is asked for again.\<close>

definition zcl_location :: "sys \<Rightarrow> string \<times> sys" where
  "zcl_location s =
     (if host (node s) \<noteq> [] then (host (node s), s)
      else let h = (case hostname (node s) of
                      None \<Rightarrow> ''openwrt''
                    | Some h \<Rightarrow> c_string (take 31 h))
           in (h, s\<lparr>node := (node s)\<lparr>host := h\<rparr>\<rparr>))"


section \<open>Endpoint and unicast\<close>

definition endpoint_params :: "u8 list" where
  "endpoint_params = [ZCL_ENDPOINT, lo8 ZCL_PROFILE_HA, hi8 ZCL_PROFILE_HA,
     lo8 ZCL_DEVICE_RANGE_EXTENDER, hi8 ZCL_DEVICE_RANGE_EXTENDER, 1, 1, 0,
     lo8 ZCL_CLUSTER_BASIC, hi8 ZCL_CLUSTER_BASIC]"

definition ezsp_add_endpoint :: "int \<Rightarrow> pins \<Rightarrow> (sys, int) cmd" where
  "ezsp_add_endpoint spi p s = do {
     ((n, out), s) \<leftarrow> ezsp_cmd spi p EZSP_ADD_ENDPOINT endpoint_params (replicate 8 0) s;
     Some (if n \<ge> 1 \<and> out ! 0 = 0 then 0 else -1, s)
   }"

definition unicast_params :: "u16 \<Rightarrow> u16 \<Rightarrow> u8 \<Rightarrow> u8 list \<Rightarrow> u8 list" where
  "unicast_params dest cluster tag payload =
     [0x00, lo8 dest, hi8 dest,
      lo8 ZCL_PROFILE_HA, hi8 ZCL_PROFILE_HA, lo8 cluster, hi8 cluster, ZCL_ENDPOINT, ZCL_ENDPOINT,
      0x40, 0x01, 0x00, 0x00, 0x00, tag, of_nat (length payload)] @ payload"

definition zcl_send :: "int \<Rightarrow> pins \<Rightarrow> u16 \<Rightarrow> u16 \<Rightarrow> u8 list \<Rightarrow> (sys, int) cmd" where
  "zcl_send spi p dest cluster payload s =
     (if length payload > 64 then Some (-1, s)
      else do {
        let tag = zcl_tag (node s);
        ((n, out), s) \<leftarrow> ezsp_cmd spi p EZSP_SEND_UNICAST (unicast_params dest cluster tag payload)
           (replicate 8 0) (s\<lparr>node := (node s)\<lparr>zcl_tag := tag + 1\<rparr>\<rparr>);
        Some (if n < 1 then -1 else if out ! 0 = EMBER_SUCCESS then 0 else -1, s)
      })"


section \<open>Attributes of the Basic cluster\<close>

datatype attr_val = \<comment> \<open>ZCL type with a byte or a string\<close>
    AttrNum u8 u8
  | AttrStr u8 string

definition basic_attr :: "u16 \<Rightarrow> string \<Rightarrow> attr_val option" where
  "basic_attr aid location =
     (if aid = 0x0000 then Some (AttrNum 0x20 3)
      else if aid = 0x0001 then Some (AttrNum 0x20 1)
      else if aid = 0x0002 then Some (AttrNum 0x20 0x58)
      else if aid = 0x0003 then Some (AttrNum 0x20 2)
      else if aid = 0x0004 then Some (AttrStr 0x42 zcl_manufacturer)
      else if aid = 0x0005 then Some (AttrStr 0x42 zcl_model)
      else if aid = 0x0007 then Some (AttrNum 0x30 1)
      else if aid = 0x0010 then Some (AttrStr 0x42 location)
      else if aid = 0x4000 then Some (AttrStr 0x42 zcl_swbuild)
      else None)"

fun attr_record :: "u16 \<Rightarrow> attr_val option \<Rightarrow> u8 list" where
  "attr_record aid None = [lo8 aid, hi8 aid, 0x86]"
| "attr_record aid (Some (AttrNum ty v)) = [lo8 aid, hi8 aid, 0x00, ty, v]"
| "attr_record aid (Some (AttrStr ty t)) = [lo8 aid, hi8 aid, 0x00, ty, of_nat (length t)] @ map of_char t"

definition zcl_append_attr :: "u8 list \<Rightarrow> nat \<Rightarrow> u16 \<Rightarrow> (sys, u8 list) cmd" where
  \<comment> \<open>the buffer's first bytes and its size; a record that does not fit is left out\<close>
  "zcl_append_attr b lim aid s =
     (let (location, s) = (if aid = 0x0010 then zcl_location s else ([], s));
          record = attr_record aid (basic_attr aid location)
      in Some (if length b + length record > lim then b else b @ record, s))"

text \<open>The loop over the attribute ids of a request, from its current byte on.\<close>

fun append_attrs :: "u8 list \<Rightarrow> nat \<Rightarrow> u8 list \<Rightarrow> (sys, u8 list) cmd" where
  "append_attrs b lim (lo # hi # ids) s = do {
     (b, s) \<leftarrow> zcl_append_attr b lim (le16 lo hi) s;
     append_attrs b lim ids s
   }"
| "append_attrs b lim ids s = Some (b, s)"


section \<open>Incoming messages and reports\<close>

datatype incoming =
    Ignored
  | PermitOpened u8 u16     \<comment> \<open>seconds, sender\<close>
  | PermitClosed u16
  | ReadAnswered u16 "u8 list" int   \<comment> \<open>sender, response, what \<open>zcl_send\<close> returned\<close>

definition zcl_read :: "int \<Rightarrow> pins \<Rightarrow> u16 \<Rightarrow> u16 \<Rightarrow> u8 list \<Rightarrow> (sys, incoming) cmd" where
  \<comment> \<open>from the frame control on: \<open>zcl\<close> is the ZCL frame\<close>
  "zcl_read spi p cluster sender zcl s =
     (let fc = zcl ! 0; i = (if fc AND 0x04 \<noteq> 0 then 3 else 1)
      in if i + 1 \<ge> length zcl then Some (Ignored, s)
         else if cluster \<noteq> ZCL_CLUSTER_BASIC then Some (Ignored, s)
         else if fc AND 0x03 \<noteq> 0 \<or> zcl ! (i + 1) \<noteq> 0 then Some (Ignored, s)
         else do {
           (resp, s) \<leftarrow> append_attrs [0x18, zcl ! i, 0x01] 96 (drop (i + 2) zcl) s;
           (r, s) \<leftarrow> zcl_send spi p sender ZCL_CLUSTER_BASIC resp s;
           Some (ReadAnswered sender resp r, s)
         })"

definition zcl_handle_incoming :: "int \<Rightarrow> pins \<Rightarrow> u8 list \<Rightarrow> (sys, incoming) cmd" where
  "zcl_handle_incoming spi p m s =
     (if length m < 20 then Some (Ignored, s)
      else let profile = le16 (m ! 1) (m ! 2); cluster = le16 (m ! 3) (m ! 4);
               sender = le16 (m ! 14) (m ! 15); zlen = unat (m ! 18);
               zcl = take zlen (drop 19 m)
           in if zlen < 3 \<or> length m < 19 + zlen then Some (Ignored, s)
              else if profile = ZCL_PROFILE_ZDO \<and> cluster = ZDO_MGMT_PERMIT_JOINING_REQ
              then Some (if zcl ! 1 \<noteq> 0 then PermitOpened (zcl ! 1) sender else PermitClosed sender, s)
              else zcl_read spi p cluster sender zcl s)"

definition report_frame :: "u8 list" where
  "report_frame = [0x18, 0, 0x0A, 0x00, 0x00, 0x20, 3]"

definition count_report :: "int \<Rightarrow> sys \<Rightarrow> sys" where
  "count_report r s =
     (if r < 0 then s\<lparr>node := (node s)\<lparr>report_failed := report_failed (node s) + 1\<rparr>\<rparr>
      else s\<lparr>node := (node s)\<lparr>report_count := report_count (node s) + 1\<rparr>\<rparr>)"

definition set_report_last :: "int \<Rightarrow> sys \<Rightarrow> sys" where
  "set_report_last now s = s\<lparr>node := (node s)\<lparr>report_last := now\<rparr>\<rparr>"

definition zcl_report :: "int \<Rightarrow> pins \<Rightarrow> (sys, unit) cmd" where
  "zcl_report spi p s = do {
     let (now, s) = take_clock s;
     (r, s) \<leftarrow> zcl_send spi p 0x0000 ZCL_CLUSTER_BASIC report_frame (set_report_last now s);
     Some ((), count_report r s)
   }"


section \<open>The configuration every command applies\<close>

definition ezsp_apply_config :: "int \<Rightarrow> pins \<Rightarrow> (sys, unit) cmd" where
  "ezsp_apply_config spi p s = do {
     (_, s) \<leftarrow> ezsp_set_config spi p EZSP_CONFIG_STACK_PROFILE 2 s;
     (_, s) \<leftarrow> ezsp_set_config spi p EZSP_CONFIG_SECURITY_LEVEL 5 s;
     (_, s) \<leftarrow> ezsp_set_config spi p EZSP_CONFIG_KEY_TABLE_SIZE 4 s;
     (_, s) \<leftarrow> ezsp_set_config spi p EZSP_CONFIG_TC_ADDRESS_CACHE_SIZE 2 s;
     (_, s) \<leftarrow> ezsp_add_endpoint spi p s;
     Some ((), s)
   }"


section \<open>The calculi over these functions\<close>

lemma boot_node: "keeps (boots_app p) m \<Longrightarrow> keeps (boots_app p) (\<lambda>s. m (s\<lparr>node := g s\<rparr>))"
  by (fastforce simp: keeps_def boots_app_def)

lemma lives_node: "lives ioctls_ok m \<Longrightarrow> lives ioctls_ok (\<lambda>s. m (s\<lparr>node := g s\<rparr>))"
  by (auto simp: lives_def ioctls_ok_def)

lemma length_unicast [simp]: "length (unicast_params dest cluster tag payload) = 16 + length payload"
  by (simp add: unicast_params_def)

lemma lives_set_power [lives_rules]: "lives ioctls_ok (ezsp_set_power spi p dbm)"
  unfolding ezsp_set_power_def by (intro lives_rules) simp_all

lemma boot_set_power [boot_rules]: "pins_distinct p \<Longrightarrow> keeps (boots_app p) (ezsp_set_power spi p dbm)"
  unfolding ezsp_set_power_def by (intro boot_seq boot_rules)

lemma calls_set_power [calls_rules]: "keeps calls (ezsp_set_power spi p dbm)"
  unfolding ezsp_set_power_def by (intro calls_seq calls_rules)

lemma lives_set_config [lives_rules]: "lives ioctls_ok (ezsp_set_config spi p cid v)"
  unfolding ezsp_set_config_def by (intro lives_rules) simp_all

lemma boot_set_config [boot_rules]: "pins_distinct p \<Longrightarrow> keeps (boots_app p) (ezsp_set_config spi p cid v)"
  unfolding ezsp_set_config_def by (intro boot_seq boot_rules)

lemma lives_permit [lives_rules]: "lives ioctls_ok (ezsp_permit spi p secs)"
  unfolding ezsp_permit_def by (intro lives_rules) simp_all

lemma boot_permit [boot_rules]: "pins_distinct p \<Longrightarrow> keeps (boots_app p) (ezsp_permit spi p secs)"
  unfolding ezsp_permit_def by (intro boot_seq boot_rules)

lemma lives_add_endpoint [lives_rules]: "lives ioctls_ok (ezsp_add_endpoint spi p)"
  unfolding ezsp_add_endpoint_def by (intro lives_rules) (simp add: endpoint_params_def)

lemma boot_add_endpoint [boot_rules]: "pins_distinct p \<Longrightarrow> keeps (boots_app p) (ezsp_add_endpoint spi p)"
  unfolding ezsp_add_endpoint_def by (intro boot_seq boot_rules)

lemma calls_add_endpoint [calls_rules]: "keeps calls (ezsp_add_endpoint spi p)"
  unfolding ezsp_add_endpoint_def by (intro calls_seq calls_rules)

lemma lives_apply_config [lives_rules]: "lives ioctls_ok (ezsp_apply_config spi p)"
  unfolding ezsp_apply_config_def by (intro lives_rules)

lemma boot_apply_config [boot_rules]: "pins_distinct p \<Longrightarrow> keeps (boots_app p) (ezsp_apply_config spi p)"
  unfolding ezsp_apply_config_def by (intro boot_seq boot_rules)

lemma calls_apply_config [calls_rules]: "keeps calls (ezsp_apply_config spi p)"
  unfolding ezsp_apply_config_def by (intro calls_seq calls_rules)

lemma lives_zcl_send [lives_rules]: "lives ioctls_ok (zcl_send spi p dest cluster payload)"
  unfolding zcl_send_def by (intro lives_rules lives_node) simp

lemma boot_zcl_send [boot_rules]: "pins_distinct p \<Longrightarrow> keeps (boots_app p) (zcl_send spi p dest cluster payload)"
  unfolding zcl_send_def by (intro boot_seq boot_node boot_rules)

text \<open>The answer's bytes involve no exchange with the NCP.\<close>

definition local_only :: "sys \<Rightarrow> sys \<Rightarrow> bool" where
  \<comment> \<open>nothing outside the process; at most the cached host name changed\<close>
  "local_only s t \<longleftrightarrow> (\<exists>h. t = s\<lparr>node := (node s)\<lparr>host := h\<rparr>\<rparr>)"

interpretation local_only: frame_rel local_only
proof
  show "local_only s s" for s unfolding local_only_def by (rule exI [of _ "host (node s)"]) simp
  show "local_only s u" if "local_only s t" "local_only t u" for s t u
    using that by (auto simp: local_only_def)
qed

lemma local_location: "zcl_location s = (l, t) \<Longrightarrow> local_only s t"
  using local_only.refl by (auto simp: zcl_location_def local_only_def Let_def split: if_splits)

lemma append_attr_total: "\<exists>b' t. zcl_append_attr b lim aid s = Some (b', t) \<and> local_only s t"
  by (cases "zcl_location s") (auto simp: zcl_append_attr_def Let_def local_only.refl dest: local_location)

lemma append_attrs_total: "\<exists>b' t. append_attrs b lim ids s = Some (b', t) \<and> local_only s t"
proof (induction b lim ids s rule: append_attrs.induct)
  case (1 b lim lo hi ids s)
  obtain b1 s1 where 2: "zcl_append_attr b lim (le16 lo hi) s = Some (b1, s1)" "local_only s s1"
    using append_attr_total by blast
  obtain b2 s2 where "append_attrs b1 lim ids s1 = Some (b2, s2)" "local_only s1 s2"
    using "1.IH" [OF 2(1) refl] by blast
  with 2 show ?case using local_only.trans by auto
qed (auto intro: local_only.refl)

lemma local_only_ok: "local_only s t \<Longrightarrow> trace t = trace s \<and> kfail t = kfail s"
  by (auto simp: local_only_def)

lemma append_attrs_local: "append_attrs b lim ids s = Some (b', t) \<Longrightarrow> local_only s t"
  using append_attrs_total [of b lim ids s] by auto

lemma lives_append_attrs [lives_rules]: "lives ioctls_ok (append_attrs b lim ids)"
  unfolding lives_def ioctls_ok_def
proof (intro allI impI)
  fix s :: sys assume s: "kfail s = []"
  obtain b' t where "append_attrs b lim ids s = Some (b', t)" "local_only s t"
    using append_attrs_total by blast
  with s local_only_ok [of s t] show "\<exists>x t. append_attrs b lim ids s = Some (x, t) \<and> kfail t = []" by simp
qed

lemma boot_append_attrs [boot_rules]: "keeps (boots_app p) (append_attrs b lim ids)"
  by (rule keepsI) (simp add: append_attrs_local local_only_ok boots_app_trace)

lemma lives_zcl_read [lives_rules]: "lives ioctls_ok (zcl_read spi p cluster sender zcl)"
  unfolding zcl_read_def Let_def by (intro lives_rules)

lemma boot_zcl_read [boot_rules]: "pins_distinct p \<Longrightarrow> keeps (boots_app p) (zcl_read spi p cluster sender zcl)"
  unfolding zcl_read_def Let_def by (intro boot_seq boot_rules)

lemma lives_zcl_handle_incoming [lives_rules]: "lives ioctls_ok (zcl_handle_incoming spi p m)"
  unfolding zcl_handle_incoming_def Let_def by (intro lives_rules)

lemma boot_zcl_handle_incoming [boot_rules]:
  "pins_distinct p \<Longrightarrow> keeps (boots_app p) (zcl_handle_incoming spi p m)"
  unfolding zcl_handle_incoming_def Let_def by (intro boot_seq boot_rules)

lemma take_clock_outside: "trace (snd (take_clock s)) = trace s \<and> kfail (snd (take_clock s)) = kfail s \<and> cfg (snd (take_clock s)) = cfg s"
  by (simp add: take_clock_def split: list.splits)

lemma take_rand_outside: "trace (snd (take_rand s)) = trace s \<and> kfail (snd (take_rand s)) = kfail s \<and> cfg (snd (take_rand s)) = cfg s"
  by (simp add: take_rand_def split: list.splits)

text \<open>A function that only updates the node's own state is invisible outside.\<close>

definition quiet :: "(sys \<Rightarrow> sys) \<Rightarrow> bool" where
  "quiet f \<longleftrightarrow> (\<forall>s. trace (f s) = trace s \<and> kfail (f s) = kfail s)"

lemma quiet_node: "quiet (count_report r)" "quiet (set_report_last now)"
  by (simp_all add: quiet_def count_report_def set_report_last_def)

lemma boot_quiet: "quiet f \<Longrightarrow> keeps (boots_app p) (\<lambda>s. Some (x, f s))"
  by (simp add: keeps_def quiet_def boots_app_trace)

lemma lives_quiet_step: "quiet f \<Longrightarrow> lives ioctls_ok (\<lambda>s. Some (x, f s))"
  by (simp add: lives_def quiet_def ioctls_ok_def)

lemma boot_before: "quiet f \<Longrightarrow> keeps (boots_app p) m \<Longrightarrow> keeps (boots_app p) (\<lambda>s. m (f s))"
  unfolding keeps_def quiet_def boots_app_def by metis

lemma lives_before: "quiet f \<Longrightarrow> lives ioctls_ok m \<Longrightarrow> lives ioctls_ok (\<lambda>s. m (f s))"
  unfolding lives_def quiet_def ioctls_ok_def by metis

lemma lives_clock: "(\<And>now. lives ioctls_ok (f now)) \<Longrightarrow>
    lives ioctls_ok (\<lambda>s. let (now, s) = take_clock s in f now s)"
  using take_clock_outside unfolding lives_def ioctls_ok_def by (simp add: split_beta)

lemma boot_clock: "(\<And>now. keeps (boots_app p) (f now)) \<Longrightarrow>
    keeps (boots_app p) (\<lambda>s. let (now, s) = take_clock s in f now s)"
  using take_clock_outside unfolding keeps_def boots_app_def by (simp add: split_beta) metis

lemma lives_zcl_report [lives_rules]: "lives ioctls_ok (zcl_report spi p)"
  unfolding zcl_report_def
  by (intro lives_clock lives_bind lives_case_prod_fun lives_before [where f = "set_report_last now" for now]
      lives_quiet_step quiet_node lives_zcl_send)

lemma boot_zcl_report [boot_rules]: "pins_distinct p \<Longrightarrow> keeps (boots_app p) (zcl_report spi p)"
  unfolding zcl_report_def
  by (intro boot_clock boot_seq boot_before [where f = "set_report_last now" for now]
      boot_quiet quiet_node boot_zcl_send)


section \<open>Reading the attributes back\<close>

definition le_bytes :: "u16 \<Rightarrow> u8 list" where "le_bytes v = [lo8 v, hi8 v]"

lemma le16_le_bytes [simp]: "le16 (lo8 v) (hi8 v) = v"
proof -
  have m: "(0xFF :: u16) = mask 8" by (simp add: mask_eq_exp_minus_1)
  show ?thesis
    unfolding le16_def lo8_def hi8_def m by (rule bit_word_eqI) (auto simp: bit_simps)
qed

text \<open>
  How a client reads the records of a Read Attributes Response: id and status, then the type
  and a byte or a counted string; type 0x42 is a string.
\<close>

function decode_attrs :: "u8 list \<Rightarrow> (u16 \<times> attr_val option) list" where
  "decode_attrs bs = (case bs of
      lo # hi # st # r \<Rightarrow>
        (if st \<noteq> 0 then (le16 lo hi, None) # decode_attrs r
         else (case r of
             ty # v # r' \<Rightarrow>
               (if ty = 0x42
                then (le16 lo hi, Some (AttrStr ty (map (\<lambda>b. char_of (unat b)) (take (unat v) r')))) #
                     decode_attrs (drop (unat v) r')
                else (le16 lo hi, Some (AttrNum ty v)) # decode_attrs r')
           | _ \<Rightarrow> []))
    | _ \<Rightarrow> [])"
  by pat_completeness auto
termination by (relation "measure length") auto

declare decode_attrs.simps [simp del]

lemma unat_of_char: "unat (of_char c :: u8) = of_char c"
proof -
  have "of_char c < (256 :: nat)" by (rule nat_of_char_less_256)
  moreover have "(of_char c :: u8) = of_nat (of_char c)" by (simp only: of_nat_of_char)
  ultimately show ?thesis by (simp only: unsigned_of_nat) (simp add: take_bit_nat_eq_self)
qed

lemma bytes_of_string [simp]: "(\<lambda>b. char_of (unat b)) \<circ> (of_char :: char \<Rightarrow> u8) = id"
  by (simp add: fun_eq_iff unat_of_char)

fun plain_attr :: "attr_val option \<Rightarrow> bool" where
  "plain_attr None = True"
| "plain_attr (Some (AttrNum ty v)) = (ty \<noteq> 0x42)"
| "plain_attr (Some (AttrStr ty t)) = (ty = 0x42 \<and> length t \<le> 255)"

lemma decode_attr_record:
  "plain_attr a \<Longrightarrow> decode_attrs (attr_record aid a @ r) = (aid, a) # decode_attrs r"
proof (cases "(aid, a)" rule: attr_record.cases)
  case (3 aid' ty t)
  assume "plain_attr a"
  with 3 have l: "ty = 0x42" "length t \<le> 255" by auto
  then have "unat (of_nat (length t) :: u8) = length t" by (simp add: unsigned_of_nat take_bit_nat_eq_self)
  then show ?thesis using 3 l by (subst decode_attrs.simps) simp
qed (subst decode_attrs.simps; simp)+

lemma decode_nil [simp]: "decode_attrs [] = []"
  by (subst decode_attrs.simps) simp

lemma decode_records:
  "list_all (\<lambda>(aid, a). plain_attr a) as \<Longrightarrow>
   decode_attrs (concat (map (\<lambda>(aid, a). attr_record aid a) as)) = as"
  by (induction as) (auto simp: decode_attr_record)

section \<open>The answer to a read\<close>

definition attr_of :: "string \<Rightarrow> u16 \<Rightarrow> u16 \<times> attr_val option" where
  "attr_of location aid = (aid, basic_attr aid location)"

definition records :: "string \<Rightarrow> u16 list \<Rightarrow> u8 list" where
  "records location ids = concat (map (\<lambda>(aid, a). attr_record aid a) (map (attr_of location) ids))"

lemma records_Cons: "records l (aid # ids) = attr_record aid (basic_attr aid l) @ records l ids"
  by (simp add: records_def attr_of_def)

lemma records_Nil [simp]: "records l [] = []"
  by (simp add: records_def)

lemma location_cached: "zcl_location s = (l, t) \<Longrightarrow> fst (zcl_location t) = l"
  by (auto simp: zcl_location_def Let_def split: if_splits option.splits)

lemma location_short: "length (host (node s)) \<le> 31 \<Longrightarrow> length (fst (zcl_location s)) \<le> 31"
  by (auto simp: zcl_location_def Let_def c_string_def split: option.splits
      intro: order_trans [OF length_takeWhile_le])

lemma basic_attr_local: "aid \<noteq> 0x0010 \<Longrightarrow> basic_attr aid l = basic_attr aid l'"
  by (simp add: basic_attr_def)

lemma append_attr_spec:
  obtains t where "fst (zcl_location t) = fst (zcl_location s)"
    "zcl_append_attr b lim aid s =
       (let r = attr_record aid (basic_attr aid (fst (zcl_location s)))
        in Some (if length b + length r > lim then b else b @ r, t))"
proof (cases "aid = 0x0010")
  case True
  then show thesis
    using location_cached [of s] that [of "snd (zcl_location s)"]
    by (cases "zcl_location s") (simp add: zcl_append_attr_def Let_def)
next
  case False
  then show thesis
    using basic_attr_local [OF False, of "[]" "fst (zcl_location s)"] that [of s]
    by (simp add: zcl_append_attr_def Let_def)
qed

lemma append_step: "append_attrs b lim (le_bytes aid @ bs) s = do {
    (b, s) \<leftarrow> zcl_append_attr b lim aid s; append_attrs b lim bs s }"
  by (simp add: le_bytes_def)

text \<open>What fits is appended in order; what does not fit is left out.\<close>

lemma append_attrs_spec:
  assumes "length b \<le> lim"
  obtains ids' t where
    "append_attrs b lim (concat (map le_bytes ids)) s = Some (b @ records (fst (zcl_location s)) ids', t)"
    "subseq ids' ids" "length (b @ records (fst (zcl_location s)) ids') \<le> lim"
    "length (b @ records (fst (zcl_location s)) ids) \<le> lim \<Longrightarrow> ids' = ids"
  using assms
proof (induction ids arbitrary: b s thesis)
  case Nil
  show ?case by (rule Nil.prems(1) [where ids' = "[]" and t = s]) (use Nil.prems in auto)
next
  case (Cons aid ids)
  let ?l = "fst (zcl_location s)" and ?r = "attr_record aid (basic_attr aid (fst (zcl_location s)))"
  obtain s1 where s1: "fst (zcl_location s1) = ?l"
    "zcl_append_attr b lim aid s = Some (if length b + length ?r > lim then b else b @ ?r, s1)"
    by (rule append_attr_spec [of s b lim aid]) (simp add: Let_def)
  let ?b = "if length b + length ?r > lim then b else b @ ?r"
  have "length ?b \<le> lim" using Cons.prems(2) by simp
  then obtain ids' t where t: "append_attrs ?b lim (concat (map le_bytes ids)) s1 = Some (?b @ records ?l ids', t)"
    "subseq ids' ids" "length (?b @ records ?l ids') \<le> lim"
    "length (?b @ records ?l ids) \<le> lim \<Longrightarrow> ids' = ids"
    using Cons.IH [of ?b s1] s1(1) by metis
  show ?case
  proof (cases "length b + length ?r > lim")
    case True
    then show ?thesis
      using Cons.prems(1) t s1(2) by (auto simp: append_step records_Cons)
  next
    case False
    then show ?thesis
      using Cons.prems(1) [where ids' = "aid # ids'"] t s1(2)
      by (auto simp: append_step records_Cons)
  qed
qed

lemma plain_basic: "length l \<le> 255 \<Longrightarrow> plain_attr (basic_attr aid l)"
  by (simp add: basic_attr_def zcl_manufacturer_def zcl_model_def zcl_swbuild_def)

lemma decode_basic: "length l \<le> 255 \<Longrightarrow> decode_attrs (records l ids) = map (attr_of l) ids"
  unfolding records_def
  by (rule decode_records) (simp add: list_all_iff attr_of_def plain_basic)


text \<open>
  \<open>carries m profile cluster sender zcl\<close>: a buffer with an incomingMessageHandler whose
  fields are these; anything may follow the ZCL frame.
\<close>

definition carries :: "u8 list \<Rightarrow> u16 \<Rightarrow> u16 \<Rightarrow> u16 \<Rightarrow> u8 list \<Rightarrow> bool" where
  "carries m profile cluster sender zcl \<longleftrightarrow> 20 \<le> length m \<and> 19 + length zcl \<le> length m \<and>
     le16 (m ! 1) (m ! 2) = profile \<and> le16 (m ! 3) (m ! 4) = cluster \<and>
     le16 (m ! 14) (m ! 15) = sender \<and> unat (m ! 18) = length zcl \<and>
     take (length zcl) (drop 19 m) = zcl"

lemma handle_carried:
  assumes "carries m profile cluster sender zcl" and "3 \<le> length zcl"
    and "\<not> (profile = ZCL_PROFILE_ZDO \<and> cluster = ZDO_MGMT_PERMIT_JOINING_REQ)"
  shows "zcl_handle_incoming spi p m s = zcl_read spi p cluster sender zcl s"
  using assms by (auto simp: zcl_handle_incoming_def carries_def Let_def)

definition read_frame :: "u8 \<Rightarrow> u16 list \<Rightarrow> u8 list" where
  \<comment> \<open>a client's Read Attributes: frame control, sequence, command, ids\<close>
  "read_frame sq ids = [0x00, sq, 0x00] @ concat (map le_bytes ids)"

text \<open>
  C19: A Read Attributes on the Basic cluster, whatever its ids, is answered with a Read
  Attributes Response of the same sequence number that fits the buffer and reads back as the
  values of a subsequence of the ids asked for, in their order, unknown ones marked
  unsupported; it is all of them if their records fit. Up to 64 bytes it is sent to the
  sender in one unicast; a longer one is dropped without anything sent.
\<close>

theorem basic_read_decodes:
  assumes "carries m profile ZCL_CLUSTER_BASIC sender (read_frame sq ids)"
    and "length (host (node s)) \<le> 31"
  defines "l \<equiv> fst (zcl_location s)"
  shows "\<exists>resp ids' t. zcl_handle_incoming spi p m s = do {
        (r, s) \<leftarrow> zcl_send spi p sender ZCL_CLUSTER_BASIC resp t; Some (ReadAnswered sender resp r, s) } \<and>
    trace t = trace s \<and> length resp \<le> 96 \<and> take 3 resp = [0x18, sq, 0x01] \<and>
    decode_attrs (drop 3 resp) = map (attr_of l) ids' \<and> subseq ids' ids \<and>
    (3 + length (records l ids) \<le> 96 \<longrightarrow> ids' = ids) \<and>
    (64 < length resp \<longrightarrow> zcl_handle_incoming spi p m s = Some (ReadAnswered sender resp (-1), t))"
proof -
  obtain ids' t where t: "append_attrs [0x18, sq, 0x01] 96 (concat (map le_bytes ids)) s =
      Some ([0x18, sq, 0x01] @ records l ids', t)" "subseq ids' ids"
    "length ([0x18, sq, 0x01] @ records l ids') \<le> 96"
    "length ([0x18, sq, 0x01] @ records l ids) \<le> 96 \<Longrightarrow> ids' = ids"
    using append_attrs_spec [of "[0x18, sq, 0x01]" 96 ids s] unfolding l_def by auto
  have len: "length l \<le> 255" using location_short [OF assms(2)] by (simp add: l_def)
  have "zcl_read spi p ZCL_CLUSTER_BASIC sender (read_frame sq ids) s = do {
      (resp, s) \<leftarrow> append_attrs [0x18, sq, 0x01] 96 (concat (map le_bytes ids)) s;
      (r, s) \<leftarrow> zcl_send spi p sender ZCL_CLUSTER_BASIC resp s;
      Some (ReadAnswered sender resp r, s) }"
    by (simp add: zcl_read_def read_frame_def)
  then have run: "zcl_handle_incoming spi p m s = do {
      (r, s) \<leftarrow> zcl_send spi p sender ZCL_CLUSTER_BASIC ([0x18, sq, 0x01] @ records l ids') t;
      Some (ReadAnswered sender ([0x18, sq, 0x01] @ records l ids') r, s) }"
    using handle_carried [OF assms(1), of spi p s] t(1) by (simp add: read_frame_def)
  have "trace t = trace s" using local_only_ok [OF append_attrs_local [OF t(1)]] by simp
  with run t(2-4) decode_basic [OF len] show ?thesis
    by (intro exI [of _ "[0x18, sq, 0x01] @ records l ids'"] exI [of _ ids'] exI [of _ t])
      (simp add: zcl_send_def)
qed


definition sample_read :: "u16 list \<Rightarrow> u8 list" where
  \<comment> \<open>node 0x1234 reads attributes of the Basic cluster, in a callback buffer of 64 bytes\<close>
  "sample_read ids = pad_to 64 0 ([0x00, 0x04, 0x01, 0x00, 0x00, 0x01, 0x01, 0x40, 0x01, 0x00, 0x00, 0x00,
     0xFF, 0x00, 0x34, 0x12, 0xFF, 0xFF, of_nat (3 + 2 * length ids)] @ read_frame 9 ids)"

lemma sample_carries: "length ids \<le> 21 \<Longrightarrow> carries (sample_read ids) ZCL_PROFILE_HA ZCL_CLUSTER_BASIC 0x1234 (read_frame 9 ids)"
proof -
  assume l: "length ids \<le> 21"
  have c: "length (concat (map le_bytes ids)) = 2 * length ids"
    by (induction ids) (simp_all add: le_bytes_def)
  have "unat (of_nat (3 + 2 * length ids) :: u8) = 3 + 2 * length ids"
    using l by (simp add: unsigned_of_nat take_bit_nat_eq_self del: of_nat_add)
  with l c show ?thesis
    unfolding carries_def by (simp add: sample_read_def pad_to_def read_frame_def le16_def del: of_nat_add)
qed

theorem basic_read_decodes_witness:
  "\<exists>resp ids' t. zcl_handle_incoming 9 sample_pins (sample_read [0x0004, 0x0005, 0x1000]) sys0 = do {
      (r, s) \<leftarrow> zcl_send 9 sample_pins 0x1234 ZCL_CLUSTER_BASIC resp t; Some (ReadAnswered 0x1234 resp r, s) } \<and>
    take 3 resp = [0x18, 9, 0x01] \<and> subseq ids' [0x0004, 0x0005, 0x1000] \<and>
    decode_attrs (drop 3 resp) = map (attr_of ''openwrt'') ids'"
proof -
  have h: "length (host (node sys0)) \<le> 31" "fst (zcl_location sys0) = ''openwrt''"
    by (simp_all add: sys0_def node0_def zcl_location_def Let_def)
  have c: "carries (sample_read [0x0004, 0x0005, 0x1000]) ZCL_PROFILE_HA ZCL_CLUSTER_BASIC 0x1234
      (read_frame 9 [0x0004, 0x0005, 0x1000])"
    by (rule sample_carries) simp
  from basic_read_decodes [OF c h(1), of 9 sample_pins] show ?thesis unfolding h(2) by blast
qed

text \<open>
  All nine attributes the node supports do not fit one frame: the response is built, found
  too long by \<open>zcl_send\<close>, and the client gets no answer at all.
\<close>

lemma long_read_unanswered:
  assumes "carries m profile ZCL_CLUSTER_BASIC sender (read_frame sq ids)"
    and "61 < length (records (fst (zcl_location s)) ids)" and "length (records (fst (zcl_location s)) ids) \<le> 93"
  shows "\<exists>resp t. zcl_handle_incoming spi p m s = Some (ReadAnswered sender resp (-1), t) \<and> trace t = trace s"
proof -
  let ?l = "fst (zcl_location s)"
  obtain ids' t where t: "append_attrs [0x18, sq, 0x01] 96 (concat (map le_bytes ids)) s =
      Some ([0x18, sq, 0x01] @ records ?l ids', t)"
    "subseq ids' ids" "length ([0x18, sq, 0x01] @ records ?l ids') \<le> 96"
    "length ([0x18, sq, 0x01] @ records ?l ids) \<le> 96 \<Longrightarrow> ids' = ids"
    using append_attrs_spec [of "[0x18, sq, 0x01]" 96 ids s] by auto
  then have "ids' = ids" using assms(3) by simp
  with t(1) assms(2) have "zcl_read spi p ZCL_CLUSTER_BASIC sender (read_frame sq ids) s =
      Some (ReadAnswered sender ([0x18, sq, 0x01] @ records ?l ids) (-1), t)"
    by (simp add: zcl_read_def read_frame_def zcl_send_def)
  moreover have "trace t = trace s" using local_only_ok [OF append_attrs_local [OF t(1)]] by simp
  ultimately show ?thesis
    using handle_carried [OF assms(1), of spi p s] by (simp add: read_frame_def)
qed

lemma full_read_unanswered:
  "\<exists>resp t. zcl_handle_incoming spi p (sample_read [0, 1, 2, 3, 4, 5, 7, 0x0010, 0x4000]) sys0 =
     Some (ReadAnswered 0x1234 resp (-1), t) \<and> trace t = trace sys0"
proof -
  have l: "fst (zcl_location sys0) = ''openwrt''" by (simp add: sys0_def node0_def zcl_location_def Let_def)
  have n: "length (records ''openwrt'' [0, 1, 2, 3, 4, 5, 7, 0x0010, 0x4000]) = 78"
    by (simp add: records_def attr_of_def basic_attr_def zcl_manufacturer_def zcl_model_def zcl_swbuild_def)
  show ?thesis
    by (rule long_read_unanswered [OF sample_carries]) (simp_all only: l n, simp_all)
qed


section \<open>The interval between reports\<close>

text \<open>
  The jittered interval between two reports is within a fifth of the configured one,
  whatever \<open>rand\<close> returns, and 0 stays 0: no wrap-around of the unsigned arithmetic up to
  \<open>2 ^ 31\<close> seconds.
\<close>

lemma jitter_bounds:
  assumes "report_interval s = (r, t)" and "unat (cfg_report_secs (cfg s)) \<le> 2 ^ 31"
  defines "base \<equiv> unat (cfg_report_secs (cfg s))"
  shows "base - base div 5 \<le> unat r \<and> unat r \<le> base + base div 5"
proof (cases "cfg_report_secs (cfg s) div 5 = 0")
  case True
  with assms(1) show ?thesis by (auto simp: report_interval_def base_def Let_def)
next
  case False
  let ?b = "cfg_report_secs (cfg s)" and ?n = "fst (take_rand s)"
  let ?j = "of_nat ?n mod (2 * (?b div 5) + 1) :: u32"
  have sp: "unat (?b div 5) = base div 5" by (simp add: base_def unat_div)
  have b: "base \<le> 2 ^ 31" using assms(2) by (simp add: base_def)
  have r: "r = ?b - ?b div 5 + ?j"
    using assms(1) False by (auto simp: report_interval_def Let_def split: prod.splits)
  have m: "unat (2 * (?b div 5) + 1) = 2 * (base div 5) + 1"
    using b sp by (simp add: unat_word_ariths)
  have j: "unat ?j < 2 * (base div 5) + 1"
    unfolding unat_mod m by (rule mod_less_divisor) simp
  have d: "unat (?b - ?b div 5) = base - base div 5"
    using sp by (simp add: base_def unat_sub word_le_nat_alt)
  have "base - base div 5 + unat ?j < 2 ^ 32" using b j by simp
  then have "unat r = base - base div 5 + unat ?j"
    unfolding r unat_word_ariths(1) d by simp
  with j show ?thesis by linarith
qed

end
