(* ===== verification/Join.thy ===== *)
theory Join
  imports Zcl
begin

text \<open>
  Joining and leaving a network (zcl.c, \<open>cmd_join\<close> and \<open>cmd_leave\<close>): the look at the network
  before the join, configuration and security, the attempts with their retries, and the wait
  for the stack status the NCP reports. \<open>None\<close> is the command ending in \<open>die\<close>; the buffers
  \<open>stk\<close> (of \<open>scan_find\<close>) and \<open>out\<close> are as the stack left them.
\<close>

unbundle bit_operations_syntax

section \<open>Identifiers (ezsp-spi.h)\<close>

abbreviation EZSP_NETWORK_INIT :: u8 where "EZSP_NETWORK_INIT \<equiv> 0x17"
abbreviation EZSP_STACK_STATUS_HANDLER :: u8 where "EZSP_STACK_STATUS_HANDLER \<equiv> 0x19"
abbreviation EZSP_JOIN_NETWORK :: u8 where "EZSP_JOIN_NETWORK \<equiv> 0x1F"
abbreviation EZSP_LEAVE_NETWORK :: u8 where "EZSP_LEAVE_NETWORK \<equiv> 0x20"
abbreviation EZSP_GET_CONFIGURATION_VALUE :: u8 where "EZSP_GET_CONFIGURATION_VALUE \<equiv> 0x52"
abbreviation EZSP_SET_INITIAL_SECURITY_STATE :: u8 where "EZSP_SET_INITIAL_SECURITY_STATE \<equiv> 0x68"
abbreviation EMBER_NETWORK_UP :: u8 where "EMBER_NETWORK_UP \<equiv> 0x90"
abbreviation EMBER_NETWORK_DOWN :: u8 where "EMBER_NETWORK_DOWN \<equiv> 0x91"
abbreviation EMBER_NODE_TYPE_ROUTER :: u8 where "EMBER_NODE_TYPE_ROUTER \<equiv> 0x02"
abbreviation EMBER_USE_MAC_ASSOCIATION :: u8 where "EMBER_USE_MAC_ASSOCIATION \<equiv> 0x00"

definition zigbee_alliance_09 :: "u8 list" where
  "zigbee_alliance_09 = [0x5A, 0x69, 0x67, 0x42, 0x65, 0x65, 0x41, 0x6C,
     0x6C, 0x69, 0x61, 0x6E, 0x63, 0x65, 0x30, 0x39]"


section \<open>Before the join\<close>

definition join_args_ok :: "cfg \<Rightarrow> bool" where
  "join_args_ok c \<longleftrightarrow> cfg_channel c \<noteq> 0 \<and> cfg_have_pan_id c \<and>
     \<not> (\<not> cfg_have_ext_pan_id c \<and> cfg_no_precheck c)"

definition set_ext_pan_id :: "u8 list \<Rightarrow> sys \<Rightarrow> sys" where
  "set_ext_pan_id ext s = s\<lparr>cfg := (cfg s)\<lparr>cfg_ext_pan_id := ext, cfg_have_ext_pan_id := True\<rparr>\<rparr>"

text \<open>
  The look at the network: \<open>None\<close> is \<open>goto fail\<close>, otherwise the network's update id, which
  stays 0 when the scan was skipped or failed. \<open>scan_find\<close> gives a network exactly with 1.
\<close>

definition join_precheck :: "int \<Rightarrow> pins \<Rightarrow> u8 list \<Rightarrow> (sys, u8 option) cmd" where
  "join_precheck spi p stk s =
     (if cfg_no_precheck (cfg s) then Some (Some 0, s)
      else do {
        ((r, f), s) \<leftarrow> scan_find spi p (cfg_channel (cfg s)) (cfg_pan_id (cfg s)) stk s;
        if r < 0 then Some (Some 0, s)
        else (case f of
            None \<Rightarrow> Some (None, s)
          | Some (ext, allowing, upd) \<Rightarrow> Some (if allowing then Some upd else None, set_ext_pan_id ext s))
      })"

definition security_params :: "u16 \<Rightarrow> u8 list" where
  "security_params bitmask = [lo8 bitmask, hi8 bitmask] @ zigbee_alliance_09 @ replicate 24 0"

text \<open>Configuration, the stack profile read back, the security state: whether to go on.\<close>

definition join_setup :: "int \<Rightarrow> pins \<Rightarrow> u8 list \<Rightarrow> (sys, bool \<times> u8 list) cmd" where
  "join_setup spi p out s = do {
     (_, s) \<leftarrow> ezsp_apply_config spi p s;
     ((n, out), s) \<leftarrow> ezsp_cmd spi p EZSP_GET_CONFIGURATION_VALUE [EZSP_CONFIG_STACK_PROFILE] out s;
     if n \<ge> 3 \<and> out ! 0 = EMBER_SUCCESS \<and> out ! 1 \<noteq> 2 then Some ((False, out), s)
     else do {
       ((n, out), s) \<leftarrow> ezsp_cmd spi p EZSP_SET_INITIAL_SECURITY_STATE
          (security_params (cfg_sec_bitmask (cfg s))) out s;
       Some ((\<not> (n < 1 \<or> out ! 0 \<noteq> EMBER_SUCCESS), out), s)
     }
   }"


section \<open>The join\<close>

definition join_params :: "cfg \<Rightarrow> u8 \<Rightarrow> u8 list" where
  "join_params c upd = [EMBER_NODE_TYPE_ROUTER] @ take 8 (cfg_ext_pan_id c) @
     [lo8 (cfg_pan_id c), hi8 (cfg_pan_id c), word_of_int (cfg_tx_power c), ucast (cfg_channel c),
      EMBER_USE_MAC_ASSOCIATION, 0, 0, upd, 0, 0, 0, 0]"

definition terminal :: "u8 \<Rightarrow> bool" where
  "terminal st \<longleftrightarrow> st = 0x94 \<or> st = 0xAB \<or> st = 0x98 \<or> st = 0xAD \<or> st = 0xAF"

definition transient :: "u8 \<Rightarrow> bool" where
  "transient st \<longleftrightarrow> st = 0xAD \<or> st = 0x94"

datatype wait_result = Joined | TryAgain | GaveUp

text \<open>
  The wait for the result of one attempt: \<open>i\<close> polls are left, \<open>again\<close> is whether attempts are.
  The code's test \<open>n >= 0\<close> is of the reply to joinNetwork, which was at least 1.
\<close>

fun join_wait :: "nat \<Rightarrow> int \<Rightarrow> pins \<Rightarrow> bool \<Rightarrow> u8 list \<Rightarrow> (sys, wait_result \<times> u8 list) cmd" where
  "join_wait 0 spi p again out s = Some ((GaveUp, out), s)"
| "join_wait (Suc i) spi p again out s = do {
     (_, s) \<leftarrow> usleep 250000 s;
     ((fid, out), s) \<leftarrow> ezsp_poll_callback spi p out s;
     if fid = EZSP_STACK_STATUS_HANDLER then
       (if out ! 0 = EMBER_NETWORK_UP then Some ((Joined, out), s)
        else if terminal (out ! 0) then
          Some ((if transient (out ! 0) \<and> again then TryAgain else GaveUp, out), s)
        else join_wait i spi p again out s)
     else join_wait i spi p again out s
   }"

text \<open>
  \<open>cfg.join_timeout * 4\<close> polls, the timeout read as an \<open>int\<close>; the overflow of the product,
  which C leaves undefined from \<open>2 ^ 29\<close> seconds on, is not modelled.
\<close>

definition join_polls :: "cfg \<Rightarrow> nat" where
  "join_polls c = nat (sint (cfg_join_timeout c) * 4)"

text \<open>From the label \<open>attempt\<close> on, with \<open>attempts_left\<close> more; what is returned is the exit code.\<close>

primrec join_attempt :: "nat \<Rightarrow> int \<Rightarrow> pins \<Rightarrow> u8 \<Rightarrow> u8 list \<Rightarrow> (sys, int) cmd" where
  "join_attempt 0 spi p upd out s = do {
     ((n, out), s) \<leftarrow> ezsp_cmd spi p EZSP_JOIN_NETWORK (join_params (cfg s) upd) out s;
     if n < 1 \<or> out ! 0 \<noteq> EMBER_SUCCESS then Some (1, s)
     else do {
       ((w, out), s) \<leftarrow> join_wait (join_polls (cfg s)) spi p False out s;
       Some (if w = Joined then 0 else 1, s)
     }
   }"
| "join_attempt (Suc left) spi p upd out s = do {
     ((n, out), s) \<leftarrow> ezsp_cmd spi p EZSP_JOIN_NETWORK (join_params (cfg s) upd) out s;
     if n < 1 \<or> out ! 0 \<noteq> EMBER_SUCCESS then Some (1, s)
     else do {
       ((w, out), s) \<leftarrow> join_wait (join_polls (cfg s)) spi p True out s;
       if w = TryAgain then do {
         (_, s) \<leftarrow> usleep 5000000 s;
         join_attempt left spi p upd out s
       }
       else Some (if w = Joined then 0 else 1, s)
     }
   }"

definition join_body :: "u8 list \<Rightarrow> u8 list \<Rightarrow> int \<Rightarrow> pins \<Rightarrow> (sys, int) cmd" where
  "join_body stk out spi p s = do {
     (v, s) \<leftarrow> ezsp_init spi p s;
     if v < 0 then Some (1, s)
     else do {
       (found, s) \<leftarrow> join_precheck spi p stk s;
       case found of
         None \<Rightarrow> Some (1, s)
       | Some upd \<Rightarrow> do {
           ((ok, out), s) \<leftarrow> join_setup spi p out s;
           if \<not> ok then Some (1, s)
           else join_attempt (nat (sint (cfg_join_retries (cfg s)))) spi p upd out s
         }
     }
   }"

definition cmd_join :: "u8 list \<Rightarrow> u8 list \<Rightarrow> (sys, int) cmd" where
  "cmd_join stk out s = (if join_args_ok (cfg s) then session (join_body stk out) s else None)"


section \<open>Leaving\<close>

fun leave_wait :: "nat \<Rightarrow> int \<Rightarrow> pins \<Rightarrow> u8 list \<Rightarrow> (sys, int) cmd" where
  "leave_wait 0 spi p out s = Some (1, s)"
| "leave_wait (Suc i) spi p out s = do {
     (_, s) \<leftarrow> usleep 250000 s;
     ((fid, out), s) \<leftarrow> ezsp_poll_callback spi p out s;
     if fid = EZSP_STACK_STATUS_HANDLER \<and> out ! 0 = EMBER_NETWORK_DOWN then Some (0, s)
     else leave_wait i spi p out s
   }"

definition leave_body :: "u8 list \<Rightarrow> int \<Rightarrow> pins \<Rightarrow> (sys, int) cmd" where
  "leave_body out spi p s = do {
     (v, s) \<leftarrow> ezsp_init spi p s;
     if v < 0 then Some (1, s)
     else do {
       (_, s) \<leftarrow> ezsp_apply_config spi p s;
       ((n, out), s) \<leftarrow> ezsp_cmd spi p EZSP_NETWORK_INIT [] out s;
       ((n, out), s) \<leftarrow> ezsp_cmd spi p EZSP_LEAVE_NETWORK [] out s;
       if n < 1 \<or> out ! 0 \<noteq> EMBER_SUCCESS then Some (1, s)
       else leave_wait 40 spi p out s
     }
   }"

definition cmd_leave :: "u8 list \<Rightarrow> (sys, int) cmd" where
  "cmd_leave out = session (leave_body out)"


section \<open>Joining and leaving return\<close>

lemma lives_join_wait [lives_rules]: "lives ioctls_ok (join_wait i spi p again out)"
proof (induction i arbitrary: out)
  case (Suc i)
  then show ?case unfolding join_wait.simps by (intro lives_rules)
qed (simp add: lives_def)

lemma boot_join_wait [boot_rules]: "pins_distinct p \<Longrightarrow> keeps (boots_app p) (join_wait i spi p again out)"
proof (induction i arbitrary: out)
  case (Suc i)
  then show ?case unfolding join_wait.simps by (intro boot_seq boot_rules)
qed (simp add: keeps_def boots_app_trace)

lemma length_join_params: "length (join_params c upd) \<le> 21"
  by (simp add: join_params_def)

text \<open>A command whose parameters are read from the configuration, and a wait whose length is.\<close>

lemma lives_cmd_cfg:
  assumes "\<And>c. length (ps c) \<le> 155" and "\<And>n out. lives ioctls_ok (f n out)"
  shows "lives ioctls_ok (\<lambda>s. do { ((n, out), s) \<leftarrow> ezsp_cmd spi p fid (ps (cfg s)) out s; f n out s })"
  by (rule lives_read [where g = cfg and f = "\<lambda>c s. do { ((n, out), s) \<leftarrow> ezsp_cmd spi p fid (ps c) out s; f n out s }"])
    (intro lives_rules assms)

lemma boot_cmd_cfg:
  assumes "pins_distinct p" and "\<And>n out. keeps (boots_app p) (f n out)"
  shows "keeps (boots_app p) (\<lambda>s. do { ((n, out), s) \<leftarrow> ezsp_cmd spi p fid (ps (cfg s)) out s; f n out s })"
  by (rule keeps_read [where g = cfg and f = "\<lambda>c s. do { ((n, out), s) \<leftarrow> ezsp_cmd spi p fid (ps c) out s; f n out s }"])
    (intro boot_seq boot_rules assms)

lemma lives_wait_cfg:
  assumes "\<And>w out. lives ioctls_ok (f w out)"
  shows "lives ioctls_ok (\<lambda>s. do { ((w, out), s) \<leftarrow> join_wait (k (cfg s)) spi p again out s; f w out s })"
  by (rule lives_read [where g = cfg and f = "\<lambda>c s. do { ((w, out), s) \<leftarrow> join_wait (k c) spi p again out s; f w out s }"])
    (intro lives_rules assms)

lemma boot_wait_cfg:
  assumes "pins_distinct p" and "\<And>w out. keeps (boots_app p) (f w out)"
  shows "keeps (boots_app p) (\<lambda>s. do { ((w, out), s) \<leftarrow> join_wait (k (cfg s)) spi p again out s; f w out s })"
  by (rule keeps_read [where g = cfg and f = "\<lambda>c s. do { ((w, out), s) \<leftarrow> join_wait (k c) spi p again out s; f w out s }"])
    (intro boot_seq boot_rules assms)

lemma lives_join_attempt [lives_rules]: "lives ioctls_ok (join_attempt left spi p upd out)"
proof (induction left arbitrary: out)
  case 0
  show ?case unfolding join_attempt.simps
    by (intro lives_cmd_cfg lives_wait_cfg lives_rules) (simp add: join_params_def)
next
  case (Suc left)
  then show ?case unfolding join_attempt.simps
    by (intro lives_cmd_cfg lives_wait_cfg lives_rules) (simp add: join_params_def)
qed

lemma boot_join_attempt [boot_rules]: "pins_distinct p \<Longrightarrow> keeps (boots_app p) (join_attempt left spi p upd out)"
proof (induction left arbitrary: out)
  case 0
  then show ?case unfolding join_attempt.simps by (intro boot_cmd_cfg boot_wait_cfg boot_seq)
next
  case (Suc left)
  then show ?case unfolding join_attempt.simps by (intro boot_cmd_cfg boot_wait_cfg boot_seq boot_rules)
qed

lemma quiet_ext: "quiet (set_ext_pan_id ext)"
  by (simp add: quiet_def set_ext_pan_id_def)

lemma lives_join_precheck [lives_rules]: "lives ioctls_ok (join_precheck spi p stk)"
proof -
  have "lives ioctls_ok (\<lambda>s. do { ((r, f), s) \<leftarrow> scan_find spi p (a s) (b s) stk s; g r f s })"
    if "\<And>r f. lives ioctls_ok (g r f)" for a b and g :: "int \<Rightarrow> found option \<Rightarrow> (sys, u8 option) cmd"
    by (rule lives_read [where g = "\<lambda>s. (a s, b s)" and
          f = "\<lambda>(a, b) s. do { ((r, f), s) \<leftarrow> scan_find spi p a b stk s; g r f s }", simplified])
      (auto intro!: lives_rules that)
  note scan = this
  show ?thesis
    unfolding join_precheck_def
    by (intro lives_rules scan lives_quiet_step quiet_ext)
qed


lemma boot_join_precheck [boot_rules]: "pins_distinct p \<Longrightarrow> keeps (boots_app p) (join_precheck spi p stk)"
proof -
  assume d: "pins_distinct p"
  have "keeps (boots_app p) (\<lambda>s. do { ((r, f), s) \<leftarrow> scan_find spi p (a s) (b s) stk s; g r f s })"
    if "\<And>r f. keeps (boots_app p) (g r f)" for a b and g :: "int \<Rightarrow> found option \<Rightarrow> (sys, u8 option) cmd"
    by (rule keeps_read [where g = "\<lambda>s. (a s, b s)" and
          f = "\<lambda>(a, b) s. do { ((r, f), s) \<leftarrow> scan_find spi p a b stk s; g r f s }", simplified])
      (auto intro!: boot_seq boot_rules that d)
  note scan = this
  show ?thesis
    unfolding join_precheck_def
    by (intro keeps_ifs boot_seq scan boot_quiet quiet_ext)
qed

lemma lives_join_setup [lives_rules]: "lives ioctls_ok (join_setup spi p out)"
  unfolding join_setup_def
  by (intro lives_bind lives_case_prod_fun lives_cmd_cfg lives_rules)
    (simp_all add: security_params_def zigbee_alliance_09_def)

lemma boot_join_setup [boot_rules]: "pins_distinct p \<Longrightarrow> keeps (boots_app p) (join_setup spi p out)"
  unfolding join_setup_def by (intro boot_seq boot_cmd_cfg boot_rules)

lemma lives_join_body [lives_rules]: "lives ioctls_ok (join_body stk out spi p)"
proof -
  have a: "lives ioctls_ok (\<lambda>s. join_attempt (k (cfg s)) spi p upd out s)" for k upd out
    by (rule lives_read [where g = cfg and f = "\<lambda>c. join_attempt (k c) spi p upd out"]) (rule lives_join_attempt)
  show ?thesis unfolding join_body_def by (intro lives_rules a)
qed

lemma boot_join_body [boot_rules]: "pins_distinct p \<Longrightarrow> keeps (boots_app p) (join_body stk out spi p)"
proof -
  assume d: "pins_distinct p"
  have a: "keeps (boots_app p) (\<lambda>s. join_attempt (k (cfg s)) spi p upd out s)" for k upd out
    by (rule keeps_read [where g = cfg and f = "\<lambda>c. join_attempt (k c) spi p upd out"]) (rule boot_join_attempt [OF d])
  show ?thesis unfolding join_body_def by (intro boot_seq a boot_rules d)
qed

lemma lives_leave_wait [lives_rules]: "lives ioctls_ok (leave_wait i spi p out)"
proof (induction i arbitrary: out)
  case (Suc i)
  then show ?case unfolding leave_wait.simps by (intro lives_rules)
qed (simp add: lives_def)

lemma lives_leave_body [lives_rules]: "lives ioctls_ok (leave_body out spi p)"
  unfolding leave_body_def by (intro lives_rules) simp_all


section \<open>What a successful join has seen\<close>

text \<open>The state \<open>t\<close> is right after a poll that brought a stack status with this value.\<close>

definition status_seen :: "u8 \<Rightarrow> int \<Rightarrow> pins \<Rightarrow> sys \<Rightarrow> bool" where
  "status_seen st spi p t \<longleftrightarrow> (\<exists>buf s out.
     ezsp_poll_callback spi p buf s = Some ((EZSP_STACK_STATUS_HANDLER, out), t) \<and> out ! 0 = st)"

lemma join_wait_up:
  "join_wait i spi p again out s = Some ((Joined, out'), t) \<Longrightarrow> status_seen EMBER_NETWORK_UP spi p t"
proof (induction i arbitrary: out s)
  case (Suc i)
  from Suc.prems obtain fid out1 s1 s2 where
    u: "usleep 250000 s = Some ((), s1)" and
    p: "ezsp_poll_callback spi p out s1 = Some ((fid, out1), s2)" and
    r: "(if fid = EZSP_STACK_STATUS_HANDLER then
       (if out1 ! 0 = EMBER_NETWORK_UP then Some ((Joined, out1), s2)
        else if terminal (out1 ! 0) then
          Some ((if transient (out1 ! 0) \<and> again then TryAgain else GaveUp, out1), s2)
        else join_wait i spi p again out1 s2)
     else join_wait i spi p again out1 s2) = Some ((Joined, out'), t)"
    by (auto simp: Option.bind_eq_Some_conv)
  show ?case
    using r p Suc.IH [of out1 s2] by (fastforce simp: status_seen_def split: if_splits)
qed simp

lemma join_wait_leaves: "join_wait i spi p False out s = Some ((w, out'), t) \<Longrightarrow> w \<noteq> TryAgain"
proof (induction i arbitrary: out s)
  case (Suc i)
  then show ?case by (auto simp: Option.bind_eq_Some_conv split: if_splits)
qed simp

lemma join_attempt_up:
  "join_attempt left spi p upd out s = Some (r, t) \<Longrightarrow>
   (r = 0 \<or> r = 1) \<and> (r = 0 \<longrightarrow> status_seen EMBER_NETWORK_UP spi p t)"
proof (induction left arbitrary: out s)
  case 0
  then show ?case by (auto simp: Option.bind_eq_Some_conv dest: join_wait_up split: if_splits)
next
  case (Suc left)
  then show ?case by (fastforce simp: Option.bind_eq_Some_conv dest: join_wait_up split: if_splits)
qed

lemma join_body_up:
  assumes "join_body stk out spi p s = Some (r, t)"
  shows "(r = 0 \<or> r = 1) \<and> (r = 0 \<longrightarrow> status_seen EMBER_NETWORK_UP spi p t)"
proof -
  from assms obtain v s1 where 1: "ezsp_init spi p s = Some (v, s1)" "(if v < 0 then Some (1, s1)
     else do {
       (found, s) \<leftarrow> join_precheck spi p stk s1;
       case found of
         None \<Rightarrow> Some (1, s)
       | Some upd \<Rightarrow> do {
           ((ok, out), s) \<leftarrow> join_setup spi p out s;
           if \<not> ok then Some (1, s)
           else join_attempt (nat (sint (cfg_join_retries (cfg s)))) spi p upd out s
         }
     }) = Some (r, t)"
    unfolding join_body_def by (auto simp: Option.bind_eq_Some_conv)
  show ?thesis
    using 1(2) by (auto simp: Option.bind_eq_Some_conv split: if_splits option.splits dest: join_attempt_up)
qed



section \<open>Joining with an NCP that cooperates\<close>

definition quiet_polls :: "nat \<Rightarrow> (u8 \<times> u8 list \<times> u8 \<times> u8 list) list" where
  "quiet_polls k = replicate k (EZSP_CALLBACK, [], EZSP_NO_CALLBACKS, [])"

definition attempt_talk :: "cfg \<Rightarrow> u8 \<Rightarrow> nat \<times> u8 \<Rightarrow> (u8 \<times> u8 list \<times> u8 \<times> u8 list) list" where
  \<comment> \<open>joinNetwork accepted, \<open>k\<close> polls with nothing queued, then the stack status\<close>
  "attempt_talk c upd = (\<lambda>(k, st). (EZSP_JOIN_NETWORK, join_params c upd, EZSP_JOIN_NETWORK, [EMBER_SUCCESS]) #
     quiet_polls k @ [(EZSP_CALLBACK, [], EZSP_STACK_STATUS_HANDLER, [st])])"

lemma usleep_quiet:
  obtains t where "usleep us s = Some ((), t)" "cfg t = cfg s" "ezsp_seq t = ezsp_seq s" "miso t = miso s"
    "kfail t = kfail s" "calls s t"
  using converses_sleep [of us s "()"] that by (auto simp: usleep_def)

lemma join_wait_talk:
  assumes "kfail s = []" and "8 \<le> length out" and "k < i" and "st = EMBER_NETWORK_UP \<or> terminal st"
    and "converses (cfg s) (ezsp_seq s) (quiet_polls k @ (EZSP_CALLBACK, [], EZSP_STACK_STATUS_HANDLER, [st]) # es) m"
    and "miso s = m @ rest"
  shows "\<exists>t m2 out'. join_wait i spi p again out s =
      Some ((if st = EMBER_NETWORK_UP then Joined else if transient st \<and> again then TryAgain else GaveUp, out'), t) \<and>
    miso t = m2 @ rest \<and> converses (cfg t) (ezsp_seq t) es m2 \<and> kfail t = [] \<and> calls s t \<and>
    8 \<le> length out'"
  using assms
proof (induction k arbitrary: i out s m)
  case 0
  obtain j where i: "i = Suc j" using 0(3) by (cases i) auto
  obtain s1 where s1: "usleep 250000 s = Some ((), s1)" "cfg s1 = cfg s" "ezsp_seq s1 = ezsp_seq s"
    "miso s1 = miso s" "kfail s1 = kfail s" "calls s s1" by (rule usleep_quiet)
  have c: "converses (cfg s1) (ezsp_seq s1) ((EZSP_CALLBACK, [], EZSP_STACK_STATUS_HANDLER, [st]) # es) m"
    using 0(5) s1 by (simp add: quiet_polls_def)
  obtain t m2 where t: "ezsp_poll_callback spi p out s1 =
      Some ((if EZSP_STACK_STATUS_HANDLER = EZSP_NO_CALLBACKS then 0 else EZSP_STACK_STATUS_HANDLER,
        [st] @ drop (length [st]) out), t)"
    "miso t = m2 @ rest" "converses (cfg t) (ezsp_seq t) es m2" "kfail t = []" "calls s1 t"
    by (rule poll_replied [OF _ _ c, of out rest spi p]) (use 0 s1 in auto)
  have "calls s t" using s1(6) t(5) by (rule calls.trans)
  with t s1(1) 0(2,4) show ?case unfolding i by auto
next
  case (Suc k)
  obtain j where i: "i = Suc j" "k < j" using Suc.prems(3) by (cases i) auto
  obtain s1 where s1: "usleep 250000 s = Some ((), s1)" "cfg s1 = cfg s" "ezsp_seq s1 = ezsp_seq s"
    "miso s1 = miso s" "kfail s1 = kfail s" "calls s s1" by (rule usleep_quiet)
  have c: "converses (cfg s1) (ezsp_seq s1) ((EZSP_CALLBACK, [], EZSP_NO_CALLBACKS, []) #
      quiet_polls k @ (EZSP_CALLBACK, [], EZSP_STACK_STATUS_HANDLER, [st]) # es) m"
    using Suc.prems(5) s1 by (simp add: quiet_polls_def)
  obtain s2 m2 where s2: "ezsp_poll_callback spi p out s1 =
      Some ((if EZSP_NO_CALLBACKS = EZSP_NO_CALLBACKS then 0 else EZSP_NO_CALLBACKS,
        [] @ drop (length ([] :: u8 list)) out), s2)"
    "miso s2 = m2 @ rest" "converses (cfg s2) (ezsp_seq s2)
       (quiet_polls k @ (EZSP_CALLBACK, [], EZSP_STACK_STATUS_HANDLER, [st]) # es) m2" "kfail s2 = []" "calls s1 s2"
    by (rule poll_replied [OF _ _ c, of out rest spi p]) (use Suc.prems s1 in auto)
  from Suc.IH [OF s2(4) Suc.prems(2) i(2) Suc.prems(4) s2(3,2)] obtain t m3 out' where
    "join_wait j spi p again out s2 = Some ((if st = EMBER_NETWORK_UP then Joined
       else if transient st \<and> again then TryAgain else GaveUp, out'), t)"
    "miso t = m3 @ rest" "converses (cfg t) (ezsp_seq t) es m3" "kfail t = []" "calls s2 t" "8 \<le> length out'"
    by blast
  moreover from this have "calls s t" using s1(6) s2(5) calls.trans by blast
  ultimately show ?case unfolding i using s1(1) s2(1) by auto
qed

lemma transient_terminal: "transient st \<Longrightarrow> terminal st \<and> st \<noteq> EMBER_NETWORK_UP"
  by (auto simp: transient_def terminal_def)

text \<open>One attempt up to its stack status.\<close>

lemma attempt_replied:
  assumes "kfail s = []" and "8 \<le> length out" and "k < join_polls (cfg s)" and "st = EMBER_NETWORK_UP \<or> terminal st"
    and "converses (cfg s) (ezsp_seq s) (attempt_talk (cfg s) upd (k, st) @ es) m" and "miso s = m @ rest"
  obtains s1 n out1 t m2 out2 where
    "ezsp_cmd spi p EZSP_JOIN_NETWORK (join_params (cfg s) upd) out s = Some ((1, out1), s1)" "out1 ! 0 = EMBER_SUCCESS"
    "join_wait (join_polls (cfg s1)) spi p again out1 s1 = Some ((if st = EMBER_NETWORK_UP then Joined
       else if transient st \<and> again then TryAgain else GaveUp, out2), t)"
    "miso t = m2 @ rest" "converses (cfg t) (ezsp_seq t) es m2" "kfail t = []" "calls s t" "8 \<le> length out2"
proof -
  have c: "converses (cfg s) (ezsp_seq s) ((EZSP_JOIN_NETWORK, join_params (cfg s) upd, EZSP_JOIN_NETWORK, [EMBER_SUCCESS]) #
      quiet_polls k @ (EZSP_CALLBACK, [], EZSP_STACK_STATUS_HANDLER, [st]) # es) m"
    using assms(5) by (simp add: attempt_talk_def)
  obtain s1 m1 where s1: "ezsp_cmd spi p EZSP_JOIN_NETWORK (join_params (cfg s) upd) out s =
      Some ((int (length [EMBER_SUCCESS]), [EMBER_SUCCESS] @ drop (length [EMBER_SUCCESS]) out), s1)"
    "miso s1 = m1 @ rest" "converses (cfg s1) (ezsp_seq s1)
      (quiet_polls k @ (EZSP_CALLBACK, [], EZSP_STACK_STATUS_HANDLER, [st]) # es) m1" "kfail s1 = []" "calls s s1"
    by (rule cmd_replied [OF assms(1) _ c assms(6), of out spi p]) (use assms(2) in auto)
  have "8 \<le> length ([EMBER_SUCCESS] @ drop (length [EMBER_SUCCESS]) out)" using assms(2) by simp
  moreover have "k < join_polls (cfg s1)" using assms(3) callsD [OF s1(5)] by simp
  ultimately obtain t m2 out2 where t: "join_wait (join_polls (cfg s1)) spi p again
      ([EMBER_SUCCESS] @ drop (length [EMBER_SUCCESS]) out) s1 = Some ((if st = EMBER_NETWORK_UP then Joined
       else if transient st \<and> again then TryAgain else GaveUp, out2), t)"
    "miso t = m2 @ rest" "converses (cfg t) (ezsp_seq t) es m2" "kfail t = []" "calls s1 t" "8 \<le> length out2"
    using join_wait_talk [OF s1(4) _ _ assms(4) s1(3,2)] by blast
  show thesis
    by (rule that [OF _ _ t(1-4) calls.trans [OF s1(5) t(5)] t(6)]) (use s1(1) in simp_all)
qed

text \<open>
  Any number of transient failures up to the retries left, then a success.
\<close>

lemma join_attempt_talk:
  assumes "kfail s = []" and "8 \<le> length out" and "length fails \<le> left" and "k < join_polls (cfg s)"
    and "\<forall>(k, st) \<in> set fails. k < join_polls (cfg s) \<and> transient st"
    and "converses (cfg s) (ezsp_seq s)
      (concat (map (attempt_talk (cfg s) upd) fails) @ attempt_talk (cfg s) upd (k, EMBER_NETWORK_UP)) m"
    and "miso s = m @ rest"
  shows "\<exists>t. join_attempt left spi p upd out s = Some (0, t) \<and> miso t = rest"
  using assms
proof (induction fails arbitrary: left out s m)
  case Nil
  have c: "converses (cfg s) (ezsp_seq s) (attempt_talk (cfg s) upd (k, EMBER_NETWORK_UP) @ []) m"
    using Nil.prems(6) by simp
  show ?case
    by (cases left; rule attempt_replied [OF Nil.prems(1,2,4) _ c Nil.prems(7), of spi p "left \<noteq> 0"])
      auto
next
  case (Cons f fails)
  obtain j st where f: "f = (j, st)" by (cases f)
  obtain l where left: "left = Suc l" "length fails \<le> l" using Cons.prems(3) by (cases left) auto
  have j: "j < join_polls (cfg s)" "transient st" using Cons.prems(5) f by auto
  have c: "converses (cfg s) (ezsp_seq s) (attempt_talk (cfg s) upd (j, st) @
      (concat (map (attempt_talk (cfg s) upd) fails) @ attempt_talk (cfg s) upd (k, EMBER_NETWORK_UP))) m"
    using Cons.prems(6) f by simp
  obtain s1 n out1 t m2 out2 where t:
    "ezsp_cmd spi p EZSP_JOIN_NETWORK (join_params (cfg s) upd) out s = Some ((1, out1), s1)" "out1 ! 0 = EMBER_SUCCESS"
    "join_wait (join_polls (cfg s1)) spi p True out1 s1 = Some ((if st = EMBER_NETWORK_UP then Joined
       else if transient st \<and> True then TryAgain else GaveUp, out2), t)"
    "miso t = m2 @ rest" "converses (cfg t) (ezsp_seq t)
       (concat (map (attempt_talk (cfg s) upd) fails) @ attempt_talk (cfg s) upd (k, EMBER_NETWORK_UP)) m2"
    "kfail t = []" "calls s t" "8 \<le> length out2"
    using attempt_replied [OF Cons.prems(1,2) j(1) _ c Cons.prems(7), of spi p True] transient_terminal [OF j(2)]
    by metis
  obtain u where u: "usleep 5000000 t = Some ((), u)" "cfg u = cfg t" "ezsp_seq u = ezsp_seq t" "miso u = miso t"
    "kfail u = kfail t" "calls t u" by (rule usleep_quiet)
  have cf: "cfg u = cfg s" using callsD [OF t(7)] u(2) by simp
  have "\<exists>t. join_attempt l spi p upd out2 u = Some (0, t) \<and> miso t = rest"
    by (rule Cons.IH [where m = m2]) (use t u cf left Cons.prems in auto)
  then show ?case
    using t(1-3) u(1) j(2) transient_terminal [OF j(2)] by (auto simp: left(1))
qed


text \<open>The setup, every command accepted.\<close>

definition accepted :: "u8 \<Rightarrow> u8 list \<Rightarrow> u8 \<times> u8 list \<times> u8 \<times> u8 list" where
  "accepted fid ps = (fid, ps, fid, [EMBER_SUCCESS])"

definition config_talk :: "(u8 \<times> u8 list \<times> u8 \<times> u8 list) list" where
  "config_talk =
     [accepted EZSP_SET_CONFIGURATION_VALUE [EZSP_CONFIG_STACK_PROFILE, 2, 0],
      accepted EZSP_SET_CONFIGURATION_VALUE [EZSP_CONFIG_SECURITY_LEVEL, 5, 0],
      accepted EZSP_SET_CONFIGURATION_VALUE [EZSP_CONFIG_KEY_TABLE_SIZE, 4, 0],
      accepted EZSP_SET_CONFIGURATION_VALUE [EZSP_CONFIG_TC_ADDRESS_CACHE_SIZE, 2, 0],
      accepted EZSP_ADD_ENDPOINT endpoint_params]"

definition setup_talk :: "cfg \<Rightarrow> (u8 \<times> u8 list \<times> u8 \<times> u8 list) list" where
  "setup_talk c = config_talk @
     [(EZSP_GET_CONFIGURATION_VALUE, [EZSP_CONFIG_STACK_PROFILE], EZSP_GET_CONFIGURATION_VALUE, [EMBER_SUCCESS, 2, 0]),
      accepted EZSP_SET_INITIAL_SECURITY_STATE (security_params (cfg_sec_bitmask c))]"

lemma accepted_cmd:
  assumes "kfail s = []" and "buf \<noteq> []"
    and "converses (cfg s) (ezsp_seq s) (accepted fid ps # es) m" and "miso s = m @ rest"
  obtains t m2 where "ezsp_cmd spi p fid ps buf s = Some ((1, EMBER_SUCCESS # tl buf), t)"
    "miso t = m2 @ rest" "converses (cfg t) (ezsp_seq t) es m2" "kfail t = []" "calls s t"
proof -
  have l: "length [EMBER_SUCCESS] \<le> length buf" using assms(2) by (cases buf) auto
  show thesis
    by (rule cmd_replied [OF assms(1) l assms(3) [unfolded accepted_def] assms(4), of spi p], rule that)
      (auto simp: drop_Suc)
qed

lemma accepted_config:
  assumes "kfail s = []" and "converses (cfg s) (ezsp_seq s)
      (accepted EZSP_SET_CONFIGURATION_VALUE [cid, ucast (v AND 0xFF), ucast (drop_bit 8 v)] # es) m"
    and "miso s = m @ rest"
  obtains t m2 where "ezsp_set_config spi p cid v s = Some (0, t)" "miso t = m2 @ rest"
    "converses (cfg t) (ezsp_seq t) es m2" "kfail t = []" "calls s t"
  by (rule accepted_cmd [OF assms(1) _ assms(2,3), of "replicate 4 0" spi p], simp)
    (rule that, auto simp: ezsp_set_config_def)

lemma apply_config_talk:
  assumes "kfail s = []" and "converses (cfg s) (ezsp_seq s) (config_talk @ es) m" and "miso s = m @ rest"
  obtains t m2 where "ezsp_apply_config spi p s = Some ((), t)" "miso t = m2 @ rest"
    "converses (cfg t) (ezsp_seq t) es m2" "kfail t = []" "calls s t"
proof -
  note conf = accepted_config [where spi = spi and p = p]
  have c0: "converses (cfg s) (ezsp_seq s) (accepted EZSP_SET_CONFIGURATION_VALUE
      [EZSP_CONFIG_STACK_PROFILE, ucast (2 AND 0xFF :: u16), ucast (drop_bit 8 2 :: u16)] # tl config_talk @ es) m"
    using assms(2) by (simp add: config_talk_def)
  obtain s1 m1 where s1: "ezsp_set_config spi p EZSP_CONFIG_STACK_PROFILE 2 s = Some (0, s1)" "miso s1 = m1 @ rest"
    "converses (cfg s1) (ezsp_seq s1) (tl config_talk @ es) m1" "kfail s1 = []" "calls s s1"
    by (rule conf [OF assms(1) c0 assms(3)])
  have c1: "converses (cfg s1) (ezsp_seq s1) (accepted EZSP_SET_CONFIGURATION_VALUE
      [EZSP_CONFIG_SECURITY_LEVEL, ucast (5 AND 0xFF :: u16), ucast (drop_bit 8 5 :: u16)] # drop 2 config_talk @ es) m1"
    using s1(3) by (simp add: config_talk_def)
  obtain s2 m2 where s2: "ezsp_set_config spi p EZSP_CONFIG_SECURITY_LEVEL 5 s1 = Some (0, s2)" "miso s2 = m2 @ rest"
    "converses (cfg s2) (ezsp_seq s2) (drop 2 config_talk @ es) m2" "kfail s2 = []" "calls s1 s2"
    by (rule conf [OF s1(4) c1 s1(2)])
  have c2: "converses (cfg s2) (ezsp_seq s2) (accepted EZSP_SET_CONFIGURATION_VALUE
      [EZSP_CONFIG_KEY_TABLE_SIZE, ucast (4 AND 0xFF :: u16), ucast (drop_bit 8 4 :: u16)] # drop 3 config_talk @ es) m2"
    using s2(3) by (simp add: config_talk_def)
  obtain s3 m3 where s3: "ezsp_set_config spi p EZSP_CONFIG_KEY_TABLE_SIZE 4 s2 = Some (0, s3)" "miso s3 = m3 @ rest"
    "converses (cfg s3) (ezsp_seq s3) (drop 3 config_talk @ es) m3" "kfail s3 = []" "calls s2 s3"
    by (rule conf [OF s2(4) c2 s2(2)])
  have c3: "converses (cfg s3) (ezsp_seq s3) (accepted EZSP_SET_CONFIGURATION_VALUE
      [EZSP_CONFIG_TC_ADDRESS_CACHE_SIZE, ucast (2 AND 0xFF :: u16), ucast (drop_bit 8 2 :: u16)] # drop 4 config_talk @ es) m3"
    using s3(3) by (simp add: config_talk_def)
  obtain s4 m4 where s4: "ezsp_set_config spi p EZSP_CONFIG_TC_ADDRESS_CACHE_SIZE 2 s3 = Some (0, s4)" "miso s4 = m4 @ rest"
    "converses (cfg s4) (ezsp_seq s4) (drop 4 config_talk @ es) m4" "kfail s4 = []" "calls s3 s4"
    by (rule conf [OF s3(4) c3 s3(2)])
  have c4: "converses (cfg s4) (ezsp_seq s4) (accepted EZSP_ADD_ENDPOINT endpoint_params # es) m4"
    using s4(3) by (simp add: config_talk_def)
  obtain s5 m5 where s5: "ezsp_cmd spi p EZSP_ADD_ENDPOINT endpoint_params (replicate 8 0) s4 =
      Some ((1, EMBER_SUCCESS # tl (replicate 8 0)), s5)" "miso s5 = m5 @ rest"
    "converses (cfg s5) (ezsp_seq s5) es m5" "kfail s5 = []" "calls s4 s5"
    by (rule accepted_cmd [OF s4(4) _ c4 s4(2), of "replicate 8 0" spi p]) simp
  have "calls s s5" using s1(5) s2(5) s3(5) s4(5) s5(5) calls.trans by blast
  moreover have "ezsp_apply_config spi p s = Some ((), s5)"
    using s1(1) s2(1) s3(1) s4(1) s5(1) by (simp add: ezsp_apply_config_def ezsp_add_endpoint_def)
  ultimately show thesis using that s5 by blast
qed

lemma join_setup_talk:
  assumes "kfail s = []" and "8 \<le> length out" and "converses (cfg s) (ezsp_seq s) (setup_talk (cfg s) @ es) m"
    and "miso s = m @ rest"
  obtains t m2 out' where "join_setup spi p out s = Some ((True, out'), t)" "miso t = m2 @ rest"
    "converses (cfg t) (ezsp_seq t) es m2" "kfail t = []" "calls s t" "8 \<le> length out'"
proof -
  let ?rb = "(EZSP_GET_CONFIGURATION_VALUE, [EZSP_CONFIG_STACK_PROFILE], EZSP_GET_CONFIGURATION_VALUE, [EMBER_SUCCESS, 2, 0])"
  let ?sec = "accepted EZSP_SET_INITIAL_SECURITY_STATE (security_params (cfg_sec_bitmask (cfg s)))"
  have c: "converses (cfg s) (ezsp_seq s) (config_talk @ ?rb # ?sec # es) m"
    using assms(3) by (simp add: setup_talk_def)
  obtain s1 m1 where s1: "ezsp_apply_config spi p s = Some ((), s1)" "miso s1 = m1 @ rest"
    "converses (cfg s1) (ezsp_seq s1) (?rb # ?sec # es) m1" "kfail s1 = []" "calls s s1"
    by (rule apply_config_talk [OF assms(1) c assms(4), of spi p])
  let ?o = "[EMBER_SUCCESS, 2, 0] @ drop (length [EMBER_SUCCESS, 2, 0]) out"
  obtain s2 m2 where s2: "ezsp_cmd spi p EZSP_GET_CONFIGURATION_VALUE [EZSP_CONFIG_STACK_PROFILE] out s1 =
      Some ((int (length [EMBER_SUCCESS, 2, 0]), ?o), s2)" "miso s2 = m2 @ rest"
    "converses (cfg s2) (ezsp_seq s2) (?sec # es) m2" "kfail s2 = []" "calls s1 s2"
    by (rule cmd_replied [OF s1(4) _ s1(3,2), of out spi p]) (use assms(2) in auto)
  obtain s3 m3 where s3: "ezsp_cmd spi p EZSP_SET_INITIAL_SECURITY_STATE (security_params (cfg_sec_bitmask (cfg s))) ?o s2 =
      Some ((1, EMBER_SUCCESS # tl ?o), s3)" "miso s3 = m3 @ rest"
    "converses (cfg s3) (ezsp_seq s3) es m3" "kfail s3 = []" "calls s2 s3"
    by (rule accepted_cmd [OF s2(4) _ s2(3,2), of ?o spi p]) simp
  have b: "cfg s2 = cfg s" using callsD [OF s1(5)] callsD [OF s2(5)] by simp
  have "join_setup spi p out s = Some ((True, EMBER_SUCCESS # tl ?o), s3)"
    using s1(1) s2(1) s3(1) b by (simp add: join_setup_def)
  moreover have "calls s s3" using s1(5) s2(5) s3(5) calls.trans by blast
  moreover have "8 \<le> length (EMBER_SUCCESS # tl ?o)" using assms(2) by simp
  ultimately show thesis using that s3 by blast
qed

text \<open>
  C12: Joining makes progress. If the NCP accepts the configuration and the security state, and
  then answers the attempts with at most the configured number of transient failures before
  a NETWORK_UP, each within the timeout's polls, \<open>cmd_join\<close> returns 0: no failure on the way
  makes it give up early and it does not wait for anything else.
\<close>

theorem join_succeeds:
  assumes "ezsp_init spi p s = Some (v, s1)" and "0 \<le> v"
    and "join_precheck spi p stk s1 = Some (Some upd, s2)" and "kfail s2 = []" and "8 \<le> length out"
  defines "c \<equiv> cfg s2"
  assumes "length fails \<le> nat (sint (cfg_join_retries c))" and "k < join_polls c"
    and "\<forall>(k, st) \<in> set fails. k < join_polls c \<and> transient st"
    and "converses c (ezsp_seq s2) (setup_talk c @
       concat (map (attempt_talk c upd) fails) @ attempt_talk c upd (k, EMBER_NETWORK_UP)) m"
    and "miso s2 = m @ rest"
  shows "\<exists>t. join_body stk out spi p s = Some (0, t) \<and> miso t = rest"
proof -
  obtain t m2 out' where t: "join_setup spi p out s2 = Some ((True, out'), t)" "miso t = m2 @ rest"
    "converses (cfg t) (ezsp_seq t)
       (concat (map (attempt_talk c upd) fails) @ attempt_talk c upd (k, EMBER_NETWORK_UP)) m2"
    "kfail t = []" "calls s2 t" "8 \<le> length out'"
    by (rule join_setup_talk [OF assms(4,5) assms(10) [unfolded c_def] assms(11), of spi p])
      (simp add: c_def)
  have f: "cfg t = c" using callsD [OF t(5)] by (simp add: c_def)
  have "\<exists>u. join_attempt (nat (sint (cfg_join_retries (cfg t)))) spi p upd out' t = Some (0, u) \<and> miso u = rest"
    by (rule join_attempt_talk [where fails = fails and k = k and m = m2]) (use t f assms in simp_all)
  with assms(1-3) t(1) show ?thesis by (simp add: join_body_def not_less)
qed


text \<open>The bytes of an NCP that answers at once.\<close>

fun talk_bytes :: "cfg \<Rightarrow> (u8 \<times> u8 list \<times> u8 \<times> u8 list) list \<Rightarrow> u8 list" where
  "talk_bytes c [] = []"
| "talk_bytes c ((fid, ps, rid, payload) # es) =
     (replicate (length (ezsp_tx (cfg_ezsp_version c) 0 fid ps)) 0xFF @ replicate 0 SPI_IDLE @
      spi_frame (ezsp_header (cfg_ezsp_version c) 0 rid @ payload)) @ talk_bytes c es"

lemma length_ezsp_tx: "length (ezsp_tx ver q fid ps) = length (ezsp_tx ver q' fid ps)"
  by (simp add: ezsp_tx_def length_ezsp_header)

lemma frame_is_reply:
  assumes "length payload \<le> 8"
  shows "is_reply (spi_frame (ezsp_header ver h rid @ payload))"
  using spi_frame_reply [of "ezsp_header ver h rid @ payload"] layout_bounds [of "uint ver"] assms
  by (simp add: length_ezsp_header)

lemma converses_talk:
  assumes "list_all (\<lambda>(fid, ps, rid, payload). length ps \<le> 155 \<and> length payload \<le> 8) es"
    and "0 < unat (cfg_wait_bytes c)"
  shows "converses c q es (talk_bytes c es)"
  using assms
proof (induction es arbitrary: q)
  case (Cons e es)
  obtain fid ps rid payload where e: "e = (fid, ps, rid, payload)" by (cases e)
  let ?m1 = "replicate (length (ezsp_tx (cfg_ezsp_version c) 0 fid ps)) 0xFF @ replicate 0 SPI_IDLE @
      spi_frame (ezsp_header (cfg_ezsp_version c) 0 rid @ payload)"
  have "answers c (ezsp_tx (cfg_ezsp_version c) q fid ps) (spi_frame (ezsp_header (cfg_ezsp_version c) 0 rid @ payload)) ?m1"
    by (rule answersI) (use Cons.prems e frame_is_reply in \<open>auto intro: length_ezsp_tx\<close>)
  moreover have "length ps \<le> 155" "length payload \<le> 8" "converses c (q + 1) es (talk_bytes c es)"
    using Cons e by auto
  ultimately show ?case
    unfolding e talk_bytes.simps converses.simps
    by blast
qed simp

definition talk_small :: "(u8 \<times> u8 list \<times> u8 \<times> u8 list) list \<Rightarrow> bool" where
  "talk_small = list_all (\<lambda>(fid, ps, rid, payload). length ps \<le> 155 \<and> length payload \<le> 8)"

lemma talk_small_setup: "talk_small (setup_talk c)"
  by (simp add: talk_small_def setup_talk_def config_talk_def accepted_def endpoint_params_def
      security_params_def zigbee_alliance_09_def)

lemma talk_small_attempt: "talk_small (attempt_talk c upd f)"
  using length_join_params [of c upd]
  by (cases f) (simp add: talk_small_def attempt_talk_def quiet_polls_def list_all_iff)

lemma talk_small_append: "talk_small (xs @ ys) \<longleftrightarrow> talk_small xs \<and> talk_small ys"
  by (simp add: talk_small_def)

definition join_cfg :: cfg where
  "join_cfg = default_cfg\<lparr>cfg_channel := 15, cfg_pan_id := 0x1A62, cfg_have_pan_id := True,
     cfg_ext_pan_id := [1, 2, 3, 4, 5, 6, 7, 8], cfg_have_ext_pan_id := True, cfg_no_precheck := True\<rparr>"

definition join_script :: "(u8 \<times> u8 list \<times> u8 \<times> u8 list) list" where
  \<comment> \<open>the key is lost once, the second attempt succeeds\<close>
  "join_script = setup_talk join_cfg @ concat (map (attempt_talk join_cfg 0) [(3, 0xAD)]) @
     attempt_talk join_cfg 0 (2, EMBER_NETWORK_UP)"

definition join_sys :: sys where
  "join_sys = sys0\<lparr>cfg := join_cfg, miso := version_bytes 4 @ talk_bytes join_cfg join_script @ []\<rparr>"

theorem join_succeeds_witness:
  "\<exists>t. join_body (replicate 64 0) (replicate 64 0) 9 sample_pins join_sys = Some (0, t) \<and> miso t = []"
proof -
  have s: "kfail join_sys = []" "cfg join_sys = join_cfg" "ezsp_seq join_sys = 0"
    "miso join_sys = version_bytes 4 @ (talk_bytes join_cfg join_script @ [])"
    by (simp_all add: join_sys_def sys0_def)
  have c: "ucast (cfg_ezsp_want join_cfg) = (4 :: u8)" "cfg_wait_bytes join_cfg = 512"
    "cfg_ezsp_version join_cfg = 4" "cfg_no_precheck join_cfg" "cfg_join_retries join_cfg = 2"
    "join_polls join_cfg = 240" "join_cfg\<lparr>cfg_ezsp_version := 4\<rparr> = join_cfg"
    by (simp_all add: join_cfg_def default_cfg_def join_polls_def)
  obtain s1 where s1: "ezsp_init 9 sample_pins join_sys = Some (4, s1)"
    "miso s1 = talk_bytes join_cfg join_script @ []" "kfail s1 = []" "cfg s1 = join_cfg"
    using init_direct [where s = join_sys and h = "[0, 0x80, 0]" and stack = "[2, 0x10, 0x58]" and spi = 9
      and p = sample_pins, unfolded s(2,3) c(1), OF s(1) _ _ _ version_answers [OF c(2)] s(4)] c(7) by auto
  have pre: "join_precheck 9 sample_pins (replicate 64 0) s1 = Some (Some 0, s1)"
    using c(4) s1(4) by (simp add: join_precheck_def)
  have small: "talk_small join_script"
    by (simp add: join_script_def talk_small_append talk_small_setup talk_small_attempt)
  have w: "0 < unat (cfg_wait_bytes join_cfg)" using c(2) by simp
  have talk: "converses join_cfg (ezsp_seq s1) join_script (talk_bytes join_cfg join_script)"
    by (rule converses_talk [OF small [unfolded talk_small_def] w])
  show ?thesis
    by (rule join_succeeds [OF s1(1) _ pre s1(3), unfolded s1(4) c(5,6),
          of _ "[(3, 0xAD)]" 2 "talk_bytes join_cfg join_script" "[]"])
      (use talk s1(2) in \<open>simp_all add: join_script_def transient_def\<close>)
qed


section \<open>When a join is not attempted, and that it returns\<close>

text \<open>
  C13: A network that is not heard, or that does not permit joining, is not joined: after the
  scan nothing more is sent to the NCP and the exit code is 1.
\<close>

theorem join_refuses_closed:
  assumes "ezsp_init spi p s = Some (v, s1)" and "0 \<le> v" and "\<not> cfg_no_precheck (cfg s1)"
    and "scan_find spi p (cfg_channel (cfg s1)) (cfg_pan_id (cfg s1)) stk s1 = Some ((r, f), s2)"
    and "0 \<le> r" and "\<forall>ext allowing upd. f = Some (ext, allowing, upd) \<longrightarrow> \<not> allowing"
  shows "\<exists>t. join_body stk out spi p s = Some (1, t) \<and> trace t = trace s2"
proof (cases f)
  case None
  with assms show ?thesis by (simp add: join_body_def join_precheck_def not_less)
next
  case (Some g)
  obtain ext allowing upd where g: "g = (ext, allowing, upd)" by (cases g)
  with assms(6) Some have "\<not> allowing" by simp
  with assms Some g show ?thesis
    by (simp add: join_body_def join_precheck_def not_less set_ext_pan_id_def)
qed

text \<open>
  C22: With the arguments it needs, the lines opened and a kernel that refuses nothing, \<open>cmd_join\<close>
  returns whatever the NCP does, silence included: retries and polls are bounded.
\<close>

theorem join_returns:
  assumes "join_args_ok (cfg s)" and "pins_open s = Some (p, s0)" and "kfail s0 = []"
  shows "\<exists>code t. cmd_join stk out s = Some (code, t) \<and> kfail t = []"
  using session_lives [OF assms(2,3) lives_join_body] assms(1) by (simp add: cmd_join_def)

definition join_v1 :: sys where
  "join_v1 = v1_sys\<lparr>cfg := join_cfg\<rparr>"

lemma join_v1_opens: "\<exists>s0. pins_open join_v1 = Some (opened_pins, s0) \<and> kfail s0 = []"
proof -
  have b: "board_detect join_v1 = Some whw03"
    by (simp add: board_detect_def join_v1_def v1_sys_def sys0_def boards_def whw03_def whw03v2_def c_string_def)
  have a: "pins_autodetect join_v1 = Some ((), join_v1\<lparr>cfg := board_lines whw03 join_cfg\<rparr>)"
    by (simp add: pins_autodetect_def b) (simp add: join_v1_def v1_sys_def sys0_def board_lines_def whw03_def join_cfg_def default_cfg_def)
  show ?thesis
    unfolding pins_open_def a
    by (simp add: gpio_request_output_def gpio_try_output_def gpio_request_input_edges_def take_line_def
        nssel_int_open_def board_lines_def join_v1_def v1_sys_def sys0_def join_cfg_def default_cfg_def whw03_def emit_def opened_pins_def)
qed

lemma join_v1_args: "join_args_ok (cfg join_v1)"
  by (simp add: join_args_ok_def join_v1_def join_cfg_def)

theorem join_returns_witness: "\<exists>code t. cmd_join [] [] join_v1 = Some (code, t) \<and> kfail t = []"
  using join_v1_opens join_returns [OF join_v1_args] by blast



definition deaf_cfg :: cfg where
  "deaf_cfg = default_cfg\<lparr>cfg_channel := 15, cfg_pan_id := 0x1A62, cfg_have_pan_id := True\<rparr>"

definition deaf_script :: "(u8 \<times> u8 list \<times> u8 \<times> u8 list) list" where
  \<comment> \<open>the scan is accepted and completes without a network\<close>
  "deaf_script = [accepted EZSP_START_SCAN (scan_params (push_bit 15 1) 3),
     (EZSP_CALLBACK, [], EZSP_SCAN_COMPLETE_HANDLER, [15, 0])]"

definition deaf_sys :: sys where
  "deaf_sys = sys0\<lparr>cfg := deaf_cfg, miso := version_bytes 4 @ (talk_bytes deaf_cfg deaf_script @ [])\<rparr>"

lemma deaf_scan:
  assumes "kfail s = []" and "cfg s = deaf_cfg" and "miso s = talk_bytes deaf_cfg deaf_script @ []"
  shows "\<exists>t. scan_find 9 sample_pins 15 0x1A62 (replicate 64 0) s = Some ((0, None), t)"
proof -
  have "converses deaf_cfg (ezsp_seq s) deaf_script (talk_bytes deaf_cfg deaf_script)"
    by (rule converses_talk)
      (simp_all add: deaf_script_def accepted_def scan_params_def deaf_cfg_def default_cfg_def)
  then have c: "converses (cfg s) (ezsp_seq s) (accepted EZSP_START_SCAN (scan_params (push_bit 15 1) 3) #
      [(EZSP_CALLBACK, [], EZSP_SCAN_COMPLETE_HANDLER, [15, 0])]) (talk_bytes deaf_cfg deaf_script)"
    by (simp add: assms(2) deaf_script_def)
  obtain s1 m1 where s1: "ezsp_cmd 9 sample_pins EZSP_START_SCAN (scan_params (push_bit 15 1) 3) (replicate 64 0) s =
      Some ((1, EMBER_SUCCESS # tl (replicate 64 0)), s1)" "miso s1 = m1 @ []"
    "converses (cfg s1) (ezsp_seq s1) [(EZSP_CALLBACK, [], EZSP_SCAN_COMPLETE_HANDLER, [15, 0])] m1"
    "kfail s1 = []"
    by (rule accepted_cmd [OF assms(1) _ c assms(3), of "replicate 64 0" 9 sample_pins]) simp
  obtain s2 where s2: "usleep 250000 s1 = Some ((), s2)" "cfg s2 = cfg s1" "ezsp_seq s2 = ezsp_seq s1"
    "miso s2 = miso s1" "kfail s2 = kfail s1" "calls s1 s2" by (rule usleep_quiet)
  let ?o = "EMBER_SUCCESS # tl (replicate 64 0)"
  obtain s3 m3 where s3: "ezsp_poll_callback 9 sample_pins ?o s2 =
      Some ((if EZSP_SCAN_COMPLETE_HANDLER = EZSP_NO_CALLBACKS then 0 else EZSP_SCAN_COMPLETE_HANDLER,
        [15, 0] @ drop (length [15, 0 :: u8]) ?o), s3)" "miso s3 = m3 @ []"
    by (rule poll_replied [of s2 "[15, 0]" ?o EZSP_SCAN_COMPLETE_HANDLER "[]" m1 "[]" 9 sample_pins])
      (use s1 s2 in auto)
  have 80: "(80 :: nat) = Suc 79" by simp
  have p: "push_bit (unat (15 :: u32)) (1 :: u32) = push_bit 15 1" by simp
  have "find_loop 80 9 sample_pins 0x1A62 ?o s1 = Some ((0, None), s3)"
    unfolding 80 find_loop.simps using s2(1) s3(1) by simp
  then show ?thesis unfolding scan_find_def p using s1(1) by simp
qed

theorem join_refuses_closed_witness:
  "\<exists>t. join_body (replicate 64 0) [] 9 sample_pins deaf_sys = Some (1, t)"
proof -
  have s: "kfail deaf_sys = []" "cfg deaf_sys = deaf_cfg"
    "miso deaf_sys = version_bytes 4 @ (talk_bytes deaf_cfg deaf_script @ [])"
    by (simp_all add: deaf_sys_def sys0_def)
  have c: "ucast (cfg_ezsp_want deaf_cfg) = (4 :: u8)" "cfg_wait_bytes deaf_cfg = 512"
    "\<not> cfg_no_precheck deaf_cfg" "cfg_channel deaf_cfg = 15" "cfg_pan_id deaf_cfg = 0x1A62"
    "deaf_cfg\<lparr>cfg_ezsp_version := 4\<rparr> = deaf_cfg"
    by (simp_all add: deaf_cfg_def default_cfg_def)
  obtain s1 where s1: "ezsp_init 9 sample_pins deaf_sys = Some (4, s1)"
    "miso s1 = talk_bytes deaf_cfg deaf_script @ []" "kfail s1 = []" "cfg s1 = deaf_cfg"
    using init_direct [where s = deaf_sys and h = "[0, 0x80, 0]" and stack = "[2, 0x10, 0x58]" and spi = 9
      and p = sample_pins, unfolded s(2) c(1), OF s(1) _ _ _ version_answers [OF c(2)] s(3)] c(6) by auto
  obtain s2 where s2: "scan_find 9 sample_pins 15 0x1A62 (replicate 64 0) s1 = Some ((0, None), s2)"
    using deaf_scan [OF s1(3,4,2)] by blast
  show ?thesis
    using join_refuses_closed [OF s1(1) _ _ _ , unfolded s1(4) c(4,5), OF _ c(3) s2, of "[]"] by auto
qed


section \<open>Leaving\<close>

lemma leave_wait_down:
  "leave_wait i spi p out s = Some (r, t) \<Longrightarrow>
   (r = 0 \<or> r = 1) \<and> (r = 0 \<longrightarrow> status_seen EMBER_NETWORK_DOWN spi p t)"
proof (induction i arbitrary: out s)
  case (Suc i)
  from Suc.prems obtain fid out1 s1 s2 where
    p: "ezsp_poll_callback spi p out s1 = Some ((fid, out1), s2)" and
    r: "(if fid = EZSP_STACK_STATUS_HANDLER \<and> out1 ! 0 = EMBER_NETWORK_DOWN then Some (0, s2)
       else leave_wait i spi p out1 s2) = Some (r, t)"
    by (auto simp: Option.bind_eq_Some_conv)
  show ?case
    using r p Suc.IH [of out1 s2] by (fastforce simp: status_seen_def split: if_splits)
qed simp

text \<open>Leaving reports success only after the NCP said that the network is down.\<close>

lemma leave_reports_down:
  assumes "cmd_leave out s = Some (code, t)"
  shows "(code = 0 \<or> code = 1) \<and> (\<exists>p s0 spi s1. pins_open s = Some (p, s0) \<and>
     trace t = trace s1 @ all_closed spi p \<and>
     (code = 0 \<longrightarrow> status_seen EMBER_NETWORK_DOWN spi p s1))"
proof -
  obtain p s0 spi s1 s2 s3 where o: "pins_open s = Some (p, s0)"
    and b: "leave_body out spi p s2 = Some (code, s3)" and c: "trace t = trace s3 @ all_closed spi p"
    using assms unfolding cmd_leave_def by (rule session_cases)
  have "(code = 0 \<or> code = 1) \<and> (code = 0 \<longrightarrow> status_seen EMBER_NETWORK_DOWN spi p s3)"
    using b by (auto simp: leave_body_def Option.bind_eq_Some_conv split: if_splits dest: leave_wait_down)
  with o c show ?thesis by blast
qed

end
