(* ===== verification/Text.thy ===== *)
theory Text
  imports Join
begin

text \<open>
  Numbers as text: what the program uses of \<open>printf\<close>'s conversions \<open>%02X\<close>, \<open>%04X\<close>, \<open>%u\<close>,
  \<open>%d\<close> and of \<open>strtoul\<close> and \<open>strtol\<close>, with their results at the width of the 32-bit target
  (\<open>unsigned long\<close> has 32 bits), \<open>snprintf\<close> into a buffer at a position, and the reader of an
  extended pan id (control.c). A C string is the characters before its terminator.
\<close>

unbundle bit_operations_syntax

section \<open>Printing\<close>

definition digit_char :: "nat \<Rightarrow> char" where
  "digit_char d = char_of (if d < 10 then 48 + d else 55 + d)"

definition hex2 :: "u8 \<Rightarrow> string" where
  "hex2 b = [digit_char (unat b div 16), digit_char (unat b mod 16)]"

definition hex4 :: "u16 \<Rightarrow> string" where
  "hex4 w = hex2 (hi8 w) @ hex2 (lo8 w)"

fun dec :: "nat \<Rightarrow> string" where
  "dec n = (if n < 10 then [digit_char n] else dec (n div 10) @ [digit_char (n mod 10)])"

declare dec.simps [simp del]

definition dec_int :: "int \<Rightarrow> string" where
  "dec_int i = (if i < 0 then CHR ''-'' # dec (nat (- i)) else dec (nat i))"

fun joined :: "string \<Rightarrow> string list \<Rightarrow> string" where
  "joined sep [] = []"
| "joined sep [t] = t"
| "joined sep (t # ts) = t @ sep @ joined sep ts"

definition colon_hex :: "u8 list \<Rightarrow> string" where
  "colon_hex bs = joined '':'' (map hex2 bs)"

text \<open>
  A buffer of \<open>lim\<close> bytes that is filled by \<open>at += snprintf(buf + at, lim - at, ...)\<close>: its
  text and \<open>at\<close>, which counts what did not fit, too. Past the buffer's end \<open>lim - at\<close> wraps
  around and the call writes outside of it; that is \<open>None\<close>.
\<close>

type_synonym outbuf = "(string \<times> nat) option"

definition bprintf :: "nat \<Rightarrow> string \<Rightarrow> outbuf \<Rightarrow> outbuf" where
  "bprintf lim t b = (case b of
      None \<Rightarrow> None
    | Some (s, at) \<Rightarrow> if lim < at then None else Some (s @ take (lim - at - 1) t, at + length t))"


section \<open>Reading\<close>

definition digit_of :: "char \<Rightarrow> nat option" where
  "digit_of c = (let k = of_char c :: nat in
     if 48 \<le> k \<and> k \<le> 57 then Some (k - 48)
     else if 65 \<le> k \<and> k \<le> 90 then Some (k - 55)
     else if 97 \<le> k \<and> k \<le> 122 then Some (k - 87)
     else None)"

definition is_digit :: "nat \<Rightarrow> char \<Rightarrow> bool" where
  "is_digit b c = (case digit_of c of None \<Rightarrow> False | Some d \<Rightarrow> d < b)"

definition digits_value :: "nat \<Rightarrow> string \<Rightarrow> nat" where
  "digits_value b ds = foldl (\<lambda>v c. v * b + the (digit_of c)) 0 ds"

definition is_space :: "char \<Rightarrow> bool" where
  "is_space c = (let k = of_char c :: nat in k = 32 \<or> 9 \<le> k \<and> k \<le> 13)"

text \<open>The base and what is left to read, after an optional \<open>0x\<close> or, for base 0, a leading 0.\<close>

fun base_prefix :: "nat \<Rightarrow> string \<Rightarrow> nat \<times> string" where
  "base_prefix b (z # x # d # r) =
     (if (b = 0 \<or> b = 16) \<and> z = CHR ''0'' \<and> (x = CHR ''x'' \<or> x = CHR ''X'') \<and> is_digit 16 d then (16, d # r)
      else (if b \<noteq> 0 then b else if z = CHR ''0'' then 8 else 10, z # x # d # r))"
| "base_prefix b (z # r) = (if b \<noteq> 0 then b else if z = CHR ''0'' then 8 else 10, z # r)"
| "base_prefix b [] = (if b \<noteq> 0 then b else 10, [])"

text \<open>Sign, magnitude and rest of the number a text starts with.\<close>

definition strto :: "nat \<Rightarrow> string \<Rightarrow> (bool \<times> nat \<times> string) option" where
  "strto b t =
     (let t1 = dropWhile is_space t;
          neg = (t1 \<noteq> [] \<and> hd t1 = CHR ''-'');
          t2 = (if t1 \<noteq> [] \<and> (hd t1 = CHR ''-'' \<or> hd t1 = CHR ''+'') then tl t1 else t1);
          (b, t3) = base_prefix b t2;
          ds = takeWhile (is_digit b) t3
      in if ds = [] then None else Some (neg, digits_value b ds, dropWhile (is_digit b) t3))"

definition strtoul :: "nat \<Rightarrow> string \<Rightarrow> u32 \<times> string" where
  "strtoul b t = (case strto b t of
      None \<Rightarrow> (0, t)
    | Some (neg, v, r) \<Rightarrow>
        (if v \<ge> 2 ^ 32 then - 1 else if neg then - of_nat v else of_nat v, r))"

definition strtol :: "nat \<Rightarrow> string \<Rightarrow> int" where
  "strtol b t = (case strto b t of
      None \<Rightarrow> 0
    | Some (neg, v, r) \<Rightarrow>
        if neg then max (- (2 ^ 31)) (- int v) else min (2 ^ 31 - 1) (int v))"


section \<open>Extended pan ids (control.c)\<close>

definition is_sep :: "char \<Rightarrow> bool" where
  "is_sep c \<longleftrightarrow> c = CHR '' '' \<or> c = CHR ''['' \<or> c = CHR '','' \<or> c = CHR '':''"

text \<open>The loop, with room for \<open>k\<close> more bytes: \<open>None\<close> is \<open>die\<close>.\<close>

fun parse_bytes :: "nat \<Rightarrow> nat \<Rightarrow> string \<Rightarrow> u8 list option" where
  "parse_bytes 0 b q = Some []"
| "parse_bytes (Suc k) b q =
     (let q1 = dropWhile is_sep q in
      if q1 = [] then Some []
      else let (v, rest) = strtoul b q1 in
        if rest = q1 then Some []
        else if v > 0xFF then None
        else map_option (Cons (ucast v)) (parse_bytes k b rest))"

definition parse_ext_pan_id :: "string \<Rightarrow> (sys, unit) cmd" where
  "parse_ext_pan_id t s =
     (case parse_bytes 8 (if CHR '':'' \<in> set t then 16 else 10) t of
        None \<Rightarrow> None
      | Some bs \<Rightarrow> if length bs \<noteq> 8 then None
                   else Some ((), s\<lparr>cfg := (cfg s)\<lparr>cfg_ext_pan_id := bs\<rparr>\<rparr>))"


section \<open>Numbers read back\<close>

lemma of_digit_char: "d < 36 \<Longrightarrow> digit_of (digit_char d) = Some d"
  by (auto simp: digit_of_def digit_char_def of_char_of Let_def)

lemma is_digit_char: "d < b \<Longrightarrow> b \<le> 36 \<Longrightarrow> is_digit b (digit_char d)"
  by (simp add: is_digit_def of_digit_char)

lemma digits_value_snoc: "digits_value b (ds @ [c]) = digits_value b ds * b + the (digit_of c)"
  by (simp add: digits_value_def)

lemma value_dec: "digits_value 10 (dec n) = n"
proof (induction n rule: dec.induct)
  case (1 n)
  then show ?case
    by (subst dec.simps) (auto simp: digits_value_snoc of_digit_char digits_value_def [of _ "[_]"])
qed

lemma dec_digits: "list_all (is_digit 10) (dec n)"
proof (induction n rule: dec.induct)
  case (1 n)
  then show ?case by (subst dec.simps) (auto simp: is_digit_char)
qed

lemma dec_nonempty: "dec n \<noteq> []"
  by (subst dec.simps) simp

lemma length_dec: "n < 10 ^ k \<Longrightarrow> 0 < k \<Longrightarrow> length (dec n) \<le> k"
proof (induction n arbitrary: k rule: dec.induct)
  case (1 n)
  show ?case
  proof (cases "n < 10")
    case False
    obtain j where k: "k = Suc j" using "1.prems"(2) by (cases k) auto
    have "n div 10 < 10 ^ j" using "1.prems"(1) k by (simp add: less_mult_imp_div_less mult.commute)
    moreover have "0 < j" using False "1.prems"(1) k by (cases j) auto
    ultimately show ?thesis using "1.IH" [OF False] False k by (subst dec.simps) simp
  qed (use 1 in \<open>subst dec.simps, simp\<close>)
qed


lemma digit_code: "is_digit b c \<Longrightarrow> 48 \<le> (of_char c :: nat)"
  by (simp add: is_digit_def digit_of_def Let_def split: if_splits)

lemma digit_plain: "is_digit b c \<Longrightarrow> \<not> is_space c \<and> \<not> is_sep c \<and> c \<noteq> CHR ''-'' \<and> c \<noteq> CHR ''+''"
proof -
  assume d: "is_digit b c"
  have "c \<noteq> CHR ''-''" "c \<noteq> CHR ''+''" "c \<noteq> CHR '' ''" "c \<noteq> CHR ''[''" "c \<noteq> CHR '',''" "c \<noteq> CHR '':''"
    using d by (auto simp: is_digit_def digit_of_def)
  then show ?thesis using digit_code [OF d] by (auto simp: is_space_def is_sep_def Let_def)
qed

lemma sep_no_digit: "is_sep c \<Longrightarrow> \<not> is_digit b c"
  using digit_plain by blast

lemma takeWhile_digits:
  assumes "list_all P ds" and "r = [] \<or> \<not> P (hd r)"
  shows "takeWhile P (ds @ r) = ds" and "dropWhile P (ds @ r) = r"
  using assms by (induction ds) (cases r; auto)+

lemma strto_plain:
  assumes "ds \<noteq> []" and "list_all (is_digit b) ds" and "r = [] \<or> \<not> is_digit b (hd r)"
    and "base_prefix b (ds @ r) = (b, ds @ r)"
  shows "strto b (ds @ r) = Some (False, digits_value b ds, r)"
proof -
  obtain c cs where ds: "ds = c # cs" using assms(1) by (cases ds) auto
  have "\<not> is_space c \<and> c \<noteq> CHR ''-'' \<and> c \<noteq> CHR ''+''"
    using digit_plain assms(2) ds by auto
  then show ?thesis
    using assms(4) takeWhile_digits [OF assms(2,3)] assms(1)
    unfolding strto_def ds by (simp add: Let_def)
qed

lemma base_prefix_plain: "b \<noteq> 0 \<Longrightarrow> b \<noteq> 16 \<Longrightarrow> base_prefix b t = (b, t)"
  by (cases "(b, t)" rule: base_prefix.cases) simp_all

lemma strto_dec:
  "r = [] \<or> \<not> is_digit 10 (hd r) \<Longrightarrow> strto 10 (dec n @ r) = Some (False, n, r)"
  using strto_plain [OF dec_nonempty dec_digits] by (simp add: base_prefix_plain value_dec)

lemma strtoul_dec:
  "n < 2 ^ 32 \<Longrightarrow> r = [] \<or> \<not> is_digit 10 (hd r) \<Longrightarrow> strtoul 10 (dec n @ r) = (of_nat n, r)"
  by (simp add: strtoul_def strto_dec)

text \<open>Two hexadecimal digits.\<close>

lemma hex2_digits: "list_all (is_digit 16) (hex2 b)"
  using unat_u8_le [of b] by (simp add: hex2_def is_digit_char)

lemma value_hex2: "digits_value 16 (hex2 b) = unat b"
  using unat_u8_le [of b] by (simp add: hex2_def digits_value_def of_digit_char)

lemma not_x: "is_digit 16 c \<Longrightarrow> c \<noteq> CHR ''x'' \<and> c \<noteq> CHR ''X''"
  by (auto simp: is_digit_def digit_of_def)

lemma base_prefix_hex2: "base_prefix 16 (hex2 b @ r) = (16, hex2 b @ r)"
proof -
  have "digit_char (unat b mod 16) \<noteq> CHR ''x'' \<and> digit_char (unat b mod 16) \<noteq> CHR ''X''"
    by (rule not_x) (simp add: is_digit_char)
  then show ?thesis by (cases r) (simp_all add: hex2_def)
qed

lemma strtoul_hex2:
  assumes "r = [] \<or> \<not> is_digit 16 (hd r)" shows "strtoul 16 (hex2 b @ r) = (ucast b, r)"
proof -
  have "strto 16 (hex2 b @ r) = Some (False, unat b, r)"
    using strto_plain [OF _ hex2_digits assms base_prefix_hex2] by (simp add: value_hex2) (simp add: hex2_def)
  moreover have "unat b < 2 ^ 32" using unat_u8_le [of b] by simp
  moreover have "(of_nat (unat b) :: u32) = ucast b" by simp
  ultimately show ?thesis by (simp add: strtoul_def)
qed


section \<open>Extended pan ids read back\<close>

text \<open>A byte's text in a base, read up to a separator.\<close>

definition byte_text :: "nat \<Rightarrow> (u8 \<Rightarrow> string) \<Rightarrow> bool" where
  "byte_text b f \<longleftrightarrow> (\<forall>x. f x \<noteq> [] \<and> \<not> is_sep (hd (f x)) \<and>
     (\<forall>r. r = [] \<or> is_sep (hd r) \<longrightarrow> strtoul b (f x @ r) = (ucast x, r)))"

lemma byte_text_hex: "byte_text 16 hex2"
  unfolding byte_text_def
proof (intro allI conjI impI)
  show "hex2 x \<noteq> []" for x by (simp add: hex2_def)
  show "\<not> is_sep (hd (hex2 x))" for x
    using hex2_digits [of x] digit_plain by (auto simp: hex2_def)
  show "strtoul 16 (hex2 x @ r) = (ucast x, r)" if "r = [] \<or> is_sep (hd r)" for x r
    by (rule strtoul_hex2) (use that sep_no_digit in blast)
qed

lemma byte_text_dec: "byte_text 10 (\<lambda>x. dec (unat x))"
  unfolding byte_text_def
proof (intro allI conjI impI)
  show "dec (unat x) \<noteq> []" for x :: u8 by (rule dec_nonempty)
  show "\<not> is_sep (hd (dec (unat x)))" for x :: u8
    using dec_digits [of "unat x"] dec_nonempty [of "unat x"] digit_plain
    by (metis list.set_sel(1) list_all_iff)
  show "strtoul 10 (dec (unat x) @ r) = (ucast x, r)" if "r = [] \<or> is_sep (hd r)" for x :: u8 and r
  proof -
    have "unat x < 2 ^ 32" using unat_u8_le [of x] by simp
    moreover have "r = [] \<or> \<not> is_digit 10 (hd r)" using that sep_no_digit by blast
    moreover have "(of_nat (unat x) :: u32) = ucast x" by simp
    ultimately show ?thesis using strtoul_dec by simp
  qed
qed

lemma byte_small: "\<not> (0xFF :: u32) < ucast (x :: u8)"
  using unat_u8_le [of x] by (simp add: word_less_nat_alt unsigned_ucast_eq take_bit_nat_eq_self)

lemma ucast_byte: "ucast (ucast (x :: u8) :: u32) = x"
  by (rule bit_word_eqI) (auto simp: bit_simps)

text \<open>One byte after any separators.\<close>

lemma parse_byte:
  assumes "byte_text b f" and "list_all is_sep seps" and "r = [] \<or> is_sep (hd r)"
  shows "parse_bytes (Suc k) b (seps @ f x @ r) = map_option (Cons x) (parse_bytes k b r)"
proof -
  have f: "f x \<noteq> []" "\<not> is_sep (hd (f x))" "strtoul b (f x @ r) = (ucast x, r)"
    using assms(1,3) by (auto simp: byte_text_def)
  have d: "dropWhile is_sep (seps @ f x @ r) = f x @ r"
    by (rule takeWhile_digits(2) [OF assms(2)]) (use f in simp)
  have "r \<noteq> f x @ r" using f(1) by simp
  with f show ?thesis
    unfolding parse_bytes.simps d by (simp add: Let_def byte_small ucast_byte)
qed

text \<open>A list of bytes separated in any way; what follows the eighth byte is not looked at.\<close>

fun separated :: "(u8 \<Rightarrow> string) \<Rightarrow> (string \<times> u8) list \<Rightarrow> string" where
  "separated f [] = []"
| "separated f ((seps, x) # es) = seps @ f x @ separated f es"

lemma parse_separated:
  assumes "byte_text b f" and "list_all (\<lambda>(seps, x). list_all is_sep seps) es"
    and "list_all (\<lambda>(seps, x). seps \<noteq> []) (tl es)" and "rest = [] \<or> is_sep (hd rest)"
  shows "parse_bytes (length es) b (separated f es @ rest) = Some (map snd es)"
  using assms
proof (induction es)
  case (Cons e es)
  obtain seps x where e: "e = (seps, x)" by (cases e)
  have r: "separated f es @ rest = [] \<or> is_sep (hd (separated f es @ rest))"
  proof (cases es)
    case (Cons e' es')
    obtain seps' x' where e': "e' = (seps', x')" by (cases e')
    with Cons Cons.prems(2,3) have "seps' \<noteq> []" "list_all is_sep seps'" by auto
    with Cons e' show ?thesis by (cases seps') auto
  qed (use assms(4) in simp)
  have "parse_bytes (length es) b (separated f es @ rest) = Some (map snd es)"
    using Cons by (cases es) auto
  then show ?case
    using parse_byte [OF assms(1) _ r, of seps "length es" x] Cons.prems(2) e by simp
qed simp


lemma joined_separated:
  "joined [c] (map f (x # xs)) = separated f (([], x) # map (Pair [c]) xs)"
proof (induction xs arbitrary: x)
  case (Cons y ys)
  have "joined [c] (map f (x # y # ys)) = f x @ [c] @ joined [c] (map f (y # ys))" by simp
  then show ?case using Cons [of y] by simp
qed simp

lemma parse_joined:
  assumes "byte_text b f" and "is_sep c" and "bs \<noteq> []" and "rest = [] \<or> is_sep (hd rest)"
  shows "parse_bytes (length bs) b (joined [c] (map f bs) @ rest) = Some bs"
proof -
  obtain x xs where bs: "bs = x # xs" using assms(3) by (cases bs) auto
  let ?es = "([], x) # map (Pair [c]) xs"
  have "parse_bytes (length ?es) b (separated f ?es @ rest) = Some (map snd ?es)"
    by (rule parse_separated [OF assms(1) _ _ assms(4)]) (use assms(2) in \<open>auto simp: list_all_iff\<close>)
  then show ?thesis unfolding bs joined_separated by (simp add: comp_def)
qed

definition comma_dec :: "u8 list \<Rightarrow> string" where
  "comma_dec bs = joined '','' (map (\<lambda>b. dec (unat b)) bs)"

lemma set_joined: "2 \<le> length ts \<Longrightarrow> set sep \<subseteq> set (joined sep ts)"
  by (cases "(sep, ts)" rule: joined.cases) auto

lemma in_joined: "c \<in> set (joined sep ts) \<Longrightarrow> c \<in> set sep \<or> (\<exists>t \<in> set ts. c \<in> set t)"
  by (induction sep ts rule: joined.induct) auto

lemma colon_in_hex: "length bs = 8 \<Longrightarrow> CHR '':'' \<in> set (colon_hex bs)"
  using set_joined [of "map hex2 bs" "'':''"] by (simp add: colon_hex_def)

lemma no_colon_in_dec: "CHR '':'' \<notin> set (comma_dec bs)"
proof
  assume "CHR '':'' \<in> set (comma_dec bs)"
  then obtain b :: u8 where "CHR '':'' \<in> set (dec (unat b))"
    unfolding comma_dec_def using in_joined [of "CHR '':''" "'',''" "map (\<lambda>b. dec (unat b)) bs"] by auto
  with dec_digits have "is_digit 10 (CHR '':'')" by (auto simp: list_all_iff)
  then show False by (simp add: is_digit_def digit_of_def)
qed

definition set_ext :: "u8 list \<Rightarrow> sys \<Rightarrow> sys" where
  "set_ext bs s = s\<lparr>cfg := (cfg s)\<lparr>cfg_ext_pan_id := bs\<rparr>\<rparr>"

lemma parse_hex_rest:
  assumes "length bs = 8" and "rest = [] \<or> is_sep (hd rest)"
  shows "parse_ext_pan_id (colon_hex bs @ rest) s = Some ((), set_ext bs s)"
proof -
  have "bs \<noteq> []" using assms(1) by auto
  then have "parse_bytes 8 16 (colon_hex bs @ rest) = Some bs"
    using parse_joined [OF byte_text_hex, of "CHR '':''" bs rest] assms unfolding colon_hex_def
    by (simp add: is_sep_def)
  then show ?thesis using colon_in_hex [OF assms(1)] assms(1) by (simp add: parse_ext_pan_id_def set_ext_def)
qed

lemma parse_dec_rest:
  assumes "length bs = 8" and "rest = [] \<or> is_sep (hd rest)" and "CHR '':'' \<notin> set rest"
  shows "parse_ext_pan_id (comma_dec bs @ rest) s = Some ((), set_ext bs s)"
proof -
  have "bs \<noteq> []" using assms(1) by auto
  then have "parse_bytes 8 10 (comma_dec bs @ rest) = Some bs"
    using parse_joined [OF byte_text_dec, of "CHR '',''" bs rest] assms unfolding comma_dec_def
    by (simp add: is_sep_def)
  then show ?thesis using no_colon_in_dec assms by (simp add: parse_ext_pan_id_def set_ext_def)
qed

text \<open>
  C34: An extended pan id round trips through both notations the option accepts: the colon
  separated hexadecimal that \<open>scan\<close>, \<open>info\<close> and \<open>status\<close> print, and comma separated decimal.
\<close>

theorem ext_pan_id_roundtrip:
  assumes "length bs = 8"
  shows "parse_ext_pan_id (colon_hex bs) s = Some ((), set_ext bs s) \<and>
    parse_ext_pan_id (comma_dec bs) s = Some ((), set_ext bs s)"
  using parse_hex_rest [OF assms, of "[]"] parse_dec_rest [OF assms, of "[]"] by simp

theorem ext_pan_id_roundtrip_witness:
  "parse_ext_pan_id (colon_hex [0x8B, 0xAA, 0x9D, 0x6F, 0x64, 0xA2, 0x70, 0x2D]) sys0 =
     Some ((), set_ext [0x8B, 0xAA, 0x9D, 0x6F, 0x64, 0xA2, 0x70, 0x2D] sys0)"
  using ext_pan_id_roundtrip [of "[0x8B, 0xAA, 0x9D, 0x6F, 0x64, 0xA2, 0x70, 0x2D]" sys0] by simp

text \<open>A ninth byte is accepted and ignored, though the error message asks for eight.\<close>

lemma nine_bytes_accepted:
  "length bs = 8 \<Longrightarrow> parse_ext_pan_id (colon_hex bs @ '':FF'') s = Some ((), set_ext bs s)"
  by (rule parse_hex_rest) (simp_all add: is_sep_def)

end
