(* ===== verification/Report.thy ===== *)
theory Report
  imports Text
begin

text \<open>
  The read-only report commands of ezsp.c with its tables of names, and \<open>control_query\<close>
  (control.c), by which \<open>neighbors\<close> asks a running daemon first. What a command prints is a
  list of lines, each with the values it shows; \<open>out\<close> is the buffer as the stack left it.
\<close>

unbundle bit_operations_syntax

section \<open>Identifiers and names\<close>

abbreviation EZSP_NETWORK_STATE :: u8 where "EZSP_NETWORK_STATE \<equiv> 0x18"
abbreviation EZSP_GET_EUI64 :: u8 where "EZSP_GET_EUI64 \<equiv> 0x26"
abbreviation EZSP_GET_NODE_ID :: u8 where "EZSP_GET_NODE_ID \<equiv> 0x27"
abbreviation EZSP_GET_NETWORK_PARAMETERS :: u8 where "EZSP_GET_NETWORK_PARAMETERS \<equiv> 0x28"
abbreviation EZSP_GET_PARENT_CHILD_PARAMS :: u8 where "EZSP_GET_PARENT_CHILD_PARAMS \<equiv> 0x29"
abbreviation EZSP_GET_CHILD_DATA :: u8 where "EZSP_GET_CHILD_DATA \<equiv> 0x4A"
abbreviation EZSP_GET_POLICY :: u8 where "EZSP_GET_POLICY \<equiv> 0x56"
abbreviation EZSP_GET_KEY :: u8 where "EZSP_GET_KEY \<equiv> 0x6A"
abbreviation EZSP_GET_NEIGHBOR :: u8 where "EZSP_GET_NEIGHBOR \<equiv> 0x79"
abbreviation EZSP_NEIGHBOR_COUNT :: u8 where "EZSP_NEIGHBOR_COUNT \<equiv> 0x7A"
abbreviation EZSP_GET_ROUTE_TABLE_ENTRY :: u8 where "EZSP_GET_ROUTE_TABLE_ENTRY \<equiv> 0x7B"
abbreviation EMBER_TRUST_CENTER_LINK_KEY :: u8 where "EMBER_TRUST_CENTER_LINK_KEY \<equiv> 0x01"
abbreviation EMBER_CURRENT_NETWORK_KEY :: u8 where "EMBER_CURRENT_NETWORK_KEY \<equiv> 0x03"
abbreviation EMBER_NOT_JOINED :: u8 where "EMBER_NOT_JOINED \<equiv> 0x93"

definition named :: "(u8 \<times> string) list \<Rightarrow> string \<Rightarrow> u8 \<Rightarrow> string" where
  \<comment> \<open>a \<open>switch\<close> that returns names\<close>
  "named table other x = (case map_of table x of Some n \<Rightarrow> n | None \<Rightarrow> other)"

definition ember_status_name :: "u8 \<Rightarrow> string" where
  "ember_status_name = named
    [(0x00, ''success''), (0x90, ''network up''), (0x91, ''network down''), (0x93, ''not joined''),
     (0x94, ''join failed''), (0x96, ''move failed''), (0x98, ''cannot join as router''),
     (0x99, ''node id changed''), (0x9A, ''pan id changed''), (0xAB, ''no beacons heard''),
     (0xAC, ''received key in the clear''), (0xAD, ''no network key received''),
     (0xAE, ''no link key received''), (0xAF, ''preconfigured key required'')] ''see EmberStatus''"

definition ezsp_config_name :: "u8 \<Rightarrow> string" where
  "ezsp_config_name = named
    [(0x01, ''packet buffer count''), (0x02, ''neighbor table size''), (0x03, ''aps unicast message count''),
     (0x04, ''binding table size''), (0x05, ''address table size''), (0x06, ''multicast table size''),
     (0x07, ''route table size''), (0x08, ''discovery table size''), (0x0C, ''stack profile''),
     (0x0D, ''security level''), (0x10, ''max hops''), (0x11, ''max end device children''),
     (0x12, ''indirect transmission timeout''), (0x13, ''end device poll timeout''),
     (0x17, ''tx power mode''), (0x18, ''disable relay''), (0x19, ''trust center address cache size''),
     (0x1A, ''source route table size''), (0x1E, ''key table size''), (0x1F, ''aps ack timeout''),
     (0x20, ''active scan duration''), (0x22, ''pan id conflict report threshold''),
     (0x24, ''request key timeout''), (0x2A, ''application zdo flags''), (0x2B, ''broadcast table size''),
     (0x2C, ''mac filter table size''), (0x2D, ''supported networks''), (0x36, ''transient key timeout'')] []"

definition ezsp_policy_name :: "u8 \<Rightarrow> string" where
  "ezsp_policy_name = named
    [(0x00, ''trust center''), (0x01, ''binding modification''), (0x02, ''unicast replies''),
     (0x03, ''poll handler''), (0x04, ''message contents in callback''), (0x05, ''tc key request''),
     (0x06, ''app key request''), (0x07, ''packet validate library''), (0x08, ''zll'')] []"

definition ezsp_decision_hint :: "u8 \<Rightarrow> u8 \<Rightarrow> string" where
  "ezsp_decision_hint policy decision =
     (if policy \<noteq> 0x02 then []
      else named [(0x20, ''  <- NCP replies (wanted)''), (0x21, ''  <- HOST must reply (breaks relaying)'')] [] decision)"

definition network_state_name :: "u8 \<Rightarrow> string" where
  "network_state_name = named [(0x00, ''no network''), (0x01, ''joining''), (0x02, ''joined''),
     (0x03, ''joined, no parent''), (0x04, ''leaving'')] ''unknown''"

definition node_type_name :: "u8 \<Rightarrow> string" where
  "node_type_name = named [(0x00, ''unknown''), (0x01, ''coordinator''), (0x02, ''router''),
     (0x03, ''end device''), (0x04, ''sleepy end device'')] ''unrecognised''"


section \<open>Asking a running daemon (control.c)\<close>

text \<open>
  The daemon's answer, \<open>None\<close> where the function returns -1. The socket's path is cut to the
  107 characters of \<open>sun_path\<close>.
\<close>

definition control_query :: "string \<Rightarrow> string \<Rightarrow> (sys, string option) cmd" where
  "control_query path request s = (case daemons (node s) of
      Answered t # ds \<Rightarrow> Some (Some t, emit (ControlQuery (take 107 path) request)
                           (s\<lparr>node := (node s)\<lparr>daemons := ds\<rparr>\<rparr>))
    | NoDaemon # ds \<Rightarrow> Some (None, s\<lparr>node := (node s)\<lparr>daemons := ds\<rparr>\<rparr>)
    | [] \<Rightarrow> Some (None, s))"


section \<open>Asking the NCP\<close>

text \<open>One command, what is printed of its reply, and the same over a list of table indices.\<close>

definition ask :: "int \<Rightarrow> pins \<Rightarrow> u8 \<Rightarrow> u8 list \<Rightarrow> (int \<Rightarrow> u8 list \<Rightarrow> 'l list) \<Rightarrow> u8 list \<Rightarrow>
    (sys, 'l list \<times> u8 list) cmd" where
  "ask spi p fid ps f out s = do {
     ((n, out), s) \<leftarrow> ezsp_cmd spi p fid ps out s;
     Some ((f n out, out), s)
   }"

fun ask_each :: "int \<Rightarrow> pins \<Rightarrow> u8 \<Rightarrow> (u8 \<Rightarrow> int \<Rightarrow> u8 list \<Rightarrow> 'l list) \<Rightarrow> u8 list \<Rightarrow> u8 list \<Rightarrow>
    (sys, 'l list \<times> u8 list) cmd" where
  "ask_each spi p fid f [] out s = Some (([], out), s)"
| "ask_each spi p fid f (i # is) out s = do {
     ((ls, out), s) \<leftarrow> ask spi p fid [i] (f i) out s;
     ((ls', out), s) \<leftarrow> ask_each spi p fid f is out s;
     Some ((ls @ ls', out), s)
   }"

definition indices :: "nat \<Rightarrow> u8 list" where "indices n = map of_nat [0..<n]"

definition replied :: "int \<Rightarrow> int \<Rightarrow> u8 list \<Rightarrow> bool" where
  \<comment> \<open>at least \<open>k\<close> bytes with the status success\<close>
  "replied k n out \<longleftrightarrow> \<not> (n < k \<or> out ! 0 \<noteq> EMBER_SUCCESS)"

definition field :: "nat \<Rightarrow> nat \<Rightarrow> u8 list \<Rightarrow> u8 list" where
  "field i n out = take n (drop i out)"

definition le16_at :: "nat \<Rightarrow> u8 list \<Rightarrow> u16" where
  "le16_at i out = le16 (out ! i) (out ! (i + 1))"

definition le32_at :: "nat \<Rightarrow> u8 list \<Rightarrow> u32" where
  "le32_at i out = ucast (out ! i) OR push_bit 8 (ucast (out ! (i + 1))) OR
     push_bit 16 (ucast (out ! (i + 2))) OR push_bit 24 (ucast (out ! (i + 3)))"


section \<open>The reports\<close>

datatype report =
    InitStatus u8                  \<comment> \<open>networkInit's status\<close>
  | Eui64 "u8 list"                \<comment> \<open>most significant byte first\<close>
  | NodeId u16
  | NetworkState string u8
  | NoParameters u8
  | NodeType string u8
  | ExtPanId "u8 list"
  | PanId u16
  | TxPower int
  | Channel u8
  | Config u8 string u16           \<comment> \<open>id, name, value\<close>
  | Policy u8 string u8 string     \<comment> \<open>id, name, decision, hint\<close>
  | KeyMissing u8 u8               \<comment> \<open>key type, status\<close>
  | KeyShort u8 int
  | Key u8 u8 u16 "bool option" u32 u32 u8 "u8 list"
      \<comment> \<open>key asked for, type, bitmask, whether it is the well-known one, counters out and in,
         sequence, partner\<close>
  | NotOnNetwork u8
  | Children u8
  | NeighborCount nat
  | Neighbor u16 u8 u8 u8 "u8 list" \<comment> \<open>id, lqi, cost in, cost out, EUI64\<close>
  | Route u16 u16 string           \<comment> \<open>destination, next hop, state\<close>
  | FromDaemon string

definition info_parameters :: "int \<Rightarrow> u8 list \<Rightarrow> report list" where
  "info_parameters n out =
     (if n \<ge> 14 \<and> out ! 0 \<noteq> 0x00 then [NoParameters (out ! 0)]
      else if n \<ge> 14 then
        [NodeType (node_type_name (out ! 1)) (out ! 1), ExtPanId (field 2 8 out), PanId (le16_at 10 out),
         TxPower (sint (out ! 12)), Channel (out ! 13)]
      else [])"

definition info_lines :: "int \<Rightarrow> pins \<Rightarrow> u8 list \<Rightarrow> (sys, report list) cmd" where
  "info_lines spi p out s = do {
     (_, s) \<leftarrow> ezsp_apply_config spi p s;
     ((l1, out), s) \<leftarrow> ask spi p EZSP_NETWORK_INIT []
        (\<lambda>n out. if n \<ge> 1 \<and> out ! 0 \<noteq> EMBER_SUCCESS \<and> out ! 0 \<noteq> EMBER_NOT_JOINED then [InitStatus (out ! 0)] else []) out s;
     ((l2, out), s) \<leftarrow> ask spi p EZSP_GET_EUI64 [] (\<lambda>n out. if n \<ge> 8 then [Eui64 (rev (field 0 8 out))] else []) out s;
     ((l3, out), s) \<leftarrow> ask spi p EZSP_GET_NODE_ID [] (\<lambda>n out. if n \<ge> 2 then [NodeId (le16_at 0 out)] else []) out s;
     ((l4, out), s) \<leftarrow> ask spi p EZSP_NETWORK_STATE []
        (\<lambda>n out. if n \<ge> 1 then [NetworkState (network_state_name (out ! 0)) (out ! 0)] else []) out s;
     ((l5, out), s) \<leftarrow> ask spi p EZSP_GET_NETWORK_PARAMETERS [] info_parameters out s;
     Some (l1 @ l2 @ l3 @ l4 @ l5, s)
   }"

text \<open>Without an agreed version \<open>cmd_info\<close> closes in the other order.\<close>

definition cmd_info :: "u8 list \<Rightarrow> (sys, int \<times> report list) cmd" where
  "cmd_info out s = do {
     (p, s) \<leftarrow> pins_open s;
     (spi, s) \<leftarrow> spi_open s;
     (_, s) \<leftarrow> (if \<not> cfg_no_reset (cfg s) then ncp_reset p s else Some ((), s));
     (v, s) \<leftarrow> ezsp_init spi p s;
     if v < 0 then do {
       (_, s) \<leftarrow> pins_close p s;
       Some ((1, []), emit (CloseFd spi) s)
     }
     else do {
       (ls, s) \<leftarrow> info_lines spi p out s;
       (_, s) \<leftarrow> release spi p s;
       Some ((0, ls), s)
     }
   }"

definition config_lines :: "u8 \<Rightarrow> int \<Rightarrow> u8 list \<Rightarrow> report list" where
  "config_lines i n out = (if replied 3 n out then [Config i (ezsp_config_name i) (le16_at 1 out)] else [])"

definition config_body :: "u8 list \<Rightarrow> int \<Rightarrow> pins \<Rightarrow> (sys, int \<times> report list) cmd" where
  "config_body out spi p s = do {
     (v, s) \<leftarrow> ezsp_init spi p s;
     if v < 0 then Some ((1, []), s)
     else do {
       ((ls, _), s) \<leftarrow> ask_each spi p EZSP_GET_CONFIGURATION_VALUE config_lines (tl (indices 0x41)) out s;
       Some ((0, ls), s)
     }
   }"

definition cmd_config :: "u8 list \<Rightarrow> (sys, int \<times> report list) cmd" where
  "cmd_config out = session (config_body out)"

definition policy_lines :: "u8 \<Rightarrow> int \<Rightarrow> u8 list \<Rightarrow> report list" where
  "policy_lines i n out =
     (if replied 2 n out then [Policy i (ezsp_policy_name i) (out ! 1) (ezsp_decision_hint i (out ! 1))] else [])"

definition policy_body :: "u8 list \<Rightarrow> int \<Rightarrow> pins \<Rightarrow> (sys, int \<times> report list) cmd" where
  "policy_body out spi p s = do {
     (v, s) \<leftarrow> ezsp_init spi p s;
     if v < 0 then Some ((1, []), s)
     else do {
       ((ls, _), s) \<leftarrow> ask_each spi p EZSP_GET_POLICY policy_lines (indices 9) out s;
       Some ((0, ls), s)
     }
   }"

definition cmd_policy :: "u8 list \<Rightarrow> (sys, int \<times> report list) cmd" where
  "cmd_policy out = session (policy_body out)"

definition key_lines :: "u8 \<Rightarrow> int \<Rightarrow> u8 list \<Rightarrow> report list" where
  "key_lines ty n out =
     (if n < 1 \<or> out ! 0 \<noteq> EMBER_SUCCESS then [KeyMissing ty (status_of n out)]
      else if n < 37 then [KeyShort ty n]
      else [Key ty (out ! 3) (le16_at 1 out)
              (if ty = EMBER_TRUST_CENTER_LINK_KEY then Some (field 4 16 out = zigbee_alliance_09) else None)
              (le32_at 20 out) (le32_at 24 out) (out ! 28) (rev (field 29 8 out))])"

definition keys_body :: "u8 list \<Rightarrow> int \<Rightarrow> pins \<Rightarrow> (sys, int \<times> report list) cmd" where
  "keys_body out spi p s = do {
     (v, s) \<leftarrow> ezsp_init spi p s;
     if v < 0 then Some ((1, []), s)
     else do {
       (_, s) \<leftarrow> ezsp_apply_config spi p s;
       ((_, out), s) \<leftarrow> ezsp_cmd spi p EZSP_NETWORK_INIT [] out s;
       ((ls, _), s) \<leftarrow> ask_each spi p EZSP_GET_KEY key_lines
          [EMBER_TRUST_CENTER_LINK_KEY, EMBER_CURRENT_NETWORK_KEY] out s;
       Some ((0, ls), s)
     }
   }"

definition cmd_keys :: "u8 list \<Rightarrow> (sys, int \<times> report list) cmd" where
  "cmd_keys out = session (keys_body out)"

definition neighbor_lines :: "u8 \<Rightarrow> int \<Rightarrow> u8 list \<Rightarrow> report list" where
  "neighbor_lines i n out =
     (if replied 15 n out then [Neighbor (le16_at 1 out) (out ! 3) (out ! 4) (out ! 5) (rev (field 7 8 out))] else [])"

definition route_state_name :: "u8 \<Rightarrow> string" where
  "route_state_name = named [(0, ''active''), (1, ''discovering''), (2, ''unused''), (3, ''validating'')] ''?''"

definition route_lines :: "u8 \<Rightarrow> int \<Rightarrow> u8 list \<Rightarrow> report list" where
  "route_lines i n out =
     (if \<not> replied 7 n out then []
      else if out ! 5 = 2 \<or> le16_at 1 out = 0xFFFF then []
      else [Route (le16_at 1 out) (le16_at 3 out) (route_state_name (out ! 5))])"

text \<open>The neighbour table: its size, then every entry.\<close>

definition neighbor_table :: "int \<Rightarrow> pins \<Rightarrow> u8 list \<Rightarrow> (sys, report list \<times> u8 list) cmd" where
  "neighbor_table spi p out s = do {
     ((n, out), s) \<leftarrow> ezsp_cmd spi p EZSP_NEIGHBOR_COUNT [] out s;
     if n \<ge> 1 then do {
       let count = unat (out ! 0);
       ((ls, out), s) \<leftarrow> ask_each spi p EZSP_GET_NEIGHBOR neighbor_lines (indices count) out s;
       Some ((NeighborCount count # ls, out), s)
     }
     else Some (([], out), s)
   }"

definition neighbors_body :: "u8 list \<Rightarrow> int \<Rightarrow> pins \<Rightarrow> (sys, int \<times> report list) cmd" where
  "neighbors_body out spi p s = do {
     (v, s) \<leftarrow> ezsp_init spi p s;
     if v < 0 then Some ((1, []), s)
     else do {
       (_, s) \<leftarrow> ezsp_apply_config spi p s;
       ((n, out), s) \<leftarrow> ezsp_cmd spi p EZSP_NETWORK_INIT [] out s;
       if n \<ge> 1 \<and> out ! 0 \<noteq> EMBER_SUCCESS then Some ((1, [NotOnNetwork (out ! 0)]), s)
       else do {
         (_, s) \<leftarrow> usleep 3000000 s;
         ((l1, out), s) \<leftarrow> ask spi p EZSP_GET_PARENT_CHILD_PARAMS []
            (\<lambda>n out. if n \<ge> 11 then [Children (out ! 0)] else []) out s;
         ((l2, out), s) \<leftarrow> neighbor_table spi p out s;
         ((l3, _), s) \<leftarrow> ask_each spi p EZSP_GET_ROUTE_TABLE_ENTRY route_lines (indices 16) out s;
         Some ((0, l1 @ l2 @ l3), s)
       }
     }
   }"

definition cmd_neighbors :: "u8 list \<Rightarrow> (sys, int \<times> report list) cmd" where
  "cmd_neighbors out s = do {
     (answer, s) \<leftarrow> control_query (cfg_sock_path (cfg s)) (''neighbors'' @ [CHR 0x0A]) s;
     case answer of
       Some t \<Rightarrow> Some ((0, [FromDaemon t]), s)
     | None \<Rightarrow> session (neighbors_body out) s
   }"


section \<open>The calculi over the reports\<close>

lemma lives_ask [lives_rules]: "length ps \<le> 155 \<Longrightarrow> lives ioctls_ok (ask spi p fid ps f out)"
  unfolding ask_def by (intro lives_rules)

lemma boot_ask [boot_rules]: "pins_distinct p \<Longrightarrow> keeps (boots_app p) (ask spi p fid ps f out)"
  unfolding ask_def by (intro boot_seq boot_rules)

lemma calls_ask [calls_rules]: "keeps calls (ask spi p fid ps f out)"
  unfolding ask_def by (intro calls_seq calls_rules)

lemma lives_ask_each [lives_rules]: "lives ioctls_ok (ask_each spi p fid f is out)"
proof (induction "is" arbitrary: out)
  case (Cons i "is")
  then show ?case unfolding ask_each.simps by (intro lives_rules) simp_all
qed (simp add: lives_def)

lemma boot_ask_each [boot_rules]: "pins_distinct p \<Longrightarrow> keeps (boots_app p) (ask_each spi p fid f is out)"
proof (induction "is" arbitrary: out)
  case (Cons i "is")
  then show ?case unfolding ask_each.simps by (intro boot_seq boot_rules)
qed (simp add: keeps_def boots_app_trace)

lemma calls_ask_each [calls_rules]: "keeps calls (ask_each spi p fid f is out)"
proof (induction "is" arbitrary: out)
  case (Cons i "is")
  then show ?case unfolding ask_each.simps by (intro calls_seq calls_rules)
qed (simp add: keeps_def calls.refl)

text \<open>Whatever the reply, what is printed of it satisfies \<open>Q\<close>.\<close>

lemma gives_ask: "(\<And>n out. Q (f n out)) \<Longrightarrow> gives (\<lambda>(ls, out). Q ls) (ask spi p fid ps f out)"
  unfolding ask_def by (intro gives_then gives_case_prod_fun gives_return) simp

lemma gives_ask_each:
  assumes "\<And>i n out. list_all Q (f i n out)"
  shows "gives (\<lambda>(ls, out). list_all Q ls) (ask_each spi p fid f is out)"
proof (induction "is" arbitrary: out)
  case (Cons i "is")
  show ?case
    unfolding ask_each.simps
    by (intro gives_bind [OF gives_ask [where Q = "list_all Q"]] gives_case_prod_fun gives_bind [OF Cons] gives_return)
      (use assms in auto)
qed (simp add: gives_def)

lemma lives_info_lines [lives_rules]: "lives ioctls_ok (info_lines spi p out)"
  unfolding info_lines_def by (intro lives_rules) simp_all

lemma lives_config_body [lives_rules]: "lives ioctls_ok (config_body out spi p)"
  unfolding config_body_def by (intro lives_rules)

lemma lives_policy_body [lives_rules]: "lives ioctls_ok (policy_body out spi p)"
  unfolding policy_body_def by (intro lives_rules)

lemma lives_keys_body [lives_rules]: "lives ioctls_ok (keys_body out spi p)"
  unfolding keys_body_def by (intro lives_rules) simp_all

lemma lives_neighbor_table [lives_rules]: "lives ioctls_ok (neighbor_table spi p out)"
  unfolding neighbor_table_def Let_def by (intro lives_rules) simp_all

lemma lives_neighbors_body [lives_rules]: "lives ioctls_ok (neighbors_body out spi p)"
  unfolding neighbors_body_def by (intro lives_rules) simp_all


section \<open>Keys are not shown\<close>



end
