(* ===== verification/Control.thy ===== *)
theory Control
  imports Report
begin

text \<open>
  The control socket and the commands that use it or one query (control.c up to
  \<open>cmd_bootloader\<close>): the daemon's replies as the text it writes into its buffer, the requests
  and how they are read, and \<open>status\<close>, \<open>permit\<close>, \<open>power\<close>, \<open>verify\<close> and \<open>bootloader\<close>. \<open>None\<close> is
  also a write outside of a reply buffer, and the signal a write to a client that has gone
  raises (the program leaves SIGPIPE at its default).
\<close>

unbundle bit_operations_syntax

abbreviation EZSP_GET_BOOTLOADER_VERSION :: u8 where "EZSP_GET_BOOTLOADER_VERSION \<equiv> 0x91"

definition nl :: string where "nl = [CHR 0x0A]"


section \<open>The text of a status\<close>

text \<open>The pieces are the calls of \<open>snprintf\<close>, in order.\<close>

definition hex_pieces :: "u8 list \<Rightarrow> string list" where
  "hex_pieces bs = map (\<lambda>b. hex2 b @ '':'') (butlast bs) @ [hex2 (last bs) @ nl]"

definition state_text :: "int \<Rightarrow> u8 list \<Rightarrow> string list" where
  "state_text n out = [''state: '' @ (if n \<ge> 1 then network_state_name (out ! 0) else ''unknown'') @ nl]"

definition eui_text :: "int \<Rightarrow> u8 list \<Rightarrow> string list" where
  "eui_text n out = (if n \<ge> 8 then ''eui64: '' # hex_pieces (rev (field 0 8 out)) else [])"

definition id_text :: "int \<Rightarrow> u8 list \<Rightarrow> string list" where
  "id_text n out = (if n \<ge> 2 then [''node_id: 0x'' @ hex4 (le16_at 0 out) @ nl] else [])"

definition parameters_text :: "int \<Rightarrow> u8 list \<Rightarrow> string list" where
  "parameters_text n out =
     (if n \<ge> 14 \<and> out ! 0 = EMBER_SUCCESS then
        [''node_type: '' @ node_type_name (out ! 1) @ nl, ''ext_pan_id: ''] @ hex_pieces (field 2 8 out) @
        [''pan_id: 0x'' @ hex4 (le16_at 10 out) @ nl, ''tx_power: '' @ dec_int (sint (out ! 12)) @ nl,
         ''channel: '' @ dec (unat (out ! 13)) @ nl]
      else [])"

definition reports_text :: "sys \<Rightarrow> string list" where
  "reports_text s = [''reports: '' @ dec (unat (report_count (node s))) @ '' sent, '' @
     dec (unat (report_failed (node s))) @ '' failed'' @ nl]"

text \<open>\<open>(long)(time(NULL) - report_last)\<close>, with a \<open>long\<close> of 32 bits.\<close>

definition last_text :: "sys \<Rightarrow> string list \<times> sys" where
  "last_text s =
     (if report_last (node s) \<noteq> 0
      then let (now, s) = take_clock s
           in ([''last_report: '' @ dec_int (sint (word_of_int (now - report_last (node s)) :: u32)) @ ''s ago'' @ nl], s)
      else ([], s))"

definition status_pieces :: "int \<Rightarrow> pins \<Rightarrow> u8 list \<Rightarrow> (sys, string list) cmd" where
  "status_pieces spi p out s = do {
     ((t1, out), s) \<leftarrow> ask spi p EZSP_NETWORK_STATE [] state_text out s;
     ((t2, out), s) \<leftarrow> ask spi p EZSP_GET_EUI64 [] eui_text out s;
     ((t3, out), s) \<leftarrow> ask spi p EZSP_GET_NODE_ID [] id_text out s;
     ((t4, out), s) \<leftarrow> ask spi p EZSP_GET_NETWORK_PARAMETERS [] parameters_text out s;
     let (t5, s) = (reports_text s, s);
     let (t6, s) = last_text s;
     Some (t1 @ t2 @ t3 @ t4 @ t5 @ t6 @ [''ok'' @ nl], s)
   }"

definition control_status :: "int \<Rightarrow> pins \<Rightarrow> u8 list \<Rightarrow> nat \<Rightarrow> (sys, outbuf) cmd" where
  "control_status spi p out lim s = do {
     (ts, s) \<leftarrow> status_pieces spi p out s;
     Some (fold (bprintf lim) ts (Some ([], 0)), s)
   }"


section \<open>The other replies\<close>

definition scan_text :: "int \<Rightarrow> u8 list \<Rightarrow> string list" where
  "scan_text n out = [''scan: refused while joined (status 0x'' @ hex2 (status_of n out) @ '' '' @
     ember_status_name (status_of n out) @ '')'' @ nl @
     ''hint: stop the service to scan, it leaves the mesh'' @ nl]"

definition neighbor_text :: "int \<Rightarrow> u8 list \<Rightarrow> string option" where
  "neighbor_text n out =
     (if replied 15 n out
      then Some (''neighbor: 0x'' @ hex4 (le16_at 1 out) @ '' lqi '' @ dec (unat (out ! 3)) @
        '' in '' @ dec (unat (out ! 4)) @ '' out '' @ dec (unat (out ! 5)) @ nl)
      else None)"

definition route_text :: "int \<Rightarrow> u8 list \<Rightarrow> string option" where
  "route_text n out =
     (if \<not> replied 7 n out \<or> out ! 5 = 2 then None
      else if le16_at 1 out = 0xFFFF then None
      else Some (''route: dest 0x'' @ hex4 (le16_at 1 out) @ '' via 0x'' @ hex4 (le16_at 3 out) @
        '' state '' @ dec (unat (out ! 5)) @ nl))"

text \<open>A loop over table entries that stops when fewer than 80 bytes of the buffer are left.\<close>

fun table_loop :: "int \<Rightarrow> pins \<Rightarrow> u8 \<Rightarrow> (int \<Rightarrow> u8 list \<Rightarrow> string option) \<Rightarrow> nat \<Rightarrow> u8 list \<Rightarrow> u8 list \<Rightarrow> outbuf \<Rightarrow>
    (sys, u8 list \<times> outbuf) cmd" where
  "table_loop spi p fid f lim (i # is) out (Some (t, at)) s =
     (if at < lim - 80 then do {
        ((n, out), s) \<leftarrow> ezsp_cmd spi p fid [i] out s;
        table_loop spi p fid f lim is out
          (case f n out of None \<Rightarrow> Some (t, at) | Some line \<Rightarrow> bprintf lim line (Some (t, at))) s
      }
      else Some ((out, Some (t, at)), s))"
| "table_loop spi p fid f lim is out b s = Some ((out, b), s)"

definition count_of :: "int \<Rightarrow> u8 list \<Rightarrow> nat" where
  "count_of n out = (if n \<ge> 1 then unat (out ! 0) else 0)"

definition control_neighbors :: "int \<Rightarrow> pins \<Rightarrow> u8 list \<Rightarrow> nat \<Rightarrow> (sys, outbuf) cmd" where
  "control_neighbors spi p out lim s = do {
     ((n, out), s) \<leftarrow> ezsp_cmd spi p EZSP_NEIGHBOR_COUNT [] out s;
     let b = bprintf lim (''neighbors: '' @ dec (count_of n out) @ nl) (Some ([], 0));
     ((out, b), s) \<leftarrow> table_loop spi p EZSP_GET_NEIGHBOR neighbor_text lim (indices (count_of n out)) out b s;
     ((out, b), s) \<leftarrow> table_loop spi p EZSP_GET_ROUTE_TABLE_ENTRY route_text lim (indices 16) out b s;
     Some (b, s)
   }"

definition child_text :: "u8 \<Rightarrow> int \<Rightarrow> u8 list \<Rightarrow> string list" where
  "child_text i n out =
     (if replied 12 n out
      then (''child: 0x'' @ hex4 (le16_at 1 out) @ '' '') # hex_pieces (rev (field 3 8 out))
      else [])"

definition control_children :: "int \<Rightarrow> pins \<Rightarrow> u8 list \<Rightarrow> nat \<Rightarrow> (sys, outbuf) cmd" where
  "control_children spi p out lim s = do {
     ((n, out), s) \<leftarrow> ezsp_cmd spi p EZSP_GET_PARENT_CHILD_PARAMS [] out s;
     let c = count_of n out;
     ((ts, out), s) \<leftarrow> ask_each spi p EZSP_GET_CHILD_DATA child_text (indices (min c 8)) out s;
     Some (fold (bprintf lim) ((''children: '' @ dec c @ nl) # ts) (Some ([], 0)), s)
   }"

definition power_text :: "power_msg \<Rightarrow> string" where
  "power_text m = (case m of
      PowerSet dbm \<Rightarrow> ''power: set to '' @ dec_int dbm @ '' dBm'' @ nl
    | PowerRefused dbm st \<Rightarrow> ''power: '' @ dec_int dbm @ '' dBm refused (status 0x'' @ hex2 st @ '' '' @
        ember_status_name st @ '')'' @ nl)"

definition permit_text :: "permit_msg \<Rightarrow> string" where
  "permit_text m = (case m of
      PermitOpen secs \<Rightarrow> ''permit: open for '' @ dec (unat secs) @ '' s'' @ nl
    | PermitFailed st \<Rightarrow> ''permit: failed (status 0x'' @ hex2 st @ '' '' @ ember_status_name st @ '')'' @ nl)"

definition unknown_text :: string where
  "unknown_text = ''error: unknown command'' @ nl @
     ''commands: status scan children neighbors permit [seconds]'' @ nl @
     ''          power [dbm]'' @ nl"


section \<open>A connection\<close>

datatype request = ReqStatus | ReqScan | ReqNeighbors | ReqChildren | ReqPower int | ReqPermit u32 | ReqUnknown

definition starts :: "string \<Rightarrow> string \<Rightarrow> bool" where
  \<comment> \<open>\<open>!strncmp(t, pre, strlen(pre))\<close>\<close>
  "starts pre t \<longleftrightarrow> take (length pre) t = pre"

definition parse_request :: "string \<Rightarrow> request" where
  \<comment> \<open>the bytes of one \<open>read\<close> into a buffer of 64, cut at the line's end\<close>
  "parse_request bytes =
     (let req = takeWhile (\<lambda>c. c \<noteq> CHR 0x0D \<and> c \<noteq> CHR 0x0A) (c_string (take 63 bytes)) in
      if req = ''status'' then ReqStatus
      else if req = ''scan'' then ReqScan
      else if req = ''neighbors'' then ReqNeighbors
      else if req = ''children'' then ReqChildren
      else if starts ''power'' req then ReqPower (if starts ''power '' req then strtol 10 (drop 6 req) else 8)
      else if starts ''permit'' req then ReqPermit (if starts ''permit '' req then fst (strtoul 10 (drop 7 req)) else 180)
      else ReqUnknown)"

definition control_reply :: "int \<Rightarrow> pins \<Rightarrow> u8 list \<Rightarrow> request \<Rightarrow> (sys, outbuf) cmd" where
  "control_reply spi p out r s = (case r of
      ReqStatus \<Rightarrow> control_status spi p out 1024 s
    | ReqScan \<Rightarrow> do {
        ((ts, _), s) \<leftarrow> ask spi p EZSP_START_SCAN (scan_params 0x07FFF800 3) scan_text (take 32 out) s;
        Some (fold (bprintf 1024) ts (Some ([], 0)), s)
      }
    | ReqNeighbors \<Rightarrow> control_neighbors spi p out 1024 s
    | ReqChildren \<Rightarrow> control_children spi p out 1024 s
    | ReqPower dbm \<Rightarrow> do {
        ((_, m), s) \<leftarrow> ezsp_set_power spi p dbm s;
        Some (bprintf 1024 (power_text m) (Some ([], 0)), s)
      }
    | ReqPermit secs \<Rightarrow> do {
        ((_, m), s) \<leftarrow> ezsp_permit spi p secs s;
        Some (bprintf 1024 (permit_text m) (Some ([], 0)), s)
      }
    | ReqUnknown \<Rightarrow> Some (bprintf 1024 unknown_text (Some ([], 0)), s))"

definition next_client :: "sys \<Rightarrow> client \<times> sys" where
  "next_client s = (case clients (node s) of
      [] \<Rightarrow> (NoClient, s)
    | c # cs \<Rightarrow> (c, s\<lparr>node := (node s)\<lparr>clients := cs\<rparr>\<rparr>))"

definition write_reply :: "bool \<Rightarrow> outbuf \<Rightarrow> (sys, unit) cmd" where
  "write_reply there b s = (case b of
      None \<Rightarrow> None
    | Some (t, at) \<Rightarrow> if there then Some ((), emit (ControlReply t) s) else None)"

definition control_accept :: "int \<Rightarrow> pins \<Rightarrow> u8 list \<Rightarrow> (sys, unit) cmd" where
  "control_accept spi p out s =
     (let (c, s) = next_client s in
      case c of
        NoClient \<Rightarrow> Some ((), s)
      | SilentClient \<Rightarrow> Some ((), s)
      | Request bytes there \<Rightarrow>
          (if bytes = [] then Some ((), s)
           else do {
             (b, s) \<leftarrow> control_reply spi p out (parse_request bytes) s;
             write_reply there b s
           }))"


section \<open>status, permit and power\<close>

text \<open>A command's exit code and what it prints; \<open>None\<close> as above.\<close>

definition shown :: "outbuf \<Rightarrow> string option" where
  "shown b = map_option fst b"

definition status_body :: "u8 list \<Rightarrow> u8 list \<Rightarrow> int \<Rightarrow> pins \<Rightarrow> (sys, int \<times> string) cmd" where
  \<comment> \<open>the buffers of \<open>cmd_status\<close> and of \<open>control_status\<close>\<close>
  "status_body out stk spi p s = do {
     (v, s) \<leftarrow> ezsp_init spi p s;
     if v < 0 then Some ((1, ''state: unavailable'' @ nl), s)
     else do {
       (_, s) \<leftarrow> ezsp_apply_config spi p s;
       ((n, out), s) \<leftarrow> ezsp_cmd spi p EZSP_NETWORK_INIT [] out s;
       let t = (if n \<ge> 1 \<and> out ! 0 \<noteq> EMBER_SUCCESS \<and> out ! 0 \<noteq> EMBER_NOT_JOINED
                then ''networkinit: 0x'' @ hex2 (out ! 0) @ nl else []);
       (b, s) \<leftarrow> control_status spi p stk 512 s;
       case shown b of None \<Rightarrow> None | Some u \<Rightarrow> Some ((0, t @ u), s)
     }
   }"

definition cmd_status :: "u8 list \<Rightarrow> u8 list \<Rightarrow> (sys, int \<times> string) cmd" where
  "cmd_status out stk s = do {
     (answer, s) \<leftarrow> control_query (cfg_sock_path (cfg s)) (''status'' @ nl) s;
     case answer of
       Some t \<Rightarrow> Some ((0, t), s)
     | None \<Rightarrow> session (status_body out stk) s
   }"

definition permit_request :: "u32 \<Rightarrow> string" where
  "permit_request secs = ''permit '' @ dec (unat secs) @ nl"

definition permit_arg :: "string option \<Rightarrow> u32" where
  "permit_arg arg =
     (let secs = (case arg of None \<Rightarrow> 180 | Some t \<Rightarrow> fst (strtoul 10 t)) in if secs = 0 then 180 else secs)"

definition permit_body :: "u32 \<Rightarrow> u8 list \<Rightarrow> int \<Rightarrow> pins \<Rightarrow> (sys, int \<times> string) cmd" where
  "permit_body secs out spi p s = do {
     (v, s) \<leftarrow> ezsp_init spi p s;
     if v < 0 then Some ((1, []), s)
     else do {
       (_, s) \<leftarrow> ezsp_apply_config spi p s;
       ((n, out), s) \<leftarrow> ezsp_cmd spi p EZSP_NETWORK_INIT [] out s;
       if n \<ge> 1 \<and> out ! 0 \<noteq> EMBER_SUCCESS
       then Some ((1, ''not on a network (status 0x'' @ hex2 (out ! 0) @ '')'' @ nl), s)
       else do {
         ((r, m), s) \<leftarrow> ezsp_permit spi p secs s;
         Some ((if r < 0 then 1 else 0, take 127 (permit_text m)), s)
       }
     }
   }"

definition cmd_permit :: "string option \<Rightarrow> u8 list \<Rightarrow> (sys, int \<times> string) cmd" where
  "cmd_permit arg out s = do {
     let secs = permit_arg arg;
     (answer, s) \<leftarrow> control_query (cfg_sock_path (cfg s)) (permit_request secs) s;
     case answer of
       Some t \<Rightarrow> Some ((0, t), s)
     | None \<Rightarrow> session (permit_body secs out) s
   }"

definition power_request :: "int \<Rightarrow> string" where
  "power_request dbm = ''power '' @ dec_int dbm @ nl"

definition power_arg :: "string option \<Rightarrow> int" where
  "power_arg arg = (case arg of None \<Rightarrow> 8 | Some t \<Rightarrow> strtol 10 t)"

definition power_body :: "int \<Rightarrow> u8 list \<Rightarrow> int \<Rightarrow> pins \<Rightarrow> (sys, int \<times> string) cmd" where
  "power_body dbm out spi p s = do {
     (v, s) \<leftarrow> ezsp_init spi p s;
     if v < 0 then Some ((1, []), s)
     else do {
       (_, s) \<leftarrow> ezsp_apply_config spi p s;
       (_, s) \<leftarrow> ezsp_cmd spi p EZSP_NETWORK_INIT [] out s;
       ((r, m), s) \<leftarrow> ezsp_set_power spi p dbm s;
       Some ((if r < 0 then 1 else 0, take 127 (power_text m)), s)
     }
   }"

definition cmd_power :: "string option \<Rightarrow> u8 list \<Rightarrow> (sys, int \<times> string) cmd" where
  "cmd_power arg out s = do {
     let dbm = power_arg arg;
     (answer, s) \<leftarrow> control_query (cfg_sock_path (cfg s)) (power_request dbm) s;
     case answer of
       Some t \<Rightarrow> Some ((0, t), s)
     | None \<Rightarrow> session (power_body dbm out) s
   }"


section \<open>verify and bootloader\<close>

definition ebl_sig :: "u8 list" where "ebl_sig = [0x02, 0x02, 0xE3, 0x50]"

datatype verify_line =
    BadSignature "u8 list"
  | StackVersion u16
  | BuiltFor "u8 list"          \<comment> \<open>platform, micro, phy\<close>
  | CannotAsk
  | NotReported
  | ThisChip "u8 list"
  | Mismatch
  | Matches

definition verify_body :: "u8 list \<Rightarrow> u8 list \<Rightarrow> int \<Rightarrow> pins \<Rightarrow> (sys, int \<times> verify_line list) cmd" where
  "verify_body hdr out spi p s = do {
     (v, s) \<leftarrow> ezsp_init spi p s;
     if v < 0 then Some ((1, [CannotAsk]), s)
     else do {
       ((n, out), s) \<leftarrow> ezsp_cmd spi p EZSP_GET_BOOTLOADER_VERSION [] out s;
       if n < 5 then Some ((1, [NotReported]), s)
       else if out ! 2 \<noteq> hdr ! 0x28 \<or> out ! 3 \<noteq> hdr ! 0x29 \<or> out ! 4 \<noteq> hdr ! 0x2A
       then Some ((1, [ThisChip (field 2 3 out), Mismatch]), s)
       else Some ((0, [ThisChip (field 2 3 out), Matches]), s)
     }
   }"

text \<open>\<open>file\<close> is the content of the file, if there is a path and it opens.\<close>

definition cmd_verify :: "u8 list option \<Rightarrow> u8 list \<Rightarrow> (sys, int \<times> verify_line list) cmd" where
  "cmd_verify file out s = (case file of
      None \<Rightarrow> None
    | Some bytes \<Rightarrow>
        (if length bytes < 0x40 then None
         else let hdr = take 0x40 bytes in
           if field 4 4 hdr \<noteq> ebl_sig then Some ((1, [BadSignature (field 4 4 hdr)]), s)
           else do {
             ((code, ls), s) \<leftarrow> session (verify_body hdr out) s;
             Some ((code, StackVersion (le16_at 0x2C hdr) # BuiltFor (field 0x28 3 hdr) # ls), s)
           }))"

datatype bootloader_line =
    NoBootloader
  | Bootloader u16 u8 u8 u8     \<comment> \<open>version, platform, micro, phy\<close>

definition bootloader_body :: "u8 list \<Rightarrow> int \<Rightarrow> pins \<Rightarrow> (sys, int \<times> bootloader_line list) cmd" where
  "bootloader_body out spi p s = do {
     (v, s) \<leftarrow> ezsp_init spi p s;
     if v < 0 then Some ((1, []), s)
     else do {
       ((n, out), s) \<leftarrow> ezsp_cmd spi p EZSP_GET_BOOTLOADER_VERSION [] out s;
       if n < 5 then Some ((1, [NoBootloader]), s)
       else Some ((0, [Bootloader (le16_at 0 out) (out ! 2) (out ! 3) (out ! 4)]), s)
     }
   }"

definition cmd_bootloader :: "u8 list \<Rightarrow> (sys, int \<times> bootloader_line list) cmd" where
  "cmd_bootloader out = session (bootloader_body out)"


section \<open>How long the replies are\<close>

lemma length_named: "list_all (\<lambda>(k, n). length n \<le> m) table \<Longrightarrow> length other \<le> m \<Longrightarrow> length (named table other x) \<le> m"
  by (auto simp: named_def list_all_iff split: option.splits dest!: map_of_SomeD)

lemma length_names:
  "length (network_state_name x) \<le> 17" "length (node_type_name x) \<le> 17" "length (ember_status_name x) \<le> 26"
  unfolding network_state_name_def node_type_name_def ember_status_name_def
  by (rule length_named; simp)+

lemma length_hex [simp]: "length (hex2 b) = 2" "length (hex4 w) = 4"
  by (simp_all add: hex2_def hex4_def)

lemma length_dec_u8: "length (dec (unat (x :: u8))) \<le> 3"
  using unat_u8_le [of x] by (intro length_dec) simp_all

lemma length_dec_u32: "length (dec (unat (x :: u32))) \<le> 10"
proof (rule length_dec)
  have "unat x < 2 ^ 32" using unsigned_less [of x, where 'a = nat] by simp
  then show "unat x < 10 ^ 10" by simp
qed simp

lemma length_dec_int: "\<bar>i\<bar> < 10 ^ k \<Longrightarrow> 0 < k \<Longrightarrow> length (dec_int i) \<le> Suc k"
proof -
  assume a: "\<bar>i\<bar> < 10 ^ k" "0 < k"
  have "nat \<bar>i\<bar> < 10 ^ k" using a(1) by (simp add: nat_less_iff)
  then have "length (dec (nat \<bar>i\<bar>)) \<le> k" using a(2) length_dec by blast
  then show ?thesis by (cases "i < 0") (simp_all add: dec_int_def)
qed

lemma length_dec_s8: "length (dec_int (sint (x :: u8))) \<le> 4"
  using sint_range_size [of x] length_dec_int [of "sint x" 3] by (auto simp: word_size)

lemma length_dec_s32: "length (dec_int (sint (x :: u32))) \<le> 11"
  using sint_range_size [of x] length_dec_int [of "sint x" 10] by (auto simp: word_size)

lemma length_hex_pieces: "bs \<noteq> [] \<Longrightarrow> length (concat (hex_pieces bs)) = 3 * length bs"
  by (induction bs) (auto simp: hex_pieces_def nl_def)

lemma length_hex_eui: "length (concat (hex_pieces (rev (field i 8 out)))) \<le> 24"
proof (cases "field i 8 out = []")
  case False
  then have "length (field i 8 out) \<le> 8" "rev (field i 8 out) \<noteq> []" by (simp_all add: field_def)
  then show ?thesis by (simp add: length_hex_pieces del: rev_is_Nil_conv)
qed (simp add: hex_pieces_def nl_def)

lemma length_hex_field: "length (concat (hex_pieces (field i 8 out))) \<le> 24"
proof (cases "field i 8 out = []")
  case False
  moreover have "length (field i 8 out) \<le> 8" by (simp add: field_def)
  ultimately show ?thesis by (simp add: length_hex_pieces)
qed (simp add: hex_pieces_def nl_def)

lemma state_short: "length (concat (state_text n out)) \<le> 25"
  using length_names(1) [of "out ! 0"] by (simp add: state_text_def nl_def)

lemma eui_short: "length (concat (eui_text n out)) \<le> 31"
  using length_hex_eui [of 0 out] by (simp add: eui_text_def)

lemma id_short: "length (concat (id_text n out)) \<le> 16"
  by (simp add: id_text_def nl_def)

lemma parameters_short: "length (concat (parameters_text n out)) \<le> 108"
  using length_names(2) [of "out ! 1"] length_hex_field [of 2 out] length_dec_u8 [of "out ! 13"]
    length_dec_s8 [of "out ! 12"]
  by (simp add: parameters_text_def nl_def)

lemma reports_short: "length (concat (reports_text s)) \<le> 44"
  using length_dec_u32 [of "report_count (node s)"] length_dec_u32 [of "report_failed (node s)"]
  by (simp add: reports_text_def nl_def)

lemma last_short: "length (concat (fst (last_text s))) \<le> 30"
  by (auto simp: last_text_def nl_def split_beta intro: order_trans [OF length_dec_s32])

text \<open>Pieces that fit together are all in the buffer, which then ends where \<open>at\<close> says.\<close>

lemma fold_bprintf:
  "length t + length (concat ts) < lim \<Longrightarrow>
   fold (bprintf lim) ts (Some (t, length t)) = Some (t @ concat ts, length (t @ concat ts))"
proof (induction ts arbitrary: t)
  case (Cons u ts)
  then have "bprintf lim u (Some (t, length t)) = Some (t @ u, length (t @ u))"
    by (simp add: bprintf_def)
  then show ?case using Cons.IH [of "t @ u"] Cons.prems by simp
qed simp

lemma gives_pieces: "(\<And>n out. length (concat (f n out)) \<le> m) \<Longrightarrow>
    gives (\<lambda>(ts, out). length (concat ts) \<le> m) (ask spi p fid ps f out)"
  by (rule gives_ask)

lemma gives_clock: "(\<And>t u. length (concat t) \<le> 44 \<Longrightarrow> length (concat u) \<le> 30 \<Longrightarrow> Q (g t u)) \<Longrightarrow>
    gives Q (\<lambda>s. let (t5, s) = (reports_text s, s); (t6, s) = last_text s in Some (g t5 t6, s))"
  using last_short reports_short by (fastforce simp: gives_def split_beta)

lemma status_short: "gives (\<lambda>ts. length (concat ts) \<le> 257 \<and> last ts = ''ok'' @ nl) (status_pieces spi p out)"
  unfolding status_pieces_def
  by (rule gives_bind [OF gives_pieces [OF state_short]], rule gives_case_prod_fun,
      rule gives_bind [OF gives_pieces [OF eui_short]], rule gives_case_prod_fun,
      rule gives_bind [OF gives_pieces [OF id_short]], rule gives_case_prod_fun,
      rule gives_bind [OF gives_pieces [OF parameters_short]], rule gives_case_prod_fun,
      rule gives_clock [where g = "\<lambda>t5 t6. _ @ _ @ _ @ _ @ t5 @ t6 @ [''ok'' @ nl]"])
    (auto simp: nl_def)


text \<open>
  C28: A status reply always fits: whatever the NCP answers and whatever was counted, the text
  is at most 257 characters, so it is complete in the 512 bytes of \<open>cmd_status\<close> and the 1024
  of the daemon, no call of \<open>snprintf\<close> is cut or writes outside, and it ends in "ok".
\<close>

theorem control_status_fits:
  assumes "control_status spi p out lim s = Some (b, t)" and "258 \<le> lim"
  shows "\<exists>pre. b = Some (pre @ ''ok'' @ nl, length (pre @ ''ok'' @ nl)) \<and> length (pre @ ''ok'' @ nl) \<le> 257"
proof -
  from assms(1) obtain ts where ts: "status_pieces spi p out s = Some (ts, t)"
    "b = fold (bprintf lim) ts (Some ([], 0))"
    by (auto simp: control_status_def Option.bind_eq_Some_conv)
  have l: "length (concat ts) \<le> 257" "last ts = ''ok'' @ nl" using givesD [OF status_short ts(1)] by auto
  have "ts \<noteq> []" using ts(1) by (auto simp: status_pieces_def Option.bind_eq_Some_conv split_beta)
  then have "concat ts = concat (butlast ts) @ ''ok'' @ nl"
    using l(2) by (metis append_butlast_last_id concat.simps(2) concat_append concat.simps(1) append_Nil2)
  moreover have "b = Some (concat ts, length (concat ts))"
    using fold_bprintf [of "[]" ts lim] l(1) assms(2) ts(2) by simp
  ultimately show ?thesis using l(1) by (intro exI [of _ "concat (butlast ts)"]) simp
qed

lemma lives_status_pieces [lives_rules]: "lives ioctls_ok (status_pieces spi p out)"
proof -
  have c: "lives ioctls_ok (\<lambda>s. let (t5, s) = (reports_text s, s); (t6, s) = last_text s in Some (g t5 t6, s))"
    for g :: "string list \<Rightarrow> string list \<Rightarrow> string list"
  proof -
    have "kfail (snd (last_text s)) = kfail s" for s
      using take_clock_outside [of s] by (simp add: last_text_def split_beta)
    then show ?thesis by (simp add: lives_def ioctls_ok_def split_beta)
  qed
  show ?thesis
    unfolding status_pieces_def by (intro lives_bind lives_case_prod_fun lives_ask c [where g = "\<lambda>t5 t6. _ @ _ @ _ @ _ @ t5 @ t6 @ [''ok'' @ nl]"]) simp_all
qed

lemma lives_control_status [lives_rules]: "lives ioctls_ok (control_status spi p out lim)"
  unfolding control_status_def by (intro lives_rules)

theorem control_status_fits_witness:
  "\<exists>pre t. control_status 9 sample_pins (replicate 64 0) 512 sys0 =
     Some (Some (pre @ ''ok'' @ nl, length (pre @ ''ok'' @ nl)), t) \<and> length pre \<le> 254"
proof -
  obtain b t where b: "control_status 9 sample_pins (replicate 64 0) 512 sys0 = Some (b, t)"
    using lives_quiet [OF lives_control_status sys0_cfg(1)] by blast
  from control_status_fits [OF b] b show ?thesis by (auto simp: nl_def)
qed


section \<open>Requests read back\<close>

lemma take_while_all: "list_all P t \<Longrightarrow> takeWhile P (t @ c # r) = (if P c then t @ c # takeWhile P r else t)"
  by (induction t) auto

lemma digit_chars: "is_digit b c \<Longrightarrow> c \<noteq> CHR 0x00 \<and> c \<noteq> CHR 0x0A \<and> c \<noteq> CHR 0x0D"
  by (auto simp: is_digit_def digit_of_def)

text \<open>A request line of at most 63 characters arrives as it was sent.\<close>

lemma request_line:
  assumes "list_all (\<lambda>c. c \<noteq> CHR 0x00 \<and> c \<noteq> CHR 0x0A \<and> c \<noteq> CHR 0x0D) t" and "length t \<le> 62"
  shows "takeWhile (\<lambda>c. c \<noteq> CHR 0x0D \<and> c \<noteq> CHR 0x0A) (c_string (take 63 (t @ nl))) = t"
proof -
  have 1: "c_string (take 63 (t @ nl)) = t @ nl"
    unfolding c_string_def using assms
    by (subst takeWhile_eq_all_conv [THEN iffD2]) (auto simp: nl_def list_all_iff)
  have "list_all (\<lambda>c. c \<noteq> CHR 0x0D \<and> c \<noteq> CHR 0x0A) t" using assms(1) by (auto simp: list_all_iff)
  then show ?thesis unfolding 1 by (simp add: nl_def take_while_all)
qed

lemma dec_clean: "list_all (\<lambda>c. c \<noteq> CHR 0x00 \<and> c \<noteq> CHR 0x0A \<and> c \<noteq> CHR 0x0D) (dec n)"
  using dec_digits [of n] digit_chars by (auto simp: list_all_iff)

lemma dec_int_clean: "list_all (\<lambda>c. c \<noteq> CHR 0x00 \<and> c \<noteq> CHR 0x0A \<and> c \<noteq> CHR 0x0D) (dec_int i)"
  using dec_clean by (simp add: dec_int_def)

lemma strtol_dec_int:
  assumes "- (2 ^ 31) \<le> i" and "i < 2 ^ 31"
  shows "strtol 10 (dec_int i) = i"
proof (cases "i < 0")
  case True
  have "strto 10 (dec_int i) = Some (True, nat (- i), [])"
  proof -
    have d: "takeWhile (is_digit 10) (dec (nat (- i))) = dec (nat (- i))"
      "dropWhile (is_digit 10) (dec (nat (- i))) = []"
      using takeWhile_digits [OF dec_digits, of "[]" "nat (- i)"] by simp_all
    have m: "\<not> is_space (CHR ''-'')" by (simp add: is_space_def)
    show ?thesis
      using True m by (simp add: strto_def dec_int_def Let_def base_prefix_plain d dec_nonempty value_dec)
  qed
  then show ?thesis using assms True by (simp add: strtol_def)
next
  case False
  then show ?thesis using strto_dec [of "[]" "nat i"] assms by (simp add: strtol_def dec_int_def)
qed


text \<open>
  C29: What \<open>permit\<close> and \<open>power\<close> ask of a running daemon is what the daemon understands: for
  every number of seconds and every power in the range of an \<open>int\<close>, the request is one line
  that fits the daemon's read, and reads back as that value.
\<close>

theorem request_roundtrip:
  assumes "- (2 ^ 31) \<le> dbm" and "dbm < 2 ^ 31"
  shows "parse_request (permit_request secs) = ReqPermit secs \<and>
    parse_request (power_request dbm) = ReqPower dbm \<and>
    length (permit_request secs) \<le> 63 \<and> length (power_request dbm) \<le> 63"
proof -
  have l: "length (dec (unat secs)) \<le> 10" by (rule length_dec_u32)
  have "\<bar>dbm\<bar> < 10 ^ 10" using assms by simp
  then have m: "length (dec_int dbm) \<le> 11" using length_dec_int [of dbm 10] by simp
  have 1: "takeWhile (\<lambda>c. c \<noteq> CHR 0x0D \<and> c \<noteq> CHR 0x0A) (c_string (take 63 ((''permit '' @ dec (unat secs)) @ nl))) =
      ''permit '' @ dec (unat secs)"
    by (rule request_line) (use dec_clean l in auto)
  have 2: "takeWhile (\<lambda>c. c \<noteq> CHR 0x0D \<and> c \<noteq> CHR 0x0A) (c_string (take 63 ((''power '' @ dec_int dbm) @ nl))) =
      ''power '' @ dec_int dbm"
    by (rule request_line) (use dec_int_clean m in auto)
  have u: "unat secs < 2 ^ 32" using unsigned_less [of secs, where 'a = nat] by simp
  have "parse_request (permit_request secs) = ReqPermit secs"
    using 1 strtoul_dec [OF u, of "[]"] by (simp add: parse_request_def permit_request_def starts_def Let_def)
  moreover have "parse_request (power_request dbm) = ReqPower dbm"
    using 2 strtol_dec_int [OF assms] by (simp add: parse_request_def power_request_def starts_def Let_def)
  ultimately show ?thesis using l m by (simp add: permit_request_def power_request_def nl_def)
qed

theorem request_roundtrip_witness:
  "parse_request (permit_request 60) = ReqPermit 60 \<and> parse_request (power_request (-4)) = ReqPower (-4)"
  using request_roundtrip [of "-4" 60] by simp


section \<open>A session that runs\<close>

lemma spi_open_ok: "kfail s = [] \<Longrightarrow> \<exists>spi t. spi_open s = Some (spi, t) \<and> kfail t = [] \<and> cfg t = cfg s \<and>
    miso t = miso s \<and> ezsp_seq t = ezsp_seq s"
  by (auto simp: spi_open_def ioctl_def)

lemma session_runs:
  assumes "pins_open s = Some (p, s0)" and "kfail s0 = []"
    and "\<And>spi s1. kfail s1 = [] \<Longrightarrow> cfg s1 = cfg s0 \<Longrightarrow> miso s1 = miso s0 \<Longrightarrow> ezsp_seq s1 = ezsp_seq s0 \<Longrightarrow>
      \<exists>t. body spi p s1 = Some (r, t)"
  shows "\<exists>t. session body s = Some (r, t)"
proof -
  obtain spi s1 where 1: "spi_open s0 = Some (spi, s1)" "kfail s1 = []" "cfg s1 = cfg s0" "miso s1 = miso s0"
    "ezsp_seq s1 = ezsp_seq s0"
    using spi_open_ok [OF assms(2)] by blast
  obtain s2 where 2: "(if \<not> cfg_no_reset (cfg s1) then ncp_reset p s1 else Some ((), s1)) = Some ((), s2)"
    "kfail s2 = []" "cfg s2 = cfg s0" "miso s2 = miso s0" "ezsp_seq s2 = ezsp_seq s0"
    using ncp_reset_ok [OF 1(2), of p] 1(2-5) by (cases "cfg_no_reset (cfg s1)") (auto simp: radio_def)
  obtain s3 where "body spi p s2 = Some (r, s3)" using assms(3) [OF 2(2-5), of spi] by blast
  then show ?thesis using assms(1) 1(1) 2(1) by (simp add: session_def release_def pins_close_def close_fd_def)
qed


section \<open>Checking an image\<close>

definition verified :: "u8 list \<Rightarrow> u8 list \<Rightarrow> int \<times> verify_line list \<Rightarrow> bool" where
  "verified hdr out r \<longleftrightarrow> (fst r = 0 \<or> fst r = 1) \<and> (fst r = 0 \<longleftrightarrow> Matches \<in> set (snd r)) \<and>
     (fst r = 0 \<longrightarrow> (\<exists>spi p n buf s1 s2. ezsp_cmd spi p EZSP_GET_BOOTLOADER_VERSION [] out s1 = Some ((n, buf), s2) \<and>
       5 \<le> n \<and> buf ! 2 = hdr ! 0x28 \<and> buf ! 3 = hdr ! 0x29 \<and> buf ! 4 = hdr ! 0x2A))"

lemma verify_body_result:
  assumes "verify_body hdr out spi p s = Some (r, t)"
  shows "verified hdr out r"
proof -
  obtain v s1 where v: "ezsp_init spi p s = Some (v, s1)"
    using assms(1) by (auto simp: verify_body_def Option.bind_eq_Some_conv)
  show ?thesis
  proof (cases "v < 0")
    case True
    then show ?thesis using assms(1) v by (auto simp: verify_body_def verified_def)
  next
    case False
    then obtain n buf s2 where c: "ezsp_cmd spi p EZSP_GET_BOOTLOADER_VERSION [] out s1 = Some ((n, buf), s2)"
      using assms(1) v by (auto simp: verify_body_def Option.bind_eq_Some_conv)
    show ?thesis using assms(1) v False c
      by (auto simp: verify_body_def verified_def not_less split: if_splits)
        (rule exI [of _ spi], rule exI [of _ p], rule exI [of _ n], rule exI [of _ buf], auto)
  qed
qed


definition sample_image :: "u8 list" where
  "sample_image = pad_to 0x40 0 ([0, 0, 0, 0x8C] @ ebl_sig @ replicate 0x20 0 @ [4, 22, 2, 0, 0x10, 0x58])"

definition verify_script :: "(u8 \<times> u8 list \<times> u8 \<times> u8 list) list" where
  "verify_script = [(EZSP_GET_BOOTLOADER_VERSION, [], EZSP_GET_BOOTLOADER_VERSION, [0x10, 0x58, 4, 22, 2])]"

definition verify_sys :: sys where
  "verify_sys = v1_sys\<lparr>miso := version_bytes 4 @ (talk_bytes (board_lines whw03 default_cfg) verify_script @ [])\<rparr>"

lemma v1_any_opens: "\<exists>s0. pins_open (v1_sys\<lparr>miso := m\<rparr>) = Some (opened_pins, s0) \<and> kfail s0 = [] \<and>
    cfg s0 = board_lines whw03 default_cfg \<and> miso s0 = m"
proof -
  let ?s = "v1_sys\<lparr>miso := m\<rparr>"
  have b: "board_detect ?s = Some whw03"
    by (simp add: board_detect_def v1_sys_def sys0_def boards_def whw03_def whw03v2_def c_string_def)
  have a: "pins_autodetect ?s = Some ((), ?s\<lparr>cfg := board_lines whw03 default_cfg\<rparr>)"
    by (simp add: pins_autodetect_def b) (simp add: v1_sys_def sys0_def board_lines_def whw03_def default_cfg_def)
  show ?thesis
    unfolding pins_open_def a
    by (simp add: gpio_request_output_def gpio_try_output_def gpio_request_input_edges_def take_line_def
        nssel_int_open_def board_lines_def v1_sys_def sys0_def default_cfg_def whw03_def emit_def opened_pins_def)
qed


end
