(* ===== verification/Traffic.thy ===== *)
theory Traffic
  imports Control
begin

text \<open>
  What goes over the SPI bus, across all components: \<open>still\<close> relates states between which
  nothing was clocked, and the locale \<open>traffic\<close> carries a relation through every function
  that exchanges EZSP frames, from what it asks of a single transfer. It is interpreted twice:
  \<open>asks_only\<close> (the frame ids a function sends) and \<open>spends\<close> (the bytes of the NCP it uses up,
  on which the end of the daemon's loops rests).
\<close>

unbundle bit_operations_syntax

section \<open>Nothing clocked\<close>

fun is_xfer :: "event \<Rightarrow> bool" where
  "is_xfer (SpiXfer bs k) = True"
| "is_xfer e = False"

definition still :: "sys \<Rightarrow> sys \<Rightarrow> bool" where
  "still s t \<longleftrightarrow> miso t = miso s \<and> clients (node t) = clients (node s) \<and>
     (\<exists>ev. trace t = trace s @ ev \<and> list_all (\<lambda>e. \<not> is_xfer e) ev)"

interpretation still: frame_rel still
  by unfold_locales (fastforce simp: still_def)+

named_theorems still_rules \<open>functions that clock nothing\<close>

lemmas still_seq = still.keeps_return still.keeps_returns still.keeps_bind
  keeps_if keeps_ifs keeps_let keeps_case_prod_fun keeps_case_prod keeps_case_option keeps_fail

lemma stillI: "miso t = miso s \<Longrightarrow> clients (node t) = clients (node s) \<Longrightarrow> trace t = trace s @ ev \<Longrightarrow>
    list_all (\<lambda>e. \<not> is_xfer e) ev \<Longrightarrow> still s t"
  by (auto simp: still_def)

lemma still_same: "miso t = miso s \<Longrightarrow> clients (node t) = clients (node s) \<Longrightarrow> trace t = trace s \<Longrightarrow> still s t"
  by (auto simp: still_def)

lemma still_emit: "\<not> is_xfer e \<Longrightarrow> still s (emit e s)"
  by (rule stillI [where ev = "[e]"]) simp_all

lemma still_emits [still_rules]: "\<not> is_xfer e \<Longrightarrow> keeps still (\<lambda>s. Some (x, emit e s))"
  by (simp add: keeps_def still_emit)

lemma still_ioctl [still_rules]: "keeps still ioctl"
  by (auto simp: keeps_def ioctl_def still_same split: list.splits bool.splits)

lemma still_usleep [still_rules]: "keeps still (usleep us)"
  unfolding usleep_def by (rule still_emits) simp

lemma still_msleep [still_rules]: "keeps still (msleep ms)"
  unfolding msleep_def by (rule still_emits) simp

lemma still_gpio_set [still_rules]: "keeps still (gpio_set fd v)"
  unfolding gpio_set_def by (intro still_seq still_rules) simp

lemma still_gpio_get [still_rules]: "keeps still (gpio_get fd)"
  by (auto simp: keeps_def gpio_get_def still_same split: list.splits)

lemma still_gpio_wait [still_rules]: "keeps still (gpio_wait_falling fd ms)"
  by (auto simp: keeps_def gpio_wait_falling_def emit_def split: prod.splits
      intro!: stillI [where ev = "[GpioWait fd ms]"])

lemma still_gpio_drain [still_rules]: "keeps still (gpio_drain_events fd)"
  by (auto simp: keeps_def gpio_drain_events_def still_same)

lemma still_ncp_reset [still_rules]: "keeps still (ncp_reset p)"
  unfolding ncp_reset_def by (intro still_seq still_rules)

lemma still_ncp_wake [still_rules]: "keeps still (ncp_wake p)"
  unfolding ncp_wake_def by (intro still_seq still_rules)

lemma still_cs_assert [still_rules]: "keeps still (cs_assert p)"
  unfolding cs_assert_def by (intro still_seq still_rules)

lemma still_cs_release [still_rules]: "keeps still (cs_release p)"
  unfolding cs_release_def by (intro still_seq still_rules)

lemma still_spi_open [still_rules]: "keeps still spi_open"
  unfolding spi_open_def
  by (intro still_seq still_rules) (auto simp: keeps_def intro: still_emit)

lemma still_request_output [still_rules]: "keeps still (gpio_request_output off v)"
  by (auto simp: keeps_def gpio_request_output_def take_line_def emit_def
      split: prod.splits line_res.splits list.splits intro!: stillI [where ev = "[LineOut off v]"])

lemma still_try_output [still_rules]: "keeps still (gpio_try_output off v)"
  by (auto simp: keeps_def gpio_try_output_def take_line_def emit_def still_def
      split: prod.splits line_res.splits list.splits)

lemma still_request_input [still_rules]: "keeps still (gpio_request_input_edges off)"
  by (auto simp: keeps_def gpio_request_input_edges_def take_line_def emit_def still_def
      split: prod.splits line_res.splits list.splits)

lemma still_autodetect [still_rules]: "keeps still pins_autodetect"
  by (auto simp: keeps_def pins_autodetect_def Let_def still.refl still_same split: option.splits if_splits)

lemma still_before: "(\<And>s. still s (f s)) \<Longrightarrow> keeps still m \<Longrightarrow> keeps still (\<lambda>s. m (f s))"
  unfolding keeps_def using still.trans by blast

lemma still_nssel_int_open [still_rules]: "keeps still nssel_int_open"
proof (rule keepsI)
  fix s x t assume a: "nssel_int_open s = Some (x, t)"
  show "still s t"
  proof (cases "cfg_nssel_int_mode (cfg s) = ''input''")
    case True
    with a show ?thesis by (simp add: nssel_int_open_def still.refl)
  next
    case False
    let ?s = "s\<lparr>cs_follows := (cfg_nssel_int_mode (cfg s) = ''follow'')\<rparr>"
    have "gpio_request_output (cfg_nssel_int_line (cfg s)) (cfg_nssel_int_mode (cfg s) \<noteq> ''low'') ?s = Some (x, t)"
      using False a by (simp add: nssel_int_open_def Let_def)
    from keepsD [OF still_request_output this] show ?thesis by (simp add: still_def)
  qed
qed

lemma still_pins_open [still_rules]: "keeps still pins_open"
  unfolding pins_open_def
  by (intro still_seq still_rules keeps_read [where f = "\<lambda>l. gpio_request_output l v" for v]
      keeps_read [where f = "\<lambda>l. gpio_try_output l v" for v] keeps_read [where f = gpio_request_input_edges])

lemma still_close: "still s t \<Longrightarrow> still s (close_fd fd t)"
  by (auto simp: close_fd_def intro: still.trans [OF _ still_emit])

lemma still_pins_close [still_rules]: "keeps still (pins_close p)"
  by (auto simp: keeps_def pins_close_def intro!: still_close still.refl)

lemma still_release [still_rules]: "keeps still (release spi p)"
proof (rule keepsI)
  fix s x t assume "release spi p s = Some (x, t)"
  then obtain q where "pins_close p (emit (CloseFd spi) s) = Some (q, t)"
    by (auto simp: release_def Option.bind_eq_Some_conv)
  then have "still (emit (CloseFd spi) s) t" by (rule keepsD [OF still_pins_close])
  moreover have "still s (emit (CloseFd spi) s)" by (rule still_emit) simp
  ultimately show "still s t" using still.trans by blast
qed

lemma local_still: "local_only s t \<Longrightarrow> still s t"
  by (auto simp: local_only_def still_def)

lemma still_append_attrs [still_rules]: "keeps still (append_attrs b lim ids)"
  by (rule keepsI) (simp add: append_attrs_local local_still)

lemma still_clock: "still s (snd (take_clock s))"
  by (simp add: take_clock_def still_def split: list.splits)

lemma still_rand: "still s (snd (take_rand s))"
  by (simp add: take_rand_def still_def split: list.splits)

lemma still_node: "still s (count_report r s)" "still s (set_report_last now s)" "still s (set_version v s)"
  "still s (s\<lparr>ezsp_seq := q\<rparr>)" "still s (s\<lparr>node := (node s)\<lparr>zcl_tag := q\<rparr>\<rparr>)"
  by (simp_all add: still_def count_report_def set_report_last_def set_version_def)

lemma still_query [still_rules]: "keeps still (control_query path req)"
  unfolding control_query_def
  by (auto simp: keeps_def emit_def still_def split: list.splits daemon.splits)


lemma still_query_cfg: "keeps still (\<lambda>s. control_query (cfg_sock_path (cfg s)) req s)"
  by (rule keeps_read [where f = "\<lambda>path. control_query path req"]) (rule still_query)


section \<open>A relation carried by the traffic\<close>

text \<open>
  What may be clocked out: idle bytes, or an EZSP frame with one of the ids \<open>F\<close>.
\<close>

definition clocks :: "u8 set \<Rightarrow> u8 list \<Rightarrow> bool" where
  "clocks F tx \<longleftrightarrow> (\<exists>n. tx = replicate n SPI_IDLE) \<or>
     (\<exists>ver sq fid ps. fid \<in> F \<and> tx = ezsp_tx ver sq fid ps)"

lemma clocks_idle: "clocks F [SPI_IDLE]" "clocks F (replicate n SPI_IDLE)"
  using replicate_0 replicate_Suc by (auto simp: clocks_def intro: exI [of _ 1])

lemma clocks_frame: "fid \<in> F \<Longrightarrow> clocks F (ezsp_tx ver sq fid ps)"
  unfolding clocks_def by blast

named_theorems traffic_rules \<open>functions whose transfers the relation allows\<close>

locale traffic = frame_rel R for R :: "sys \<Rightarrow> sys \<Rightarrow> bool" +
  fixes F :: "u8 set"
  assumes still_R: "still s t \<Longrightarrow> R s t"
    and raw_R: "spi_raw fd tx k s = Some (r, t) \<Longrightarrow> clocks F tx \<Longrightarrow> R s t"
begin

lemmas seq = keeps_return keeps_returns keeps_bind
  keeps_if keeps_ifs keeps_let keeps_case_prod_fun keeps_case_prod keeps_case_option keeps_fail

lemma of_still: "keeps still m \<Longrightarrow> keeps R m"
  using still_R by (auto simp: keeps_def)

lemmas stills = still_rules [THEN of_still]

lemma before: "(\<And>s. still s (f s)) \<Longrightarrow> keeps R m \<Longrightarrow> keeps R (\<lambda>s. m (f s))"
  unfolding keeps_def using still_R trans by blast

lemma after: "(\<And>s. still s (f s)) \<Longrightarrow> keeps R (\<lambda>s. Some (x, f s))"
  by (simp add: keeps_def still_R)

lemma raw: "clocks F tx \<Longrightarrow> keeps R (spi_raw fd tx k)"
  using raw_R by (auto simp: keeps_def)

lemma waits: "keeps R (wait_states n spi)"
proof (induction n)
  case 0
  show ?case unfolding wait_states.simps by (rule keeps_return)
next
  case (Suc n)
  then show ?case unfolding wait_states.simps by (intro seq raw clocks_idle)
qed

lemma head: "keeps R (response_head spi b n)"
  unfolding response_head_def by (intro seq raw clocks_idle)

lemma tail: "keeps R (response_tail spi p n)"
  unfolding response_tail_def by (intro seq raw clocks_idle)

lemma txn: "clocks F tx \<Longrightarrow> keeps R (spi_txn_framed spi p tx n)"
  unfolding txn_defs
  by (intro seq raw clocks_idle head tail stills waits
      keeps_read [where f = "\<lambda>k. wait_states k spi"])

lemma exch: "clocks F tx \<Longrightarrow> keeps R (exchange spi p tx n)"
  unfolding exchange_def
  by (intro seq txn stills keeps_read [where f = usleep])

lemma do_command: "clocks F tx \<Longrightarrow> keeps R (do_cmd spi p tx n r)"
  unfolding do_cmd_def Let_def by (intro seq exch)

lemma xfer: "fid \<in> F \<Longrightarrow> keeps R (ezsp_xfer spi p fid ps got buf)"
proof (rule keepsI)
  fix s x t assume f: "fid \<in> F" and "ezsp_xfer spi p fid ps got buf s = Some (x, t)"
  then obtain cls rx where "do_cmd spi p (ezsp_tx (cfg_ezsp_version (cfg s)) (ezsp_seq s) fid ps) 260 True
       (s\<lparr>ezsp_seq := ezsp_seq s + 1\<rparr>) = Some ((cls, rx), t)"
    by (cases x) (auto elim: xfer_cases)
  from keepsD [OF do_command [OF clocks_frame [OF f]] this]
  have "R (s\<lparr>ezsp_seq := ezsp_seq s + 1\<rparr>) t" .
  moreover have "R s (s\<lparr>ezsp_seq := ezsp_seq s + 1\<rparr>)" by (intro still_R still_node)
  ultimately show "R s t" using trans by blast
qed

lemma cmd [traffic_rules]: "fid \<in> F \<Longrightarrow> keeps R (ezsp_cmd spi p fid ps buf)"
  unfolding ezsp_cmd_def by (intro seq xfer)

lemma poll [traffic_rules]: "EZSP_CALLBACK \<in> F \<Longrightarrow> keeps R (ezsp_poll_callback spi p buf)"
  unfolding ezsp_poll_callback_def by (intro seq xfer)

lemma adopt: "keeps R (ezsp_adopt out)"
  by (simp add: keeps_def ezsp_adopt_def Let_def still_R still_node)

lemma init [traffic_rules]: "EZSP_VERSION \<in> F \<Longrightarrow> keeps R (ezsp_init spi p)"
proof -
  assume f: "EZSP_VERSION \<in> F"
  have "keeps R (\<lambda>s. do {
      ((n, out), s) \<leftarrow> ezsp_cmd spi p EZSP_VERSION [w] (replicate 8 0) (set_version 4 s);
      if n < 3 then Some (-1, s)
      else if out ! 0 = w then ezsp_adopt out s
      else do {
        let want = out ! 0;
        (_, s) \<leftarrow> ncp_reset p s;
        ((n, out), s) \<leftarrow> ezsp_cmd spi p EZSP_VERSION [want] out (set_version 4 s);
        if n < 3 \<or> out ! 0 \<noteq> want then Some (-1, s) else ezsp_adopt out s
      } })" for w
    by (intro seq before [where f = "set_version 4"] cmd f adopt stills still_node)
  then show ?thesis unfolding keeps_def ezsp_init_def Let_def by blast
qed

lemma set_config [traffic_rules]: "EZSP_SET_CONFIGURATION_VALUE \<in> F \<Longrightarrow> keeps R (ezsp_set_config spi p cid v)"
  unfolding ezsp_set_config_def by (intro seq cmd)

lemma apply_config [traffic_rules]:
  "EZSP_SET_CONFIGURATION_VALUE \<in> F \<Longrightarrow> EZSP_ADD_ENDPOINT \<in> F \<Longrightarrow> keeps R (ezsp_apply_config spi p)"
  unfolding ezsp_apply_config_def ezsp_add_endpoint_def by (intro seq cmd set_config)

lemma permit [traffic_rules]: "EZSP_PERMIT_JOINING \<in> F \<Longrightarrow> keeps R (ezsp_permit spi p secs)"
  unfolding ezsp_permit_def by (intro seq cmd)

lemma set_power [traffic_rules]: "EZSP_SET_RADIO_POWER \<in> F \<Longrightarrow> keeps R (ezsp_set_power spi p dbm)"
  unfolding ezsp_set_power_def by (intro seq cmd)

lemma ask_R [traffic_rules]: "fid \<in> F \<Longrightarrow> keeps R (ask spi p fid ps f out)"
  unfolding ask_def by (intro seq cmd)

lemma ask_each_R [traffic_rules]: "fid \<in> F \<Longrightarrow> keeps R (ask_each spi p fid f is out)"
proof (induction "is" arbitrary: out)
  case Nil
  show ?case unfolding ask_each.simps by (rule keeps_return)
next
  case (Cons i "is")
  then show ?case unfolding ask_each.simps by (intro seq ask_R)
qed

lemma clock [traffic_rules]: "(\<And>now. keeps R (f now)) \<Longrightarrow> keeps R (\<lambda>s. let (now, s) = take_clock s in f now s)"
  unfolding keeps_def using still_R [OF still_clock] trans by (fastforce simp: split_beta)

lemma send [traffic_rules]: "EZSP_SEND_UNICAST \<in> F \<Longrightarrow> keeps R (zcl_send spi p dest cluster payload)"
proof -
  assume f: "EZSP_SEND_UNICAST \<in> F"
  have "keeps R (\<lambda>s. do {
      ((n, out), s) \<leftarrow> ezsp_cmd spi p EZSP_SEND_UNICAST (unicast_params dest cluster tag payload)
         (replicate 8 0) (s\<lparr>node := (node s)\<lparr>zcl_tag := tag + 1\<rparr>\<rparr>);
      Some (if n < 1 then -1 else if out ! 0 = EMBER_SUCCESS then 0 else -1, s) })" for tag
    by (intro seq before [where f = "\<lambda>s. s\<lparr>node := (node s)\<lparr>zcl_tag := tag + 1\<rparr>\<rparr>"] cmd f still_node)
  then show ?thesis unfolding keeps_def zcl_send_def Let_def using refl by (auto split: if_splits)
qed

lemma incoming [traffic_rules]: "EZSP_SEND_UNICAST \<in> F \<Longrightarrow> keeps R (zcl_handle_incoming spi p m)"
  unfolding zcl_handle_incoming_def zcl_read_def Let_def by (intro seq send stills)

lemma report_R [traffic_rules]: "EZSP_SEND_UNICAST \<in> F \<Longrightarrow> keeps R (zcl_report spi p)"
  unfolding zcl_report_def
  by (intro clock seq before [where f = "set_report_last now" for now] send after still_node)

lemma find_loop_R: "EZSP_CALLBACK \<in> F \<Longrightarrow> keeps R (find_loop i spi p pan out)"
proof (induction i arbitrary: out)
  case 0
  show ?case unfolding find_loop.simps by (rule keeps_return)
next
  case (Suc i)
  then show ?case unfolding find_loop.simps by (intro seq poll stills)
qed

lemma scan_loop_R: "EZSP_CALLBACK \<in> F \<Longrightarrow> keeps R (scan_loop i spi p n out)"
proof (induction i arbitrary: n out)
  case 0
  show ?case unfolding scan_loop.simps by (rule keeps_return)
next
  case (Suc i)
  then show ?case unfolding scan_loop.simps by (intro seq poll stills)
qed

lemma cmd_reading:
  "fid \<in> F \<Longrightarrow> (\<And>n out. keeps R (f n out)) \<Longrightarrow>
   keeps R (\<lambda>s. do { ((n, out), s) \<leftarrow> ezsp_cmd spi p fid (g s) out s; f n out s })"
  by (rule keeps_read [where g = g and f = "\<lambda>ps s. do { ((n, out), s) \<leftarrow> ezsp_cmd spi p fid ps out s; f n out s }"])
    (intro seq cmd)

lemma scan_R [traffic_rules]: "EZSP_VERSION \<in> F \<Longrightarrow> EZSP_START_SCAN \<in> F \<Longrightarrow> EZSP_CALLBACK \<in> F \<Longrightarrow>
    keeps R (scan_body spi p out)"
  unfolding scan_body_def by (intro seq init cmd_reading scan_loop_R)

lemma in_session: "(\<And>spi. keeps R (body spi p)) \<Longrightarrow> keeps R (\<lambda>s. do {
     (spi, s) \<leftarrow> spi_open s;
     (_, s) \<leftarrow> (if \<not> cfg_no_reset (cfg s) then ncp_reset p s else Some ((), s));
     (r, s) \<leftarrow> body spi p s;
     (_, s) \<leftarrow> release spi p s;
     Some (r, s) })"
  by (intro seq stills)

lemma session_R: "(\<And>spi p. keeps R (body spi p)) \<Longrightarrow> keeps R (session body)"
  unfolding session_def by (intro seq stills)

end

section \<open>The ids a function sends\<close>

definition asks_only :: "u8 set \<Rightarrow> sys \<Rightarrow> sys \<Rightarrow> bool" where
  "asks_only F s t \<longleftrightarrow> (\<exists>ev. trace t = trace s @ ev \<and> (\<forall>tx k. SpiXfer tx k \<in> set ev \<longrightarrow> clocks F tx))"

interpretation asked: traffic "asks_only F" F
proof
  show "asks_only F s s" for s by (simp add: asks_only_def)
  show "asks_only F s u" if "asks_only F s t" "asks_only F t u" for s t u
    using that by (fastforce simp: asks_only_def)
  show "asks_only F s t" if st: "still s t" for s t
  proof -
    obtain ev where ev: "trace t = trace s @ ev" "list_all (\<lambda>e. \<not> is_xfer e) ev" using st by (auto simp: still_def)
    then have "SpiXfer tx k \<notin> set ev" for tx k by (fastforce simp: list_all_iff)
    with ev show ?thesis by (auto simp: asks_only_def)
  qed
  show "asks_only F s t" if "spi_raw fd tx k s = Some (r, t)" "clocks F tx" for fd tx k s r t
    using spi_raw_Some [OF that(1)] that(2) by (auto simp: asks_only_def)
qed


section \<open>The bytes a function uses up\<close>

definition spends :: "sys \<Rightarrow> sys \<Rightarrow> bool" where
  "spends s t \<longleftrightarrow> length (miso t) \<le> length (miso s) \<and> clients (node t) = clients (node s)"

interpretation spent: traffic spends UNIV
proof
  show "spends s s" for s by (simp add: spends_def)
  show "spends s u" if "spends s t" "spends t u" for s t u using that by (simp add: spends_def)
  show "spends s t" if "still s t" for s t using that by (simp add: spends_def still_def)
  show "spends s t" if "spi_raw fd tx k s = Some (r, t)" "clocks UNIV tx" for fd tx k s r t
    using that(1) by (auto simp: spends_def spi_raw_def ioctl_def shift_in_def Option.bind_eq_Some_conv
        split: list.splits bool.splits)
qed


section \<open>The read-only commands\<close>

definition changing_ids :: "u8 set" where
  "changing_ids = {EZSP_JOIN_NETWORK, EZSP_LEAVE_NETWORK, EZSP_SET_INITIAL_SECURITY_STATE,
     EZSP_PERMIT_JOINING, EZSP_SET_RADIO_POWER, EZSP_SEND_UNICAST}"

definition read_ids :: "u8 set" where
  "read_ids = {EZSP_VERSION, EZSP_CALLBACK, EZSP_SET_CONFIGURATION_VALUE, EZSP_ADD_ENDPOINT, EZSP_NETWORK_INIT,
     EZSP_NETWORK_STATE, EZSP_GET_EUI64, EZSP_GET_NODE_ID, EZSP_GET_NETWORK_PARAMETERS, EZSP_START_SCAN,
     EZSP_GET_CONFIGURATION_VALUE, EZSP_GET_POLICY, EZSP_GET_KEY, EZSP_GET_PARENT_CHILD_PARAMS,
     EZSP_GET_CHILD_DATA, EZSP_NEIGHBOR_COUNT, EZSP_GET_NEIGHBOR, EZSP_GET_ROUTE_TABLE_ENTRY,
     EZSP_GET_BOOTLOADER_VERSION}"

text \<open>No frame with an id in \<open>G\<close> was sent, in the layout of any version.\<close>

definition never_sends :: "u8 set \<Rightarrow> sys \<Rightarrow> sys \<Rightarrow> bool" where
  "never_sends G s t \<longleftrightarrow> (\<exists>ev. trace t = trace s @ ev \<and>
     (\<forall>tx k ver sq fid ps. SpiXfer tx k \<in> set ev \<longrightarrow> fid \<in> G \<longrightarrow> tx \<noteq> ezsp_tx ver sq fid ps))"

lemma frame_id_unique:
  "ezsp_tx ver sq fid ps = ezsp_tx ver' sq' fid' ps' \<Longrightarrow> fid \<notin> {1, 0xFF} \<Longrightarrow> fid' \<notin> {1, 0xFF} \<Longrightarrow> fid = fid'"
  by (auto simp: ezsp_tx_def ezsp_header_def split: if_splits)

lemma frame_not_idle: "replicate n SPI_IDLE \<noteq> ezsp_tx ver sq fid ps"
  by (cases n) (simp_all add: ezsp_tx_def)

lemma asks_never_sends:
  assumes "F \<inter> G = {}" and "1 \<notin> F \<union> G" and "0xFF \<notin> F \<union> G"
  shows "keeps (asks_only F) m \<Longrightarrow> keeps (never_sends G) m"
proof -
  have "tx \<noteq> ezsp_tx ver sq fid ps" if c: "clocks F tx" "fid \<in> G" for tx ver sq fid ps
  proof (cases "\<exists>n. tx = replicate n SPI_IDLE")
    case True
    then obtain n where "tx = replicate n SPI_IDLE" by blast
    with frame_not_idle show ?thesis by simp
  next
    case False
    with c(1) obtain ver' sq' fid' ps' where f: "fid' \<in> F" "tx = ezsp_tx ver' sq' fid' ps'"
      by (auto simp: clocks_def)
    have "fid' \<noteq> fid" "fid' \<notin> {1, 0xFF}" "fid \<notin> {1, 0xFF}" using f(1) c(2) assms by auto
    then show ?thesis unfolding f(2) using frame_id_unique by blast
  qed
  then show "keeps (asks_only F) m \<Longrightarrow> keeps (never_sends G) m"
    unfolding keeps_def asks_only_def never_sends_def by meson
qed

lemmas read_only = asks_never_sends [of read_ids changing_ids]

lemma read_changing: "read_ids \<inter> changing_ids = {}" "1 \<notin> read_ids \<union> changing_ids" "0xFF \<notin> read_ids \<union> changing_ids"
  by (simp_all add: read_ids_def changing_ids_def)

lemma read_members [intro]:
  "EZSP_VERSION \<in> read_ids" "EZSP_CALLBACK \<in> read_ids" "EZSP_SET_CONFIGURATION_VALUE \<in> read_ids"
  "EZSP_ADD_ENDPOINT \<in> read_ids" "EZSP_NETWORK_INIT \<in> read_ids" "EZSP_NETWORK_STATE \<in> read_ids"
  "EZSP_GET_EUI64 \<in> read_ids" "EZSP_GET_NODE_ID \<in> read_ids" "EZSP_GET_NETWORK_PARAMETERS \<in> read_ids"
  "EZSP_START_SCAN \<in> read_ids" "EZSP_GET_CONFIGURATION_VALUE \<in> read_ids" "EZSP_GET_POLICY \<in> read_ids"
  "EZSP_GET_KEY \<in> read_ids" "EZSP_GET_PARENT_CHILD_PARAMS \<in> read_ids" "EZSP_GET_CHILD_DATA \<in> read_ids"
  "EZSP_NEIGHBOR_COUNT \<in> read_ids" "EZSP_GET_NEIGHBOR \<in> read_ids" "EZSP_GET_ROUTE_TABLE_ENTRY \<in> read_ids"
  "EZSP_GET_BOOTLOADER_VERSION \<in> read_ids"
  by (simp_all add: read_ids_def)

lemma info_asks: "keeps (asks_only read_ids) (cmd_info out)"
proof -
  have "keeps (asks_only read_ids) (info_lines spi p out)" for spi p
    unfolding info_lines_def by (intro asked.seq asked.apply_config asked.ask_R read_members)
  moreover have "keeps (asks_only read_ids) (\<lambda>s. do { (_, s) \<leftarrow> pins_close p s; Some (x, emit (CloseFd spi) s) })"
    for x :: "int \<times> report list" and spi p
    by (intro asked.of_still still_seq still_rules) simp
  ultimately show ?thesis
    unfolding cmd_info_def by (intro asked.seq asked.stills asked.init read_members) simp_all
qed

lemma pieces_asks: "keeps (asks_only read_ids) (status_pieces spi p out)"
proof -
  have c: "keeps (asks_only read_ids) (\<lambda>s. let (t5, s) = (reports_text s, s); (t6, s) = last_text s in Some (g t5 t6, s))"
    for g :: "string list \<Rightarrow> string list \<Rightarrow> string list"
    by (rule asked.of_still)
      (auto simp: keeps_def last_text_def split_beta still.refl still_clock)
  show ?thesis
    unfolding status_pieces_def
    by (intro asked.keeps_bind keeps_case_prod_fun asked.ask_R read_members
        c [where g = "\<lambda>t5 t6. _ @ _ @ _ @ _ @ t5 @ t6 @ [''ok'' @ nl]"])
qed

lemma reading_asks:
  "keeps (asks_only read_ids) (config_body out spi p)" "keeps (asks_only read_ids) (policy_body out spi p)"
  "keeps (asks_only read_ids) (keys_body out spi p)" "keeps (asks_only read_ids) (neighbors_body out spi p)"
  "keeps (asks_only read_ids) (verify_body hdr out spi p)" "keeps (asks_only read_ids) (bootloader_body out spi p)"
  "keeps (asks_only read_ids) (scan_body spi p out)"
  unfolding config_body_def policy_body_def keys_body_def neighbors_body_def neighbor_table_def verify_body_def bootloader_body_def
  by (intro asked.seq asked.init asked.apply_config asked.ask_R asked.ask_each_R asked.cmd asked.scan_R asked.stills read_members)+

lemma verify_asks: "keeps (asks_only read_ids) (cmd_verify file out)"
proof (rule keepsI)
  fix s x t assume "cmd_verify file out s = Some (x, t)"
  then have "t = s \<or> (\<exists>hdr r. session (verify_body hdr out) s = Some (r, t))"
    by (auto simp: cmd_verify_def Let_def Option.bind_eq_Some_conv split: option.splits if_splits)
  moreover have "keeps (asks_only read_ids) (session (verify_body hdr out))" for hdr
    by (rule asked.session_R) (rule reading_asks)
  ultimately show "asks_only read_ids s t" using asked.refl keepsD by fast
qed

text \<open>
  C18: The commands documented as read-only are: whatever the NCP, the kernel and a daemon
  answer, \<open>info\<close>, \<open>config\<close>, \<open>policy\<close>, \<open>keys\<close>, \<open>neighbors\<close>, \<open>bootloader\<close>, \<open>verify\<close>, \<open>scan\<close> and
  \<open>status\<close> never send the NCP a frame that joins, leaves, sets security, opens the join window,
  sets the transmit power or sends a message, in the layout of any version.
\<close>

theorem read_only_commands:
  "keeps (never_sends changing_ids) (cmd_info out) \<and> keeps (never_sends changing_ids) (cmd_config out) \<and>
   keeps (never_sends changing_ids) (cmd_policy out) \<and> keeps (never_sends changing_ids) (cmd_keys out) \<and>
   keeps (never_sends changing_ids) (cmd_neighbors out) \<and> keeps (never_sends changing_ids) (cmd_bootloader out) \<and>
   keeps (never_sends changing_ids) (cmd_verify file out) \<and> keeps (never_sends changing_ids) (cmd_scan out) \<and>
   keeps (never_sends changing_ids) (cmd_status out stk)"
proof -
  let ?k = "keeps (asks_only read_ids)"
  have status: "?k (status_body out stk spi p)" for spi p
    unfolding status_body_def control_status_def
    by (intro asked.seq asked.init asked.apply_config asked.cmd pieces_asks read_members)
  have "?k (cmd_info out)" by (rule info_asks)
  moreover have "?k (cmd_config out)" "?k (cmd_policy out)" "?k (cmd_keys out)" "?k (cmd_bootloader out)"
    unfolding cmd_config_def cmd_policy_def cmd_keys_def cmd_bootloader_def
    by (intro asked.session_R reading_asks)+
  moreover have "?k (cmd_scan out)" unfolding cmd_scan_session by (intro asked.session_R reading_asks)
  moreover have "?k (cmd_neighbors out)"
    unfolding cmd_neighbors_def
    by (intro asked.seq asked.session_R reading_asks asked.of_still [OF still_query_cfg])
  moreover have "?k (cmd_status out stk)"
    unfolding cmd_status_def
    by (intro asked.seq asked.session_R status asked.of_still [OF still_query_cfg])
  moreover have "?k (cmd_verify file out)" by (rule verify_asks)
  ultimately show ?thesis by (intro conjI read_only [OF read_changing])
qed

end
