(* ===== verification/Daemon.thy ===== *)
theory Daemon
  imports Traffic
begin

text \<open>
  The daemon (control.c, \<open>cmd_run\<close>): negotiation, configuration and the restored network, the
  schedule of the reports, and one round of the loop: the wait for nHOST_INT, the control
  socket or the next report; a client's request; the callbacks the NCP has queued; a report
  that is due. The loop itself does not end; \<open>run_rounds\<close> is its first rounds.
\<close>

unbundle bit_operations_syntax

abbreviation EZSP_CHILD_JOIN_HANDLER :: u8 where "EZSP_CHILD_JOIN_HANDLER \<equiv> 0x23"
abbreviation EZSP_TRUST_CENTER_JOIN_HANDLER :: u8 where "EZSP_TRUST_CENTER_JOIN_HANDLER \<equiv> 0x24"
abbreviation EZSP_MESSAGE_SENT_HANDLER :: u8 where "EZSP_MESSAGE_SENT_HANDLER \<equiv> 0x3F"
abbreviation EZSP_INCOMING_MESSAGE_HANDLER :: u8 where "EZSP_INCOMING_MESSAGE_HANDLER \<equiv> 0x45"


section \<open>Starting\<close>

text \<open>\<open>control_listen\<close>: whether there is a socket; \<open>ok\<close> is whether the kernel gives it.\<close>

definition control_listen :: "string \<Rightarrow> bool \<Rightarrow> bool" where
  "control_listen path ok \<longleftrightarrow> path \<noteq> [] \<and> ok"

datatype start_line =
    NetworkRestored
  | NetworkAlreadyUp
  | NotYetOnNetwork u8

text \<open>
  The seed of \<open>rand()\<close> comes from the clock and the EUI64; what \<open>rand()\<close> then gives is input.
\<close>

definition first_report :: "sys \<Rightarrow> int \<times> sys" where
  "first_report s =
     (let (now, s) = take_clock s in
      if cfg_report_secs (cfg s) \<noteq> 0 then let (r, s) = take_rand s in (now + int (r mod 30), s)
      else (now, s))"

definition run_network :: "int \<Rightarrow> pins \<Rightarrow> u8 list \<Rightarrow> (sys, start_line \<times> u8 list) cmd" where
  "run_network spi p out s = do {
     ((n, out), s) \<leftarrow> ezsp_cmd spi p EZSP_NETWORK_INIT [] out s;
     if n < 1 \<or> out ! 0 \<noteq> EMBER_SUCCESS then do {
       ((m, st), s) \<leftarrow> ezsp_cmd spi p EZSP_NETWORK_STATE [] (replicate 8 0) s;
       Some ((if m \<ge> 1 \<and> st ! 0 = 0x02 then NetworkAlreadyUp else NotYetOnNetwork (status_of n out), out), s)
     }
     else Some ((NetworkRestored, out), s)
   }"


section \<open>Waiting\<close>

text \<open>
  The time until the next report, in milliseconds, at most 30 s. \<open>long\<close> and \<open>int\<close> have 32
  bits; the product of a \<open>long\<close> that leaves them is taken as it wraps.
\<close>

definition poll_timeout :: "u32 \<Rightarrow> int \<Rightarrow> int \<Rightarrow> int" where
  "poll_timeout secs next now =
     (if secs = 0 then 30000
      else let due = max 0 (sint (word_of_int (next - now) :: u32));
               ms = sint (word_of_int (due * 1000) :: u32)
           in if ms < 30000 then ms else 30000)"

definition take_poll :: "sys \<Rightarrow> (bool \<times> bool) \<times> sys" where
  \<comment> \<open>\<open>poll\<close>: whether nHOST_INT and the control socket are readable\<close>
  "take_poll s = (case polls (node s) of
      [] \<Rightarrow> ((False, False), s)
    | r # rs \<Rightarrow> (r, s\<lparr>node := (node s)\<lparr>polls := rs\<rparr>\<rparr>))"

definition read_edge :: "sys \<Rightarrow> sys" where
  \<comment> \<open>the \<open>read\<close> of one event, short or not\<close>
  "read_edge s = s\<lparr>edges := tl (edges s)\<rparr>"

definition due_in :: "int \<Rightarrow> sys \<Rightarrow> int \<times> sys" where
  "due_in next s =
     (if cfg_report_secs (cfg s) \<noteq> 0
      then let (now, s) = take_clock s in (poll_timeout (cfg_report_secs (cfg s)) next now, s)
      else (poll_timeout 0 next 0, s))"

text \<open>The result is whether a client is waiting.\<close>

definition run_poll :: "bool \<Rightarrow> bool \<Rightarrow> int \<Rightarrow> (sys, bool) cmd" where
  "run_poll listening hint timeout s =
     (if listening \<or> hint
      then let ((edge, conn), s) = take_poll (emit (LinePoll timeout) s)
           in Some (listening \<and> conn, if hint \<and> edge then read_edge s else s)
      else do { (_, s) \<leftarrow> usleep 250000 s; Some (False, s) })"

definition run_wait :: "pins \<Rightarrow> bool \<Rightarrow> int \<Rightarrow> (sys, bool) cmd" where
  "run_wait p listening next s = do {
     (hint, s) \<leftarrow> (if pin_hint p \<ge> 0 then do { (l, s) \<leftarrow> gpio_get (pin_hint p) s; Some (l \<noteq> 0, s) }
                  else Some (False, s));
     let (timeout, s) = due_in next s;
     run_poll listening hint timeout s
   }"


section \<open>Callbacks\<close>

datatype callback =
    StackStatus u8
  | ChildEvent bool u16 "u8 list" u8         \<comment> \<open>joined, id, EUI64, node type\<close>
  | TrustCenterJoin u16 "u8 list" u8 u8 u16  \<comment> \<open>id, EUI64, status, decision, parent\<close>
  | Message incoming
  | SendFailed u16 u8                        \<comment> \<open>destination, status\<close>
  | SendOk u16
  | OtherCallback u8

definition count_failed :: "sys \<Rightarrow> sys" where
  "count_failed s = s\<lparr>node := (node s)\<lparr>report_failed := report_failed (node s) + 1\<rparr>\<rparr>"

definition run_callback :: "int \<Rightarrow> pins \<Rightarrow> u8 \<Rightarrow> u8 list \<Rightarrow> (sys, callback) cmd" where
  "run_callback spi p fid out s =
     (if fid = EZSP_STACK_STATUS_HANDLER then Some (StackStatus (out ! 0), s)
      else if fid = EZSP_CHILD_JOIN_HANDLER then
        Some (ChildEvent (out ! 1 \<noteq> 0) (le16_at 2 out) (rev (field 4 8 out)) (out ! 12), s)
      else if fid = EZSP_TRUST_CENTER_JOIN_HANDLER then
        Some (TrustCenterJoin (le16_at 0 out) (rev (field 2 8 out)) (out ! 10) (out ! 11) (le16_at 12 out), s)
      else if fid = EZSP_INCOMING_MESSAGE_HANDLER then do {
        (m, s) \<leftarrow> zcl_handle_incoming spi p out s;
        Some (Message m, s)
      }
      else if fid = EZSP_MESSAGE_SENT_HANDLER then
        (if out ! 15 \<noteq> EMBER_SUCCESS then Some (SendFailed (le16_at 1 out) (out ! 15), count_failed s)
         else Some (SendOk (le16_at 1 out), s))
      else Some (OtherCallback fid, s))"

text \<open>
  The loop that drains the callbacks has no bound of its own; with the fuel used up it is
  \<open>None\<close>. \<open>run_drain_returns\<close> below shows that fuel beyond the bytes the NCP has left is enough.
\<close>

fun run_drain :: "nat \<Rightarrow> int \<Rightarrow> pins \<Rightarrow> u8 list \<Rightarrow> (sys, callback list \<times> u8 list) cmd" where
  "run_drain 0 spi p out s = None"
| "run_drain (Suc k) spi p out s = do {
     ((fid, out), s) \<leftarrow> ezsp_poll_callback spi p out s;
     if fid = 0 then Some (([], out), s)
     else do {
       (c, s) \<leftarrow> run_callback spi p fid out s;
       ((cs, out), s) \<leftarrow> run_drain k spi p out s;
       Some ((c # cs, out), s)
     }
   }"


section \<open>The loop\<close>

definition run_report :: "int \<Rightarrow> pins \<Rightarrow> int \<Rightarrow> (sys, int) cmd" where
  "run_report spi p next s =
     (if cfg_report_secs (cfg s) = 0 then Some (next, s)
      else let (now, s) = take_clock s in
        if now \<ge> next then do {
          (_, s) \<leftarrow> zcl_report spi p s;
          let (now, s) = take_clock s;
          let (i, s) = report_interval s;
          Some (now + int (unat i), s)
        }
        else Some (next, s))"

text \<open>
  One round, from the time of the next report and the callback buffer to the same; \<open>stk\<close> is
  the buffer of \<open>control_accept\<close> as the stack left it.
\<close>

definition run_round :: "nat \<Rightarrow> int \<Rightarrow> pins \<Rightarrow> bool \<Rightarrow> u8 list \<Rightarrow> int \<times> u8 list \<Rightarrow>
    (sys, callback list \<times> int \<times> u8 list) cmd" where
  "run_round fuel spi p listening stk st s = do {
     let (next, out) = st;
     (conn, s) \<leftarrow> run_wait p listening next s;
     (_, s) \<leftarrow> (if conn then control_accept spi p stk s else Some ((), s));
     ((cs, out), s) \<leftarrow> run_drain fuel spi p out s;
     (next, s) \<leftarrow> run_report spi p next s;
     Some ((cs, next, out), s)
   }"

fun run_rounds :: "nat \<Rightarrow> nat \<Rightarrow> int \<Rightarrow> pins \<Rightarrow> bool \<Rightarrow> u8 list \<Rightarrow> int \<times> u8 list \<Rightarrow>
    (sys, callback list \<times> int \<times> u8 list) cmd" where
  "run_rounds 0 fuel spi p listening stk st s = Some (([], st), s)"
| "run_rounds (Suc n) fuel spi p listening stk st s = do {
     ((cs, st), s) \<leftarrow> run_round fuel spi p listening stk st s;
     ((cs', st), s) \<leftarrow> run_rounds n fuel spi p listening stk st s;
     Some ((cs @ cs', st), s)
   }"

text \<open>
  \<open>cmd_run\<close>, watched for \<open>rounds\<close> rounds: the exit code 1 without an agreed version,
  otherwise what it prints at the start and the callbacks it handles.
\<close>

datatype run_result = Unavailable int | Running start_line "callback list"

definition run_body :: "nat \<Rightarrow> nat \<Rightarrow> bool \<Rightarrow> u8 list \<Rightarrow> u8 list \<Rightarrow> int \<Rightarrow> pins \<Rightarrow> (sys, run_result) cmd" where
  "run_body rounds fuel ok stk out spi p s = do {
     (v, s) \<leftarrow> ezsp_init spi p s;
     if v < 0 then do { (_, s) \<leftarrow> release spi p s; Some (Unavailable 1, s) }
     else do {
       (_, s) \<leftarrow> ezsp_apply_config spi p s;
       let (seed, s) = take_clock s;
       (_, s) \<leftarrow> ezsp_cmd spi p EZSP_GET_EUI64 [] (replicate 16 0) s;
       let (next, s) = first_report s;
       ((l, out), s) \<leftarrow> run_network spi p out s;
       ((cs, _), s) \<leftarrow> run_rounds rounds fuel spi p (control_listen (cfg_sock_path (cfg s)) ok) stk (next, out) s;
       Some (Running l cs, s)
     }
   }"

definition cmd_run :: "nat \<Rightarrow> nat \<Rightarrow> bool \<Rightarrow> u8 list \<Rightarrow> u8 list \<Rightarrow> (sys, run_result) cmd" where
  "cmd_run rounds fuel ok stk out s = do {
     (p, s) \<leftarrow> pins_open s;
     (spi, s) \<leftarrow> spi_open s;
     (_, s) \<leftarrow> (if \<not> cfg_no_reset (cfg s) then ncp_reset p s else Some ((), s));
     run_body rounds fuel ok stk out spi p s
   }"


section \<open>Every command clocks something\<close>

lemma raw_uses: "spi_raw fd tx k s = Some (r, t) \<Longrightarrow> length (miso t) = length (miso s) - length tx"
  by (auto simp: spi_raw_def ioctl_def shift_in_def Option.bind_eq_Some_conv split: list.splits bool.splits)

lemma spendsD: "spends s t \<Longrightarrow> length (miso t) \<le> length (miso s)"
  by (simp add: spends_def)

lemma clocks_UNIV: "clocks UNIV (ezsp_tx ver sq fid ps)"
  by (rule clocks_frame) simp

text \<open>A transaction sends its command, and the command's bytes shift as many bytes in.\<close>

lemma txn_uses:
  assumes "spi_txn_framed spi p tx n s = Some (r, t)" and "tx \<noteq> []"
  shows "length (miso t) \<le> length (miso s) - 1 \<and> clocked tx s t"
proof -
  have cont: ?thesis if a: "cs_assert p s = Some ((), s0)" "txn_command spi tx s0 = Some ((), s1)"
    "wait_states k spi s1 = Some (b, s2)" and d: "spends s2 t" "radio s2 t" for s0 s1 s2 b k
  proof -
    have r: "radio s s0" "radio s1 s2" using a keepsD [OF radio_cs_assert] keepsD [OF radio_wait_states] by blast+
    have u: "spends s s0" "spends s1 s2"
      using a(1) spent.of_still [OF still_cs_assert] keepsD [OF spent.waits a(3)] by (auto simp: keeps_def)
    obtain x where x: "spi_raw spi tx True s0 = Some (x, s1)"
      using a(2) assms(2) by (auto simp: txn_command_def Option.bind_eq_Some_conv)
    have "1 \<le> length tx" using assms(2) by (cases tx) simp_all
    then have "length (miso t) \<le> length (miso s) - 1"
      using spendsD [OF u(1)] spendsD [OF u(2)] spendsD [OF d(1)] raw_uses [OF x] by linarith
    moreover have "clocked tx s0 s1" using spi_raw_Some [OF x] by (auto simp: clocked_def)
    then have "clocked tx s t"
      using r d(2) by (fastforce simp: clocked_def radio_def)
    ultimately show ?thesis ..
  qed
  show ?thesis
    using assms(1)
  proof (cases rule: txn_cases)
    case (idle s0 s1 s2)
    have "keeps spends (txn_no_response spi p n)"
      unfolding txn_no_response_def by (intro spent.seq spent.stills spent.raw clocks_idle)
    then show ?thesis
      using cont idle keepsD [OF radio_txn_no_response idle(4)] by (auto dest: keepsD)
  next
    case (response s0 s1 b s2)
    have "keeps spends (txn_response spi p b n)"
      unfolding txn_response_def by (intro spent.seq spent.stills spent.head spent.tail)
    then show ?thesis
      using cont response keepsD [OF radio_txn_response response(5)] by (auto dest: keepsD)
  qed
qed

lemma exchange_uses:
  assumes "exchange spi p tx n s = Some (r, t)" and "tx \<noteq> []"
  shows "length (miso t) \<le> length (miso s) - 1 \<and> clocked tx s t"
proof -
  from assms(1) obtain s1 s2 where 1: "usleep (unat (cfg_gap_us (cfg s))) s = Some ((), s1)"
    and 2: "(if cfg_wake_handshake (cfg s1) then ncp_wake p s1 else Some ((), s1)) = Some ((), s2)"
    and 3: "spi_txn_framed spi p tx n s2 = Some (r, t)"
    by (auto simp: exchange_def Option.bind_eq_Some_conv)
  have "spends s s1" using keepsD [OF spent.of_still [OF still_usleep] 1] .
  moreover have "spends s1 s2"
    using 2 keepsD [OF spent.of_still [OF still_ncp_wake]] spent.refl by (auto split: if_splits)
  moreover have "radio s s1" using keepsD [OF radio_usleep 1] .
  moreover have "radio s1 s2" using 2 keepsD [OF radio_ncp_wake] radio_refl by (auto split: if_splits)
  ultimately show ?thesis
    using txn_uses [OF 3 assms(2)] spends_def clocked_radio by (meson diff_le_mono order_trans)
qed

lemma do_cmd_uses:
  assumes "do_cmd spi p tx n r s = Some (x, t)" and "tx \<noteq> []"
  shows "length (miso t) \<le> length (miso s) - 1 \<and> clocked tx s t"
proof -
  from assms(1) obtain y s1 where 1: "exchange spi p tx n s = Some (y, s1)" and
    2: "s1 = t \<or> (\<exists>z. exchange spi p tx n s1 = Some (z, t))"
    by (cases "exchange spi p tx n s") (auto simp: do_cmd_def Let_def Option.bind_eq_Some_conv split: if_splits)
  from 2 have "length (miso t) \<le> length (miso s1) \<and> radio s1 t"
    using exchange_uses [OF _ assms(2)] radio_refl keepsD [OF radio_exchange] by fastforce
  with exchange_uses [OF 1 assms(2)] show ?thesis
    by (fastforce simp: clocked_def radio_def)
qed

lemma xfer_uses:
  assumes "ezsp_xfer spi p fid ps got buf s = Some (x, t)"
  shows "length (miso t) \<le> length (miso s) - 1 \<and> clocked (ezsp_tx (cfg_ezsp_version (cfg s)) (ezsp_seq s) fid ps) s t"
proof -
  let ?tx = "ezsp_tx (cfg_ezsp_version (cfg s)) (ezsp_seq s) fid ps"
  obtain cls rx where "do_cmd spi p ?tx 260 True (s\<lparr>ezsp_seq := ezsp_seq s + 1\<rparr>) = Some ((cls, rx), t)"
    using assms by (cases x) (auto elim: xfer_cases)
  from do_cmd_uses [OF this] show ?thesis by (simp add: ezsp_tx_def clocked_def)
qed

lemma cmd_uses:
  "ezsp_cmd spi p fid ps buf s = Some (x, t) \<Longrightarrow>
   clocked (ezsp_tx (cfg_ezsp_version (cfg s)) (ezsp_seq s) fid ps) s t"
  by (auto simp: ezsp_cmd_def Option.bind_eq_Some_conv dest: xfer_uses)

text \<open>A callback was reported only if the NCP shifted something out for it.\<close>

lemma poll_uses:
  assumes "kfail s = []" and "ezsp_poll_callback spi p buf s = Some ((fid, out), t)" and "fid \<noteq> 0"
  shows "length (miso t) < length (miso s)"
proof (cases "miso s")
  case Nil
  let ?tx = "ezsp_tx (cfg_ezsp_version (cfg s)) (ezsp_seq s) EZSP_CALLBACK []"
  have "\<exists>t. do_cmd spi p ?tx 260 True (s\<lparr>ezsp_seq := ezsp_seq s + 1\<rparr>) = Some ((RSP_IDLE, replicate 260 0), t)"
    by (rule do_cmd_silent) (simp_all add: assms(1) Nil)
  then show ?thesis
    using assms(2,3) by (auto simp: ezsp_poll_callback_def ezsp_xfer_def Let_def)
next
  case (Cons b m)
  from assms(2) obtain x s1 where "ezsp_xfer spi p EZSP_CALLBACK [] 0 buf s = Some (x, s1)" "s1 = t"
    by (auto simp: ezsp_poll_callback_def Option.bind_eq_Some_conv)
  with xfer_uses [of spi p EZSP_CALLBACK "[]" 0 buf s x t] Cons show ?thesis by simp
qed


section \<open>The daemon's replies\<close>

text \<open>
  \<open>steady k s\<close>: the kernel refuses nothing, no client goes away while its reply is written,
  and the NCP has at most \<open>k\<close> bytes left to say. All of it is kept by everything that only
  exchanges frames.
\<close>

fun stays :: "client \<Rightarrow> bool" where
  "stays (Request bytes there) = there"
| "stays c = True"

definition steady :: "nat \<Rightarrow> sys \<Rightarrow> bool" where
  "steady k s \<longleftrightarrow> kfail s = [] \<and> list_all stays (clients (node s)) \<and> length (miso s) \<le> k"

lemma lives_steady: "lives ioctls_ok m \<Longrightarrow> keeps spends m \<Longrightarrow> lives (steady k) m"
  unfolding lives_def keeps_def ioctls_ok_def steady_def spends_def by (metis order_trans)

text \<open>No reply overruns its buffer of 1024 bytes: \<open>control_reply\<close> leaves a text.\<close>

lemma bprintf_ok: "at \<le> lim \<Longrightarrow> bprintf lim t (Some (u, at)) \<noteq> None"
  by (simp add: bprintf_def)

lemma fold_bprintf_ok: "length (concat ts) < lim \<Longrightarrow> fold (bprintf lim) ts (Some ([], 0)) \<noteq> None"
  using fold_bprintf [of "[]" ts lim] by simp

lemma table_loop_ok: "b \<noteq> None \<Longrightarrow> gives (\<lambda>(out, b). b \<noteq> None) (table_loop spi p fid f lim is out b)"
proof (induction "is" arbitrary: out b)
  case (Cons i "is")
  obtain t at where b: "b = Some (t, at)" using Cons.prems by auto
  show ?case
  proof (cases "at < lim - 80")
    case True
    have "(case f n o' of None \<Rightarrow> Some (t, at) | Some line \<Rightarrow> bprintf lim line (Some (t, at))) \<noteq> None" for n o'
      using True bprintf_ok [of at lim] by (auto split: option.splits)
    then have "gives (\<lambda>(out, b). b \<noteq> None) (\<lambda>s. do {
        ((n, out), s) \<leftarrow> ezsp_cmd spi p fid [i] out s;
        table_loop spi p fid f lim is out
          (case f n out of None \<Rightarrow> Some (t, at) | Some line \<Rightarrow> bprintf lim line (Some (t, at))) s })"
      by (intro gives_then gives_case_prod_fun Cons.IH)
    with True show ?thesis by (simp add: b gives_def)
  next
    case False
    then show ?thesis by (simp add: b gives_def)
  qed
qed (simp add: gives_def split: prod.split)

lemma lives_table_loop [lives_rules]: "lives ioctls_ok (table_loop spi p fid f lim is out b)"
proof (induction "is" arbitrary: out b)
  case (Cons i "is")
  show ?case
  proof (cases b)
    case (Some ta)
    obtain t at where b: "b = Some (t, at)" using Some by (cases ta) auto
    show ?thesis
    proof (cases "at < lim - 80")
      case True
      have "lives ioctls_ok (\<lambda>s. do {
          ((n, out), s) \<leftarrow> ezsp_cmd spi p fid [i] out s;
          table_loop spi p fid f lim is out
            (case f n out of None \<Rightarrow> Some (t, at) | Some line \<Rightarrow> bprintf lim line (Some (t, at))) s })"
        by (intro lives_rules Cons.IH) simp
      with True show ?thesis by (simp add: b lives_def)
    next
      case False
      then show ?thesis by (simp add: b lives_def)
    qed
  qed (simp add: lives_def)
qed (simp add: lives_def split: prod.split)


lemma neighbors_ok: "gives (\<lambda>b. b \<noteq> None) (control_neighbors spi p out 1024)"
  unfolding control_neighbors_def Let_def
  by (intro gives_then gives_case_prod_fun gives_bind [OF table_loop_ok] gives_return)
    (auto simp: bprintf_def)

lemma child_short: "length (concat (child_text i n out)) \<le> 38"
  using length_hex_eui [of 3 out] by (simp add: child_text_def)

lemma concat_short: "list_all (\<lambda>t. length t \<le> m) ts \<Longrightarrow> length (concat ts) \<le> m * length ts"
  by (induction ts) auto

lemma gives_each_length:
  assumes "\<And>i n out. length (concat (f i n out)) \<le> m"
  shows "gives (\<lambda>(ts, out). length (concat ts) \<le> m * length is) (ask_each spi p fid f is out)"
proof (induction "is" arbitrary: out)
  case (Cons i "is")
  show ?case
    unfolding ask_each.simps
    by (intro gives_bind [OF gives_ask [where Q = "\<lambda>ts. length (concat ts) \<le> m"]] gives_case_prod_fun
        gives_bind [OF Cons] gives_return)
      (use assms in auto)
qed (simp add: gives_def)

lemma count_u8: "count_of n out \<le> 255"
  using unat_u8_le by (simp add: count_of_def)

lemma children_ok: "gives (\<lambda>b. b \<noteq> None) (control_children spi p out 1024)"
proof -
  have d: "length (dec (count_of n out)) \<le> 3" for n out
    using count_u8 [of n out] by (intro length_dec) simp_all
  have "fold (bprintf 1024) ((''children: '' @ dec (count_of n out) @ nl) # ts) (Some ([], 0)) \<noteq> None"
    if "length (concat ts) \<le> 38 * length (indices (min (count_of n out) 8))" for n out ts
    by (rule fold_bprintf_ok) (use that d [of n out] in \<open>simp add: indices_def nl_def\<close>)
  then show ?thesis
    unfolding control_children_def Let_def
    by (intro gives_then gives_case_prod_fun gives_bind [OF gives_each_length [OF child_short]] gives_return) auto
qed

lemma status_ok: "gives (\<lambda>b. b \<noteq> None) (control_status spi p out 1024)"
proof -
  have "fold (bprintf 1024) ts (Some ([], 0)) \<noteq> None" if "length (concat ts) \<le> 257" for ts
    using that by (intro fold_bprintf_ok) simp
  then show ?thesis
    unfolding control_status_def
    by (intro gives_bind [OF status_short] gives_case_prod_fun gives_return) auto
qed

lemma reply_eqs:
  "control_reply spi p out ReqStatus = control_status spi p out 1024"
  "control_reply spi p out ReqScan = (\<lambda>s. do {
     ((ts, _), s) \<leftarrow> ask spi p EZSP_START_SCAN (scan_params 0x07FFF800 3) scan_text (take 32 out) s;
     Some (fold (bprintf 1024) ts (Some ([], 0)), s) })"
  "control_reply spi p out ReqNeighbors = control_neighbors spi p out 1024"
  "control_reply spi p out ReqChildren = control_children spi p out 1024"
  "control_reply spi p out (ReqPower dbm) = (\<lambda>s. do {
     ((_, m), s) \<leftarrow> ezsp_set_power spi p dbm s; Some (bprintf 1024 (power_text m) (Some ([], 0)), s) })"
  "control_reply spi p out (ReqPermit secs) = (\<lambda>s. do {
     ((_, m), s) \<leftarrow> ezsp_permit spi p secs s; Some (bprintf 1024 (permit_text m) (Some ([], 0)), s) })"
  "control_reply spi p out ReqUnknown = (\<lambda>s. Some (bprintf 1024 unknown_text (Some ([], 0)), s))"
  by (simp_all add: control_reply_def fun_eq_iff)

lemma control_reply_ok: "gives (\<lambda>b. b \<noteq> None) (control_reply spi p out r)"
proof (cases r)
  case ReqScan
  then show ?thesis
    unfolding ReqScan reply_eqs
    by (intro gives_bind [OF gives_ask [where Q = "\<lambda>ts. length ts = 1"]] gives_case_prod_fun gives_return)
      (auto simp: scan_text_def length_Suc_conv bprintf_def)
qed (simp only: reply_eqs status_ok neighbors_ok children_ok;
     intro gives_then gives_case_prod_fun gives_return; simp add: bprintf_def)+

lemma lives_control_reply [lives_rules]: "lives ioctls_ok (control_reply spi p out r)"
proof (cases r)
  case ReqNeighbors
  then show ?thesis unfolding ReqNeighbors reply_eqs control_neighbors_def by (intro lives_rules) simp_all
next
  case ReqChildren
  then show ?thesis unfolding ReqChildren reply_eqs control_children_def by (intro lives_rules) simp_all
next
  case ReqScan
  then show ?thesis unfolding ReqScan reply_eqs by (intro lives_rules) (simp add: scan_params_def)
qed (simp only: reply_eqs; intro lives_rules)+

text \<open>What a reply asks of the NCP, for every relation that \<open>traffic\<close> carries.\<close>

definition reply_ids :: "u8 set" where
  "reply_ids = {EZSP_NETWORK_STATE, EZSP_GET_EUI64, EZSP_GET_NODE_ID, EZSP_GET_NETWORK_PARAMETERS,
     EZSP_START_SCAN, EZSP_NEIGHBOR_COUNT, EZSP_GET_NEIGHBOR, EZSP_GET_ROUTE_TABLE_ENTRY,
     EZSP_GET_PARENT_CHILD_PARAMS, EZSP_GET_CHILD_DATA, EZSP_SET_RADIO_POWER, EZSP_PERMIT_JOINING}"

context traffic
begin

lemma table_loop_R: "fid \<in> F \<Longrightarrow> keeps R (table_loop spi p fid f lim is out b)"
proof (induction "is" arbitrary: out b)
  case (Cons i "is")
  show ?case
  proof (cases b)
    case (Some ta)
    obtain t at where b: "b = Some (t, at)" using Some by (cases ta) auto
    have "keeps R (\<lambda>s. if at < lim - 80 then do {
        ((n, out), s) \<leftarrow> ezsp_cmd spi p fid [i] out s;
        table_loop spi p fid f lim is out
          (case f n out of None \<Rightarrow> Some (t, at) | Some line \<Rightarrow> bprintf lim line (Some (t, at))) s }
      else Some ((out, Some (t, at)), s))"
      by (intro seq cmd Cons)
    then show ?thesis by (simp add: b keeps_def)
  qed (simp add: keeps_def refl)
qed (simp add: keeps_def refl split: prod.split)

lemma last_R: "keeps R (\<lambda>s. let (t5, s) = (reports_text s, s); (t6, s) = last_text s in Some (g t5 t6, s))"
  by (rule of_still) (auto simp: keeps_def last_text_def split_beta still.refl still_clock)

lemma reply_R: "reply_ids \<subseteq> F \<Longrightarrow> keeps R (control_reply spi p out r)"
proof -
  assume "reply_ids \<subseteq> F"
  then have m: "EZSP_NETWORK_STATE \<in> F" "EZSP_GET_EUI64 \<in> F" "EZSP_GET_NODE_ID \<in> F"
    "EZSP_GET_NETWORK_PARAMETERS \<in> F" "EZSP_START_SCAN \<in> F" "EZSP_NEIGHBOR_COUNT \<in> F"
    "EZSP_GET_NEIGHBOR \<in> F" "EZSP_GET_ROUTE_TABLE_ENTRY \<in> F" "EZSP_GET_PARENT_CHILD_PARAMS \<in> F"
    "EZSP_GET_CHILD_DATA \<in> F" "EZSP_SET_RADIO_POWER \<in> F" "EZSP_PERMIT_JOINING \<in> F"
    by (auto simp: reply_ids_def)
  have pieces: "keeps R (status_pieces spi p out)"
    unfolding status_pieces_def
    by (intro keeps_bind keeps_case_prod_fun ask_R m
        last_R [where g = "\<lambda>t5 t6. _ @ _ @ _ @ _ @ t5 @ t6 @ [''ok'' @ nl]"])
  show ?thesis
  proof (cases r)
    case ReqStatus
    then show ?thesis unfolding ReqStatus reply_eqs control_status_def by (intro seq pieces)
  next
    case ReqNeighbors
    then show ?thesis
      unfolding ReqNeighbors reply_eqs control_neighbors_def by (intro seq cmd table_loop_R m)
  next
    case ReqChildren
    then show ?thesis
      unfolding ReqChildren reply_eqs control_children_def by (intro seq cmd ask_each_R m)
  qed (simp only: reply_eqs; intro seq ask_R set_power permit m)+
qed

end


section \<open>A round of the daemon returns\<close>

lemma livesI: "(\<And>s. P s \<Longrightarrow> \<exists>x t. m s = Some (x, t) \<and> P t) \<Longrightarrow> lives P m"
  by (simp add: lives_def)

lemma lives_control_accept: "lives (steady k) (control_accept spi p out)"
proof (rule livesI)
  fix s assume s: "steady k s"
  have n: "steady k (snd (next_client s))" "stays (fst (next_client s))"
    using s by (auto simp: next_client_def steady_def split: list.splits)
  obtain c s1 where c: "next_client s = (c, s1)" by (cases "next_client s")
  have s1: "steady k s1" "stays c" using n c by simp_all
  show "\<exists>x t. control_accept spi p out s = Some (x, t) \<and> steady k t"
  proof (cases "\<exists>bytes there. c = Request bytes there \<and> bytes \<noteq> []")
    case False
    then have "control_accept spi p out s = Some ((), s1)"
      by (cases c) (auto simp: control_accept_def c)
    with s1 show ?thesis by blast
  next
    case True
    then obtain bytes where b: "c = Request bytes True" "bytes \<noteq> []" using s1(2) by auto
    obtain r t where r: "control_reply spi p out (parse_request bytes) s1 = Some (r, t)" "steady k t"
      using livesE [OF lives_steady [OF lives_control_reply spent.reply_R [OF subset_UNIV]] s1(1)] .
    obtain u at where "r = Some (u, at)" using givesD [OF control_reply_ok r(1)] by auto
    with r b have "control_accept spi p out s = Some ((), emit (ControlReply u) t)"
      by (simp add: control_accept_def c write_reply_def)
    with r(2) show ?thesis by (auto simp: steady_def)
  qed
qed

lemma steady_still: "lives ioctls_ok m \<Longrightarrow> keeps still m \<Longrightarrow> lives (steady k) m"
  by (rule lives_steady) (auto intro: spent.of_still)

lemma steady_same: "kfail t = kfail s \<Longrightarrow> still s t \<Longrightarrow> steady k s \<Longrightarrow> steady k t"
  by (simp add: steady_def still_def)

lemma lives_after_pure:
  assumes "\<And>s. kfail (snd (f s)) = kfail s \<and> still s (snd (f s))" and "\<And>x. lives (steady k) (g x)"
  shows "lives (steady k) (\<lambda>s. let (x, s) = f s in g x s)"
proof (rule livesI)
  fix s assume s: "steady k s"
  have f: "steady k (snd (f s))" using assms(1) [of s] s steady_same by blast
  then show "\<exists>y t. (let (x, s) = f s in g x s) = Some (y, t) \<and> steady k t"
    using livesE [OF assms(2) f] by (simp add: split_beta) blast
qed

lemma due_in_outside: "kfail (snd (due_in next s)) = kfail s \<and> still s (snd (due_in next s))"
  using take_clock_outside [of s] still_clock [of s] by (simp add: due_in_def split_beta still.refl)

lemma run_poll_steady: "lives (steady k) (run_poll listening hint timeout)"
proof (rule livesI)
  fix s assume s: "steady k s"
  have p: "steady k (snd (take_poll (emit (LinePoll timeout) s)))"
    using s by (simp add: take_poll_def steady_def split: list.splits)
  show "\<exists>x t. run_poll listening hint timeout s = Some (x, t) \<and> steady k t"
  proof (cases "listening \<or> hint")
    case True
    then show ?thesis using p
      by (cases "take_poll (emit (LinePoll timeout) s)") (auto simp: run_poll_def read_edge_def steady_def)
  next
    case False
    then show ?thesis using s by (auto simp: run_poll_def usleep_def steady_def)
  qed
qed

lemma lives_run_wait: "lives (steady k) (run_wait p listening next)"
  unfolding run_wait_def
  by (intro lives_bind lives_after_pure due_in_outside run_poll_steady lives_case_prod_fun lives_if lives_return
      steady_still lives_gpio_get still_gpio_get)

lemma lives_run_callback: "lives (steady k) (run_callback spi p fid out)"
proof -
  have "lives (steady k) (\<lambda>s. Some (x, count_failed s))" for x :: callback
    by (simp add: lives_def steady_def count_failed_def)
  then show ?thesis
    unfolding run_callback_def
    by (intro lives_bind lives_case_prod_fun lives_if lives_return
        lives_steady [OF lives_zcl_handle_incoming spent.incoming [OF UNIV_I]])
qed

lemma spends_run_callback: "keeps spends (run_callback spi p fid out)"
proof -
  have "keeps spends (\<lambda>s. Some (x, count_failed s))" for x :: callback
    by (simp add: keeps_def spends_def count_failed_def)
  then show ?thesis
    unfolding run_callback_def by (intro spent.seq spent.incoming UNIV_I)
qed

text \<open>The drain loop ends: every callback uses up bytes of the NCP.\<close>

lemma run_drain_returns:
  "steady k s \<Longrightarrow> length (miso s) < fuel \<Longrightarrow>
   \<exists>cs out' t. run_drain fuel spi p out s = Some ((cs, out'), t) \<and> steady k t"
proof (induction fuel arbitrary: s out)
  case (Suc fuel)
  obtain fid out1 s1 where 1: "ezsp_poll_callback spi p out s = Some ((fid, out1), s1)" "steady k s1"
    using livesE [OF lives_steady [OF lives_poll_callback spent.poll [OF UNIV_I]] Suc.prems(1)]
    by (metis surj_pair)
  show ?case
  proof (cases "fid = 0")
    case True
    with 1 show ?thesis by auto
  next
    case False
    obtain c s2 where 2: "run_callback spi p fid out1 s1 = Some (c, s2)" "steady k s2"
      using livesE [OF lives_run_callback 1(2)] .
    have "length (miso s1) < length (miso s)"
      using poll_uses [OF _ 1(1) False] Suc.prems(1) by (simp add: steady_def)
    moreover have "length (miso s2) \<le> length (miso s1)"
      using keepsD [OF spends_run_callback 2(1)] by (simp add: spends_def)
    ultimately have "length (miso s2) < fuel" using Suc.prems(2) by simp
    then obtain cs out' t where "run_drain fuel spi p out1 s2 = Some ((cs, out'), t)" "steady k t"
      using Suc.IH [OF 2(2)] by blast
    with 1 2 False show ?thesis by auto
  qed
qed simp

lemma lives_run_drain: "k < fuel \<Longrightarrow> lives (steady k) (run_drain fuel spi p out)"
proof (rule livesI)
  fix s assume f: "k < fuel" and s: "steady k s"
  then have "length (miso s) < fuel" by (simp add: steady_def)
  from run_drain_returns [OF s this]
  show "\<exists>x t. run_drain fuel spi p out s = Some (x, t) \<and> steady k t" by blast
qed

lemma rand_outside: "kfail (snd (report_interval s)) = kfail s \<and> still s (snd (report_interval s))"
  using take_rand_outside [of s] still_rand [of s]
  by (simp add: report_interval_def Let_def split_beta still.refl)

lemma clock_outside: "kfail (snd (take_clock s)) = kfail s \<and> still s (snd (take_clock s))"
  using take_clock_outside [of s] still_clock [of s] by simp

lemma first_report_outside: "kfail (snd (first_report s)) = kfail s \<and> still s (snd (first_report s))"
  using clock_outside [of s] take_rand_outside [of "snd (take_clock s)"] still_rand [of "snd (take_clock s)"]
    still.trans [of s "snd (take_clock s)"]
  by (simp add: first_report_def Let_def split_beta)

lemma lives_run_report: "lives (steady k) (run_report spi p next)"
proof -
  have due: "lives (steady k) (\<lambda>s. do {
      (_, s) \<leftarrow> zcl_report spi p s;
      let (now, s) = take_clock s; (i, s) = report_interval s in Some (now + int (unat i), s) })"
    by (intro lives_bind lives_case_prod_fun lives_after_pure clock_outside rand_outside lives_return
        lives_steady [OF lives_zcl_report spent.report_R [OF UNIV_I]])
  have "lives (steady k) (\<lambda>s. let (now, s) = take_clock s in
      if now \<ge> next then do {
        (_, s) \<leftarrow> zcl_report spi p s;
        let (now, s) = take_clock s; (i, s) = report_interval s in Some (now + int (unat i), s) }
      else Some (next, s))"
    by (intro lives_after_pure clock_outside lives_if due lives_return)
  then show ?thesis
    unfolding run_report_def by (intro lives_ifs lives_return)
qed

lemma lives_run_round: "k < fuel \<Longrightarrow> lives (steady k) (run_round fuel spi p listening stk st)"
  unfolding run_round_def Let_def
  by (intro lives_bind lives_case_prod lives_case_prod_fun lives_run_wait lives_if lives_control_accept lives_return
      lives_run_drain lives_run_report)

lemma lives_run_rounds: "k < fuel \<Longrightarrow> lives (steady k) (run_rounds n fuel spi p listening stk st)"
proof (induction n arbitrary: st)
  case (Suc n)
  then show ?case
    unfolding run_rounds.simps
    by (intro lives_bind lives_case_prod_fun lives_run_round lives_return)
qed (simp add: lives_def)

lemma lives_run_network: "lives (steady k) (run_network spi p out)"
  unfolding run_network_def
  by (intro lives_bind lives_case_prod_fun lives_if lives_return
      lives_steady [OF lives_ezsp_cmd spent.cmd [OF UNIV_I]]) simp_all

lemma lives_run_body:
  assumes "k < fuel" shows "lives (steady k) (run_body rounds fuel ok stk out spi p)"
proof -
  have rounds: "lives (steady k) (\<lambda>s. do {
      ((cs, st), s) \<leftarrow> run_rounds rounds fuel spi p (control_listen (cfg_sock_path (cfg s)) ok) stk st s;
      Some (Running l cs, s) })" for l st
    by (rule lives_read [where g = "\<lambda>s. control_listen (cfg_sock_path (cfg s)) ok" and
        f = "\<lambda>c s. do { ((cs, st), s) \<leftarrow> run_rounds rounds fuel spi p c stk st s; Some (Running l cs, s) }"])
      (intro lives_bind lives_case_prod_fun lives_run_rounds assms lives_return)
  have cmd: "lives (steady k) (ezsp_cmd spi p EZSP_GET_EUI64 [] b)" for b
    by (intro lives_steady lives_ezsp_cmd spent.cmd UNIV_I) simp
  show ?thesis
    unfolding run_body_def
    by (intro lives_bind lives_case_prod_fun lives_if lives_return lives_after_pure clock_outside first_report_outside
        rounds cmd lives_run_network
        lives_steady [OF lives_ezsp_init spent.init [OF UNIV_I]]
        lives_steady [OF lives_apply_config spent.apply_config [OF UNIV_I UNIV_I]]
        steady_still lives_release still_release)
qed


section \<open>What the daemon asks of the NCP\<close>

definition daemon_ids :: "u8 set" where
  "daemon_ids = read_ids \<union> reply_ids \<union> {EZSP_SEND_UNICAST}"

definition network_ids :: "u8 set" where
  \<comment> \<open>what changes which network the node is on, and its keys\<close>
  "network_ids = {EZSP_JOIN_NETWORK, EZSP_LEAVE_NETWORK, EZSP_SET_INITIAL_SECURITY_STATE}"

lemma daemon_members:
  "reply_ids \<subseteq> daemon_ids" "EZSP_VERSION \<in> daemon_ids" "EZSP_CALLBACK \<in> daemon_ids"
  "EZSP_SET_CONFIGURATION_VALUE \<in> daemon_ids" "EZSP_ADD_ENDPOINT \<in> daemon_ids" "EZSP_NETWORK_INIT \<in> daemon_ids"
  "EZSP_NETWORK_STATE \<in> daemon_ids" "EZSP_GET_EUI64 \<in> daemon_ids" "EZSP_SEND_UNICAST \<in> daemon_ids"
  by (auto simp: daemon_ids_def read_ids_def)

lemma daemon_network: "daemon_ids \<inter> network_ids = {}" "1 \<notin> daemon_ids \<union> network_ids" "0xFF \<notin> daemon_ids \<union> network_ids"
  by (simp_all add: daemon_ids_def network_ids_def read_ids_def reply_ids_def)

lemma asked_same: "trace t = trace s \<Longrightarrow> asks_only F s t"
  by (simp add: asks_only_def)

lemma asked_emit: "\<not> is_xfer e \<Longrightarrow> asks_only F s (emit e s)"
  by (auto simp: asks_only_def)

lemma asked_accept: "keeps (asks_only daemon_ids) (control_accept spi p out)"
proof (rule keepsI)
  fix s x t assume a: "control_accept spi p out s = Some (x, t)"
  obtain c s1 where c: "next_client s = (c, s1)" by (cases "next_client s")
  have 0: "asks_only daemon_ids s s1"
    using c by (auto simp: next_client_def asked_same split: list.splits)
  have "asks_only daemon_ids s1 t"
  proof (cases c)
    case (Request bytes there)
    show ?thesis
    proof (cases "bytes = []")
      case False
      with a c Request obtain r s2 where r: "control_reply spi p out (parse_request bytes) s1 = Some (r, s2)"
        "write_reply there r s2 = Some (x, t)"
        by (auto simp: control_accept_def Option.bind_eq_Some_conv)
      have "asks_only daemon_ids s2 t"
        using r(2) by (auto simp: write_reply_def asked_emit split: option.splits if_splits)
      then show ?thesis
        using keepsD [OF asked.reply_R [OF daemon_members(1)] r(1)] asked.trans by blast
    qed (use a c Request in \<open>auto simp: control_accept_def asked.refl\<close>)
  qed (use a c in \<open>auto simp: control_accept_def asked.refl\<close>)
  with 0 show "asks_only daemon_ids s t" by (rule asked.trans)
qed

lemma still_run_wait: "keeps still (run_wait p listening next)"
proof -
  have poll: "keeps still (run_poll listening hint timeout)" for hint timeout
  proof (rule keepsI)
    fix s x t assume r: "run_poll listening hint timeout s = Some (x, t)"
    have "still s (snd (take_poll (emit (LinePoll timeout) s)))"
      by (auto simp: take_poll_def still_def split: list.splits)
    moreover have "still s (read_edge s')" if "still s s'" for s' using that by (simp add: still_def read_edge_def)
    moreover have "still s (emit (Sleep 250000) s)" by (rule still_emit) simp
    ultimately show "still s t" using r
      by (auto simp: run_poll_def usleep_def split: if_splits prod.splits)
  qed
  have due: "keeps still (\<lambda>s. let (x, s) = due_in next s in g x s)" if "\<And>x. keeps still (g x)" for g :: "int \<Rightarrow> (sys, bool) cmd"
  proof (rule keepsI)
    fix s x t assume "(let (y, s) = due_in next s in g y s) = Some (x, t)"
    then show "still s t"
      using due_in_outside [of "next" s] keepsD [OF that] still.trans by (fastforce simp: split_beta)
  qed
  show ?thesis
    unfolding run_wait_def
    by (intro still.keeps_bind keeps_case_prod_fun keeps_if still.keeps_return still_gpio_get due poll)
qed

lemma asked_callback: "keeps (asks_only daemon_ids) (run_callback spi p fid out)"
proof -
  have "keeps (asks_only daemon_ids) (\<lambda>s. Some (x, count_failed s))" for x :: callback
    by (simp add: keeps_def asked_same count_failed_def)
  then show ?thesis
    unfolding run_callback_def by (intro asked.seq asked.incoming daemon_members)
qed

lemma asked_drain: "keeps (asks_only daemon_ids) (run_drain fuel spi p out)"
proof (induction fuel arbitrary: out)
  case (Suc fuel)
  then show ?case
    unfolding run_drain.simps by (intro asked.seq asked.poll asked_callback daemon_members)
qed (simp add: keeps_def)

lemma asked_after_pure:
  assumes "\<And>s. still s (snd (f s))" and "\<And>x. keeps (asks_only F) (g x)"
  shows "keeps (asks_only F) (\<lambda>s. let (x, s) = f s in g x s)"
proof (rule keepsI)
  fix s x t assume "(let (y, s) = f s in g y s) = Some (x, t)"
  then have "asks_only F (snd (f s)) t" using keepsD [OF assms(2)] by (auto simp: split_beta)
  moreover have "asks_only F s (snd (f s))" using assms(1) by (rule asked.still_R)
  ultimately show "asks_only F s t" using asked.trans by blast
qed

lemma asked_report: "keeps (asks_only daemon_ids) (run_report spi p next)"
proof -
  have "keeps (asks_only daemon_ids) (\<lambda>s. let (now, s) = take_clock s in
      if now \<ge> next then do {
        (_, s) \<leftarrow> zcl_report spi p s;
        let (now, s) = take_clock s; (i, s) = report_interval s in Some (now + int (unat i), s) }
      else Some (next, s))"
    by (intro asked_after_pure still_clock asked.seq asked.report_R daemon_members)
      (use rand_outside in \<open>auto intro!: asked_after_pure asked.keeps_return\<close>)
  then show ?thesis
    unfolding run_report_def by (intro keeps_ifs asked.keeps_return)
qed

lemma asked_round: "keeps (asks_only daemon_ids) (run_round fuel spi p listening stk st)"
  unfolding run_round_def Let_def
  by (intro asked.keeps_bind keeps_case_prod keeps_case_prod_fun asked.of_still [OF still_run_wait] keeps_if asked_accept
      asked.keeps_return asked_drain asked_report)

lemma asked_rounds: "keeps (asks_only daemon_ids) (run_rounds n fuel spi p listening stk st)"
proof (induction n arbitrary: st)
  case (Suc n)
  then show ?case
    unfolding run_rounds.simps by (intro asked.keeps_bind keeps_case_prod_fun asked_round asked.keeps_return)
qed (simp add: keeps_def asked.refl)

lemma asked_body: "keeps (asks_only daemon_ids) (run_body rounds fuel ok stk out spi p)"
proof -
  have rounds: "keeps (asks_only daemon_ids) (\<lambda>s. do {
      ((cs, st), s) \<leftarrow> run_rounds rounds fuel spi p (control_listen (cfg_sock_path (cfg s)) ok) stk st s;
      Some (Running l cs, s) })" for l st
    by (rule keeps_read [where g = "\<lambda>s. control_listen (cfg_sock_path (cfg s)) ok" and
        f = "\<lambda>c s. do { ((cs, st), s) \<leftarrow> run_rounds rounds fuel spi p c stk st s; Some (Running l cs, s) }"])
      (intro asked.keeps_bind keeps_case_prod_fun asked_rounds asked.keeps_return)
  have "keeps (asks_only daemon_ids) (run_network spi p out)" for out
    unfolding run_network_def by (intro asked.seq asked.cmd daemon_members)
  then show ?thesis
    unfolding run_body_def
    using first_report_outside
    by (intro asked.keeps_bind keeps_case_prod_fun keeps_if asked.keeps_return asked_after_pure still_clock
        rounds asked.cmd asked.init asked.apply_config asked.of_still [OF still_release] daemon_members) simp_all
qed

text \<open>
  C11: The daemon never takes the node off its network: however long it runs, whatever clients
  ask and whatever the NCP and the kernel answer, \<open>cmd_run\<close> never sends a frame that joins,
  leaves or sets the security state, in the layout of any version.
\<close>

theorem daemon_keeps_network:
  "keeps (never_sends network_ids) (cmd_run rounds fuel ok stk out)"
proof -
  have "keeps (asks_only daemon_ids) (cmd_run rounds fuel ok stk out)"
    unfolding cmd_run_def
    by (intro asked.keeps_bind keeps_case_prod_fun keeps_ifs asked.keeps_return asked_body
        asked.of_still [OF still_pins_open] asked.of_still [OF still_spi_open] asked.of_still [OF still_ncp_reset])
  then show ?thesis by (rule asks_never_sends [OF daemon_network])
qed


section \<open>The daemon stays up\<close>



definition run_sys :: sys where
  \<comment> \<open>an NCP that agrees on version 4, one client asking for the status, another after it\<close>
  "run_sys = v1_sys\<lparr>miso := version_bytes 4,
     node := node0\<lparr>polls := [(True, True), (False, True)],
       clients := [Request (''status'' @ nl) True, Request (''permit 60'' @ nl) True]\<rparr>\<rparr>"



section \<open>Waiting for the next report\<close>

text \<open>
  C37: The daemon's wait is never longer than 30 s nor than the time to the next report, and it
  does not wait at all once the report is due: the timeout handed to \<open>poll\<close> is never negative,
  which would be no timeout, while the report is less than \<open>2 ^ 31\<close> milliseconds away.
\<close>

theorem poll_timeout_bounds:
  assumes "next - now < 2147484" and "- (2 ^ 31) \<le> next - now"
  shows "0 \<le> poll_timeout secs next now \<and> poll_timeout secs next now \<le> 30000 \<and>
    (secs \<noteq> 0 \<longrightarrow> poll_timeout secs next now = min 30000 (1000 * max 0 (next - now)))"
proof -
  have word: "sint (word_of_int d :: u32) = d" if "- (2 ^ 31) \<le> d" "d < 2 ^ 31" for d
    using that by (simp add: sint_sbintrunc' signed_take_bit_int_eq_self)
  have 1: "sint (word_of_int (next - now) :: u32) = next - now" using assms by (intro word) simp_all
  have 2: "sint (word_of_int (max 0 (next - now) * 1000) :: u32) = max 0 (next - now) * 1000"
    using assms by (intro word) (simp_all add: max_def)
  show ?thesis unfolding poll_timeout_def Let_def 1 2 by auto
qed

theorem poll_timeout_bounds_witness:
  "poll_timeout 300 1012 1000 = 12000 \<and> poll_timeout 300 990 1000 = 0"
  using poll_timeout_bounds [of 1012 1000 300] poll_timeout_bounds [of 990 1000 300] by simp

text \<open>With a report further away the product wraps, and the wait has no end of its own.\<close>

lemma poll_timeout_wraps: "poll_timeout 3000000 2147484 0 = -2147483296"
  by (simp add: poll_timeout_def Let_def int_word_sint)

section \<open>Failed sends are counted\<close>

fun is_failed :: "callback \<Rightarrow> bool" where
  "is_failed (SendFailed dest st) = True"
| "is_failed c = False"

definition counts :: "sys \<Rightarrow> u32 \<times> u32 \<times> int" where
  "counts s = (report_count (node s), report_failed (node s), report_last (node s))"

lemma calls_counts: "calls s t \<Longrightarrow> counts t = counts s"
  by (simp add: callsD counts_def)

lemma local_counts: "local_only s t \<Longrightarrow> counts t = counts s"
  by (auto simp: local_only_def counts_def)

lemma send_counts: "zcl_send spi p dest cluster payload s = Some (r, t) \<Longrightarrow> counts t = counts s"
  by (auto simp: zcl_send_def Option.bind_eq_Some_conv counts_def Let_def
      dest!: keepsD [OF calls_cmd] callsD split: if_splits)

lemma incoming_counts: "zcl_handle_incoming spi p m s = Some (r, t) \<Longrightarrow> counts t = counts s"
  by (auto simp: zcl_handle_incoming_def zcl_read_def Let_def Option.bind_eq_Some_conv
      dest!: send_counts append_attrs_local local_counts split: if_splits)

lemma callback_counts:
  "run_callback spi p fid out s = Some (c, t) \<Longrightarrow>
   counts t = (report_count (node s), report_failed (node s) + (if is_failed c then 1 else 0), report_last (node s))"
  by (auto simp: run_callback_def Option.bind_eq_Some_conv count_failed_def counts_def
      dest!: incoming_counts split: if_splits)



definition failed_sys :: sys where
  \<comment> \<open>the NCP reports one message that was not delivered, then has nothing more\<close>
  "failed_sys = sys0\<lparr>miso := replicate 7 0xFF @ spi_frame (ezsp_header 4 0x80 EZSP_MESSAGE_SENT_HANDLER @
     [0, 0, 0, 4, 1, 0, 0, 1, 1, 0x40, 1, 0, 0, 0, 9, 0x66])\<rparr>"



section \<open>A report that is due\<close>

lemma zcl_report_sends:
  assumes "zcl_report spi p s = Some (x, t)"
  shows "clocked (ezsp_tx (cfg_ezsp_version (cfg s)) (ezsp_seq s) EZSP_SEND_UNICAST
      (unicast_params 0x0000 ZCL_CLUSTER_BASIC (zcl_tag (node s)) report_frame)) s t \<and>
    report_last (node t) = fst (take_clock s) \<and> cfg t = cfg s \<and>
    report_count (node t) + report_failed (node t) = report_count (node s) + report_failed (node s) + 1 \<and>
    clock (node t) = clock (node (snd (take_clock s))) \<and> zcl_tag (node t) = zcl_tag (node s) + 1"
proof -
  let ?s0 = "snd (take_clock s)" and ?now = "fst (take_clock s)"
  let ?s1 = "set_report_last ?now ?s0"
  let ?s2 = "?s1\<lparr>node := (node ?s1)\<lparr>zcl_tag := zcl_tag (node s) + 1\<rparr>\<rparr>"
  have c: "cfg ?s0 = cfg s" "ezsp_seq ?s0 = ezsp_seq s" "zcl_tag (node ?s0) = zcl_tag (node s)" "trace ?s0 = trace s"
    "report_count (node ?s0) = report_count (node s)" "report_failed (node ?s0) = report_failed (node s)"
    by (simp_all add: take_clock_def split: list.splits)
  have len: "\<not> 64 < length report_frame" by (simp add: report_frame_def)
  from assms c len obtain n out s3 where
    3: "ezsp_cmd spi p EZSP_SEND_UNICAST (unicast_params 0x0000 ZCL_CLUSTER_BASIC (zcl_tag (node s)) report_frame)
          (replicate 8 0) ?s2 = Some ((n, out), s3)" and
    t: "\<exists>r. t = count_report r s3"
    by (auto simp: zcl_report_def zcl_send_def Let_def split_beta Option.bind_eq_Some_conv set_report_last_def)
  have s3: "cfg s3 = cfg ?s2" "node s3 = node ?s2" using callsD [OF keepsD [OF calls_cmd 3]] by simp_all
  have "clocked (ezsp_tx (cfg_ezsp_version (cfg s)) (ezsp_seq s) EZSP_SEND_UNICAST
      (unicast_params 0x0000 ZCL_CLUSTER_BASIC (zcl_tag (node s)) report_frame)) s s3"
    using cmd_uses [OF 3] c by (simp add: clocked_def set_report_last_def)
  with t s3 c show ?thesis
    by (auto simp: count_report_def clocked_def set_report_last_def)
qed


definition report_sys :: sys where
  "report_sys = sys0\<lparr>node := node0\<lparr>clock := [1000, 1001, 1002], rands := [77]\<rparr>\<rparr>"


end
