(* ===== verification/Dispatch.thy ===== *)
theory Dispatch
  imports Daemon
begin

text \<open>
  Options and dispatch (main.c). \<open>getopt_long\<close> is the C library's: the model starts from the
  options it finds, in their order, each as the value of its entry in \<open>opts\<close> with its
  argument, and from the positional argument that is left. What a command reads
  from outside its options (stack buffers, a file, the sockets, how long an endless loop is
  watched) is the record \<open>around\<close>.
\<close>

unbundle bit_operations_syntax

section \<open>Options\<close>

text \<open>The table: name, whether it takes an argument, the value \<open>getopt_long\<close> returns.\<close>

definition opts :: "(string \<times> bool \<times> nat) list" where
  "opts = [(''spidev'', True, 1), (''chip'', True, 2), (''reset'', True, 3), (''wake'', True, 4),
     (''int'', True, 5), (''nssel-int'', True, 7), (''nssel-int-mode'', True, 8), (''aux'', True, 7),
     (''aux-mode'', True, 8), (''ncs'', True, 7), (''ncs-mode'', True, 8), (''speed'', True, 9),
     (''gap-us'', True, 13), (''no-reset'', False, 14), (''no-wake'', False, 16), (''wait-bytes'', True, 19),
     (''channel'', True, 20), (''pan-id'', True, 21), (''ext-pan-id'', True, 22),
     (''reverse-ext-pan-id'', False, 23), (''tx-power'', True, 24), (''sec-bitmask'', True, 25),
     (''join-timeout'', True, 26), (''join-retries'', True, 29), (''report-secs'', True, 30),
     (''no-precheck'', False, 27), (''ezsp-version'', True, 31), (''port'', True, 33), (''bind'', True, 34),
     (''socket'', True, 28), (''help'', False, 104)]"

definition number :: "string \<Rightarrow> u32" where
  \<comment> \<open>\<open>strtoul(optarg, NULL, 0)\<close>\<close>
  "number t = fst (strtoul 0 t)"

definition known_options :: "nat set" where
  "known_options = {1, 2, 3, 4, 5, 7, 8, 9, 13, 14, 16, 19, 20, 21, 22, 23, 24, 25, 26, 27, 28, 29, 30, 31, 33, 34, 118}"

text \<open>What an option writes into the configuration; 22 and 23 are below. 118 is \<open>-v\<close>.\<close>

definition apply_option :: "nat \<Rightarrow> string \<Rightarrow> cfg \<Rightarrow> cfg" where
  "apply_option v a c =
     (if v = 33 then c\<lparr>cfg_bridge_port := number a\<rparr>
      else if v = 34 then c\<lparr>cfg_bind_addr := a\<rparr>
      else if v = 1 then c\<lparr>cfg_spidev := a\<rparr>
      else if v = 2 then c\<lparr>cfg_gpiochip := a\<rparr>
      else if v = 3 then c\<lparr>cfg_reset_line := number a, cfg_reset_set := True\<rparr>
      else if v = 4 then c\<lparr>cfg_wake_line := number a, cfg_wake_set := True\<rparr>
      else if v = 5 then c\<lparr>cfg_int_line := number a, cfg_int_set := True\<rparr>
      else if v = 7 then c\<lparr>cfg_nssel_int_line := number a, cfg_nssel_int_set := True\<rparr>
      else if v = 8 then c\<lparr>cfg_nssel_int_mode := a\<rparr>
      else if v = 9 then c\<lparr>cfg_speed := number a\<rparr>
      else if v = 13 then c\<lparr>cfg_gap_us := number a\<rparr>
      else if v = 14 then c\<lparr>cfg_no_reset := True\<rparr>
      else if v = 16 then c\<lparr>cfg_wake_handshake := False\<rparr>
      else if v = 19 then c\<lparr>cfg_wait_bytes := number a\<rparr>
      else if v = 20 then c\<lparr>cfg_channel := number a\<rparr>
      else if v = 21 then c\<lparr>cfg_pan_id := ucast (number a), cfg_have_pan_id := True\<rparr>
      else if v = 24 then c\<lparr>cfg_tx_power := strtol 0 a\<rparr>
      else if v = 25 then c\<lparr>cfg_sec_bitmask := ucast (number a)\<rparr>
      else if v = 26 then c\<lparr>cfg_join_timeout := number a\<rparr>
      else if v = 29 then c\<lparr>cfg_join_retries := number a\<rparr>
      else if v = 30 then c\<lparr>cfg_report_secs := number a\<rparr>
      else if v = 27 then c\<lparr>cfg_no_precheck := True\<rparr>
      else if v = 31 then c\<lparr>cfg_ezsp_want := number a\<rparr>
      else if v = 28 then c\<lparr>cfg_sock_path := a\<rparr>
      else if v = 118 then c\<lparr>cfg_verbose := True\<rparr>
      else c)"

definition update_cfg :: "(cfg \<Rightarrow> cfg) \<Rightarrow> sys \<Rightarrow> sys" where
  "update_cfg f s = s\<lparr>cfg := f (cfg s)\<rparr>"

text \<open>
  The loop over the options: an exit code if one of them ends the program, and the flag
  \<open>reverse_ext_pan_id\<close>.
\<close>

datatype parsed = Stop int | Proceed bool

fun parse_options :: "(nat \<times> string) list \<Rightarrow> bool \<Rightarrow> (sys, parsed) cmd" where
  "parse_options [] flip s = Some (Proceed flip, s)"
| "parse_options ((v, a) # vs) flip s =
     (if v = 104 then Some (Stop 0, s)
      else if v \<notin> known_options then Some (Stop 1, s)
      else if v = 22 then do {
        (_, s) \<leftarrow> parse_ext_pan_id a s;
        parse_options vs flip (update_cfg (\<lambda>c. c\<lparr>cfg_have_ext_pan_id := True\<rparr>) s)
      }
      else if v = 23 then parse_options vs True s
      else parse_options vs flip (update_cfg (apply_option v a) s))"

text \<open>The exchange of the bytes \<open>a\<close> and \<open>b\<close>, \<open>a + 1\<close> and \<open>b - 1\<close>, and so on.\<close>

function swap_ends :: "nat \<Rightarrow> nat \<Rightarrow> u8 list \<Rightarrow> u8 list" where
  "swap_ends a b t = (if a < b then swap_ends (a + 1) (b - 1) (t[a := t ! b, b := t ! a]) else t)"
  by pat_completeness auto
termination by (relation "measure (\<lambda>(a, b, t). b - a)") auto

declare swap_ends.simps [simp del]

definition flip_ext_pan_id :: "cfg \<Rightarrow> cfg" where
  "flip_ext_pan_id c = c\<lparr>cfg_ext_pan_id := swap_ends 0 7 (cfg_ext_pan_id c)\<rparr>"


section \<open>Dispatch\<close>

record around =
  ar_out :: "u8 list"          \<comment> \<open>a command's buffer as the stack left it\<close>
  ar_stk :: "u8 list"          \<comment> \<open>the buffer of a function it calls\<close>
  ar_file :: "string \<Rightarrow> u8 list option"  \<comment> \<open>the content of a file that can be opened\<close>
  ar_listen :: bool            \<comment> \<open>the kernel gives the control socket\<close>
  ar_server :: "int option"    \<comment> \<open>the bridge's listening socket\<close>
  ar_polls :: "poll_res list"  \<comment> \<open>the rounds of the bridge that are watched\<close>
  ar_rounds :: nat             \<comment> \<open>the rounds of the daemon that are watched\<close>
  ar_fuel :: nat

datatype outcome = Exit int | Serving

definition exits :: "(sys, int \<times> 'a) cmd \<Rightarrow> (sys, outcome) cmd" where
  "exits m s = do { ((code, out), s) \<leftarrow> m s; Some (Exit code, s) }"

definition exits_with :: "(sys, int) cmd \<Rightarrow> (sys, outcome) cmd" where
  "exits_with m s = do { (code, s) \<leftarrow> m s; Some (Exit code, s) }"

fun bridge_rounds :: "poll_res list \<Rightarrow> bridge \<Rightarrow> (sys, outcome) cmd" where
  "bridge_rounds [] b s = Some (Serving, s)"
| "bridge_rounds (a # as) b s = do { (b, s) \<leftarrow> bridge_round b a s; bridge_rounds as b s }"

definition serve_bridge :: "around \<Rightarrow> (sys, outcome) cmd" where
  "serve_bridge e s = do { (b, s) \<leftarrow> cmd_bridge_start (ar_server e) s; bridge_rounds (ar_polls e) b s }"

definition serve_run :: "around \<Rightarrow> (sys, outcome) cmd" where
  "serve_run e s = do {
     (r, s) \<leftarrow> cmd_run (ar_rounds e) (ar_fuel e) (ar_listen e) (ar_stk e) (ar_out e) s;
     Some (case r of Unavailable code \<Rightarrow> Exit code | Running l cs \<Rightarrow> Serving, s)
   }"

definition dispatch :: "string \<Rightarrow> string option \<Rightarrow> around \<Rightarrow> (sys, outcome) cmd" where
  "dispatch cmd pos e =
     (if cmd = ''info'' then exits (cmd_info (ar_out e))
      else if cmd = ''status'' then exits (cmd_status (ar_out e) (ar_stk e))
      else if cmd = ''config'' then exits (cmd_config (ar_out e))
      else if cmd = ''policy'' then exits (cmd_policy (ar_out e))
      else if cmd = ''keys'' then exits (cmd_keys (ar_out e))
      else if cmd = ''neighbors'' then exits (cmd_neighbors (ar_out e))
      else if cmd = ''permit'' then exits (cmd_permit pos (ar_out e))
      else if cmd = ''power'' then exits (cmd_power pos (ar_out e))
      else if cmd = ''bootloader'' then exits (cmd_bootloader (ar_out e))
      else if cmd = ''verify'' then exits (cmd_verify (Option.bind pos (ar_file e)) (ar_out e))
      else if cmd = ''scan'' then exits (cmd_scan (ar_out e))
      else if cmd = ''join'' then exits_with (cmd_join (ar_stk e) (ar_out e))
      else if cmd = ''bridge'' then serve_bridge e
      else if cmd = ''run'' then serve_run e
      else if cmd = ''leave'' then exits_with (cmd_leave (ar_out e))
      else (\<lambda>s. Some (Exit 1, s)))"

text \<open>
  \<open>main\<close>: the command is missing if there is no first argument. \<open>probe\<close> comes before the
  extended pan id is reversed.
\<close>

definition main :: "string option \<Rightarrow> (nat \<times> string) list \<Rightarrow> string option \<Rightarrow> around \<Rightarrow> (sys, outcome) cmd" where
  "main cmd vs pos e s = (case cmd of
      None \<Rightarrow> Some (Exit 1, s)
    | Some c \<Rightarrow> do {
        (r, s) \<leftarrow> parse_options vs False s;
        case r of
          Stop code \<Rightarrow> Some (Exit code, s)
        | Proceed flip \<Rightarrow>
            if c = ''probe'' then exits cmd_probe s
            else dispatch c pos e (if flip then update_cfg flip_ext_pan_id s else s)
      })"


section \<open>Numbers of options read back\<close>

lemma dec_head: "0 < n \<Longrightarrow> hd (dec n) \<noteq> CHR ''0''"
proof (induction n rule: dec.induct)
  case (1 n)
  show ?case
  proof (cases "n < 10")
    case True
    have "digit_of (hd (dec n)) = Some n" using True by (subst dec.simps) (simp add: of_digit_char)
    moreover have "digit_of (CHR ''0'') = Some 0" by (simp add: digit_of_def)
    ultimately show ?thesis using 1(2) by auto
  next
    case False
    then have "hd (dec (n div 10)) \<noteq> CHR ''0''" using 1 by simp
    moreover have "hd (dec n) = hd (dec (n div 10))"
      using False by (subst dec.simps) (simp add: dec_nonempty)
    ultimately show ?thesis by simp
  qed
qed

lemma base_0_plain: "t \<noteq> [] \<Longrightarrow> hd t \<noteq> CHR ''0'' \<Longrightarrow> base_prefix 0 t = (10, t)"
  by (cases "(0 :: nat, t)" rule: base_prefix.cases) auto

lemma strto_0:
  assumes "t \<noteq> []" and "is_digit 10 (hd t)" and "base_prefix 0 t = (b, ds)" and "list_all (is_digit b) ds" and "ds \<noteq> []"
  shows "strto 0 t = Some (False, digits_value b ds, [])"
proof -
  obtain c cs where t: "t = c # cs" using assms(1) by (cases t) auto
  have "\<not> is_space c \<and> c \<noteq> CHR ''-'' \<and> c \<noteq> CHR ''+''"
    using digit_plain assms(2) t by auto
  moreover have "takeWhile (is_digit b) ds = ds" "dropWhile (is_digit b) ds = []"
    using takeWhile_digits [OF assms(4), of "[]"] by (simp_all del: takeWhile_eq_all_conv dropWhile_eq_Nil_conv)
  ultimately show ?thesis using assms(3,5) by (simp add: strto_def t Let_def del: takeWhile_eq_all_conv dropWhile_eq_Nil_conv)
qed

lemma number_dec: "n < 2 ^ 32 \<Longrightarrow> number (dec n) = of_nat n"
proof (cases "n = 0")
  case True
  have "dec 0 = ''0''" by (subst dec.simps) (simp add: digit_char_def char_of_def bit_0)
  moreover have "strto 0 ''0'' = Some (False, 0, [])"
    by (simp add: strto_def is_space_def is_digit_def digit_of_def digits_value_def Let_def)
  ultimately show ?thesis using True by (simp add: number_def strtoul_def)
next
  case False
  assume n: "n < 2 ^ 32"
  have "is_digit 10 (hd (dec n))" using dec_digits [of n] dec_nonempty [of n] by (cases "dec n") auto
  then have "strto 0 (dec n) = Some (False, n, [])"
    using strto_0 [OF dec_nonempty _ base_0_plain [OF dec_nonempty dec_head] dec_digits dec_nonempty] False
    by (simp add: value_dec)
  with n show ?thesis by (simp add: number_def strtoul_def)
qed

lemma hex4_digits: "list_all (is_digit 16) (hex4 w)"
  using hex2_digits by (simp add: hex4_def)

lemma digits_value_append: "digits_value b (ds @ es) = foldl (\<lambda>v c. v * b + the (digit_of c)) (digits_value b ds) es"
  by (simp add: digits_value_def)

lemma value_hex4: "digits_value 16 (hex4 w) = unat w"
proof -
  have "digits_value 16 (hex4 w) = unat (hi8 w) * 256 + unat (lo8 w)"
    using unat_u8_le [of "lo8 w"]
    by (simp add: hex4_def digits_value_append value_hex2)
      (simp add: hex2_def of_digit_char algebra_simps)
  also have "\<dots> = unat w"
  proof -
    have m: "w AND 0xFF = take_bit 8 w" by (simp add: take_bit_eq_mask mask_eq_exp_minus_1)
    have "unat w < 65536" using unsigned_less [of w, where 'a = nat] by simp
    then have "unat (lo8 w) = unat w mod 256" "unat (hi8 w) = unat w div 256"
      unfolding lo8_def hi8_def m
      by (simp_all add: unsigned_ucast_eq unsigned_drop_bit_eq drop_bit_eq_div unsigned_take_bit_eq take_bit_eq_mod unat_mod unat_div)
    then show ?thesis by simp
  qed
  finally show ?thesis .
qed

lemma number_hex: "number (''0x'' @ hex4 w) = ucast w"
proof -
  have d: "is_digit 16 (hd (hex4 w))" using hex4_digits [of w] by (simp add: hex4_def hex2_def)
  have h: "hex4 w = hd (hex4 w) # tl (hex4 w)" by (simp add: hex4_def hex2_def)
  have "base_prefix 0 (''0x'' @ hex4 w) = (16, hex4 w)"
    by (subst (1 2) h) (simp add: d)
  then have "strto 0 (''0x'' @ hex4 w) = Some (False, unat w, [])"
    using strto_0 [of "''0x'' @ hex4 w" 16 "hex4 w"] hex4_digits value_hex4
    by (simp add: is_digit_def digit_of_def hex4_def hex2_def)
  moreover have "unat w < 2 ^ 32" using unsigned_less [of w, where 'a = nat] by simp
  ultimately show ?thesis by (simp add: number_def strtoul_def)
qed

text \<open>
  What the program prints of a network can be given back to it as options: the decimal
  channel and the hexadecimal pan id with its prefix are read as the values they were printed
  for, as is every 32-bit number in decimal.
\<close>

theorem network_options_roundtrip:
  assumes "n < 2 ^ 32"
  shows "apply_option 20 (dec n) c = c\<lparr>cfg_channel := of_nat n\<rparr> \<and>
    apply_option 21 (''0x'' @ hex4 w) c = c\<lparr>cfg_pan_id := w, cfg_have_pan_id := True\<rparr> \<and>
    apply_option 30 (dec n) c = c\<lparr>cfg_report_secs := of_nat n\<rparr>"
proof -
  have "ucast (ucast w :: u32) = w" by (rule bit_word_eqI) (auto simp: bit_simps)
  then show ?thesis using number_hex [of w] by (simp add: apply_option_def number_dec [OF assms])
qed

theorem network_options_roundtrip_witness:
  "apply_option 20 (dec 15) default_cfg = default_cfg\<lparr>cfg_channel := 15\<rparr> \<and>
   apply_option 21 (''0x'' @ hex4 0x1A62) default_cfg = default_cfg\<lparr>cfg_pan_id := 0x1A62, cfg_have_pan_id := True\<rparr>"
  using network_options_roundtrip [of 15 default_cfg "0x1A62"] by simp


section \<open>Reversing the extended pan id\<close>

lemma swap_ends_rev: "length t = 8 \<Longrightarrow> swap_ends 0 7 t = rev t"
proof -
  assume "length t = 8"
  then obtain a b c d e f g h where t: "t = [a, b, c, d, e, f, g, h]"
    by (auto simp: numeral_eq_Suc length_Suc_conv)
  show ?thesis unfolding t by (simp add: swap_ends.simps numeral_eq_Suc)
qed


lemma parse_reverse: "parse_options (us @ (23, a) # ws) flip s = parse_options (us @ ws) True s"
proof (induction us arbitrary: flip s)
  case (Cons u us)
  obtain v b where u: "u = (v, b)" by (cases u)
  show ?case
  proof (cases "v = 22")
    case True
    then show ?thesis by (cases "parse_ext_pan_id b s") (auto simp: u Cons.IH)
  next
    case False
    then show ?thesis using Cons.IH by (simp add: u)
  qed
qed (simp add: known_options_def)

text \<open>
  C38: \<open>--reverse-ext-pan-id\<close> means what it says: an extended pan id given with it is taken as
  the same id written in the other byte order, for every command but \<open>probe\<close>; and only that the
  option is there counts, not its place among the others nor how often it is given.
\<close>

theorem reverse_option:
  assumes "length bs = 8" and "c \<noteq> ''probe''"
  shows "main (Some c) [(22, colon_hex bs), (23, a)] pos e s = main (Some c) [(22, colon_hex (rev bs))] pos e s \<and>
    main (Some c) (us @ (23, a) # ws) pos e s = main (Some c) ((23, a') # us @ ws) pos e s \<and>
    main (Some c) ((23, a) # us @ (23, a) # ws) pos e s = main (Some c) ((23, a) # us @ ws) pos e s"
proof -
  have k: "22 \<in> known_options" "23 \<in> known_options" "104 \<notin> known_options" by (simp_all add: known_options_def)
  let ?have = "update_cfg (\<lambda>c. c\<lparr>cfg_have_ext_pan_id := True\<rparr>)"
  have flip: "update_cfg flip_ext_pan_id (?have (set_ext bs s)) = ?have (set_ext (rev bs) s)"
    by (cases "cfg s") (simp add: set_ext_def update_cfg_def flip_ext_pan_id_def swap_ends_rev [OF assms(1)])
  have r: "length (rev bs) = 8" using assms(1) by simp
  note ext = parse_hex_rest [OF assms(1), of "[]"] parse_hex_rest [OF r, of "[]"]
  have "main (Some c) [(22, colon_hex bs), (23, a)] pos e s = main (Some c) [(22, colon_hex (rev bs))] pos e s"
    using k assms(2) ext flip by (simp add: main_def)
  moreover have "parse_options ((23, a') # us @ ws) False s = parse_options (us @ ws) True s" for a' us ws
    using parse_reverse [of "[]" a' "us @ ws"] by simp
  moreover have "parse_options ((23, a) # us @ (23, a) # ws) False s = parse_options (us @ ws) True s"
    using parse_reverse [of "[]" a "us @ (23, a) # ws" False s] parse_reverse [of us a ws True s] by simp
  ultimately show ?thesis by (simp only: main_def option.case parse_reverse)
qed

definition quiet_around :: around where
  "quiet_around = \<lparr>ar_out = replicate 64 0, ar_stk = replicate 64 0, ar_file = (\<lambda>_. None), ar_listen = True,
     ar_server = None, ar_polls = [], ar_rounds = 0, ar_fuel = 0\<rparr>"

theorem reverse_option_witness:
  "main (Some ''join'') [(22, colon_hex [1, 2, 3, 4, 5, 6, 7, 8]), (23, [])] None quiet_around sys0 =
   main (Some ''join'') [(22, colon_hex [8, 7, 6, 5, 4, 3, 2, 1])] None quiet_around sys0"
  using reverse_option [of "[1, 2, 3, 4, 5, 6, 7, 8]" "''join''" "[]" None quiet_around sys0 "[]" "[]" "[]"] by simp


section \<open>Nothing happens without a command\<close>

definition commands :: "string set" where
  "commands = {''probe'', ''info'', ''status'', ''config'', ''policy'', ''keys'', ''neighbors'', ''permit'', ''power'',
     ''bootloader'', ''verify'', ''scan'', ''join'', ''bridge'', ''run'', ''leave''}"

lemma parse_outside:
  "parse_options vs flip s = Some (r, t) \<Longrightarrow>
   trace t = trace s \<and> (r = Stop 0 \<or> r = Stop 1 \<or> (\<exists>f. r = Proceed f) \<and> (\<forall>(v, a) \<in> set vs. v \<in> known_options))"
proof (induction vs arbitrary: flip s)
  case (Cons va vs)
  obtain v a where u: "va = (v, a)" by (cases va)
  show ?case
  proof (cases "v = 104 \<or> v \<notin> known_options")
    case True
    with Cons.prems show ?thesis by (auto simp: u split: if_splits)
  next
    case False
    have "104 \<notin> known_options" by (simp add: known_options_def)
    show ?thesis
    proof (cases "v = 22")
      case True
      with Cons.prems False obtain s1 where 1: "parse_ext_pan_id a s = Some ((), s1)" and
        2: "parse_options vs flip (update_cfg (\<lambda>c. c\<lparr>cfg_have_ext_pan_id := True\<rparr>) s1) = Some (r, t)"
        by (auto simp: u Option.bind_eq_Some_conv)
      have "trace s1 = trace s" using 1 by (auto simp: parse_ext_pan_id_def split: option.splits if_splits)
      with Cons.IH [OF 2] False show ?thesis by (auto simp: u update_cfg_def)
    next
      case not22: False
      then obtain flip' s' where 2: "parse_options vs flip' s' = Some (r, t)" "trace s' = trace s"
        using Cons.prems False by (cases "v = 23") (auto simp: u update_cfg_def)
      from Cons.IH [OF 2(1)] 2(2) False show ?thesis by (auto simp: u)
    qed
  qed
qed auto

text \<open>
  C35: A mistyped command line does nothing: with \<open>-h\<close>, an option that does not exist or a
  command that does not exist, whatever else is given, the program ends with the exit code 0
  or 1 before it has opened a device, driven a line or sent anything.
\<close>

theorem main_mistyped_inert:
  assumes "main (Some c) vs pos e s = Some (r, t)"
    and "c \<notin> commands \<or> (\<exists>(v, a) \<in> set vs. v \<notin> known_options)"
  shows "(r = Exit 0 \<or> r = Exit 1) \<and> trace t = trace s"
proof -
  from assms(1) obtain q s1 where 1: "parse_options vs False s = Some (q, s1)" and
    2: "(case q of Stop code \<Rightarrow> Some (Exit code, s1)
      | Proceed flip \<Rightarrow> if c = ''probe'' then exits cmd_probe s1
          else dispatch c pos e (if flip then update_cfg flip_ext_pan_id s1 else s1)) = Some (r, t)"
    by (auto simp: main_def Option.bind_eq_Some_conv)
  note p = parse_outside [OF 1]
  show ?thesis
  proof (cases q)
    case (Stop code)
    with 2 p show ?thesis by auto
  next
    case (Proceed flip)
    with p assms(2) have "c \<notin> commands" by auto
    with 2 Proceed have "r = Exit 1 \<and> trace t = trace s1"
      by (auto simp: commands_def dispatch_def update_cfg_def)
    with p show ?thesis by simp
  qed
qed

theorem main_mistyped_inert_witness:
  "\<exists>r t. main (Some ''join'') [(20, ''15''), (104, [])] None quiet_around sys0 = Some (r, t) \<and> trace t = []"
proof -
  have "\<exists>r t. main (Some ''join'') [(20, ''15''), (104, [])] None quiet_around sys0 = Some (r, t)"
    by (simp add: main_def known_options_def)
  then obtain r t where m: "main (Some ''join'') [(20, ''15''), (104, [])] None quiet_around sys0 = Some (r, t)" by blast
  have "trace sys0 = []" by (simp add: sys0_def)
  with main_mistyped_inert [OF m] m show ?thesis by (auto simp: known_options_def)
qed


section \<open>Exit codes\<close>

abbreviation code_ok :: "int \<times> 'a \<Rightarrow> bool" where
  "code_ok \<equiv> \<lambda>(code, out). code = 0 \<or> code = 1"

abbreviation exit_ok :: "outcome \<Rightarrow> bool" where
  "exit_ok \<equiv> \<lambda>r. r = Exit 0 \<or> r = Exit 1 \<or> r = Serving"

lemma gives_let: "(\<And>x. gives Q (f x)) \<Longrightarrow> gives Q (\<lambda>s. let x = g s in f x s)"
  by (simp add: gives_def Let_def)

lemma gives_value: "Q x \<Longrightarrow> gives Q (\<lambda>s. Some (x, f s))"
  by (simp add: gives_def)

lemmas gives_seq = gives_then gives_case_prod_fun gives_case_prod gives_if gives_ifs gives_let gives_case_option
  gives_value gives_fail

lemma gives_mono: "gives P m \<Longrightarrow> (\<And>x. P x \<Longrightarrow> Q x) \<Longrightarrow> gives Q m"
  by (auto simp: gives_def)

lemma gives_if_value: "gives Q f \<Longrightarrow> gives Q g \<Longrightarrow> gives Q (if b then f else g)"
  by simp

lemma gives_exits: "gives code_ok m \<Longrightarrow> gives exit_ok (exits m)"
  by (fastforce simp: gives_def exits_def Option.bind_eq_Some_conv)

lemma gives_exits_with: "gives (\<lambda>c. c = 0 \<or> c = 1) m \<Longrightarrow> gives exit_ok (exits_with m)"
  by (fastforce simp: gives_def exits_with_def Option.bind_eq_Some_conv)

lemma report_codes:
  "gives code_ok (cmd_info out)" "gives code_ok (cmd_config out)" "gives code_ok (cmd_policy out)"
  "gives code_ok (cmd_keys out)" "gives code_ok (cmd_neighbors out)" "gives code_ok (cmd_bootloader out)"
  unfolding cmd_info_def cmd_config_def cmd_policy_def cmd_keys_def cmd_neighbors_def cmd_bootloader_def
    config_body_def policy_body_def keys_body_def neighbors_body_def bootloader_body_def
  by (intro gives_seq session_gives; simp)+

lemma control_codes:
  "gives code_ok (cmd_permit pos out)" "gives code_ok (cmd_power pos out)"
  unfolding cmd_permit_def cmd_power_def permit_body_def power_body_def
  by (intro gives_seq session_gives; simp)+

lemma status_code: "gives code_ok (cmd_status out stk)"
proof -
  have "gives code_ok (status_body out stk spi p)" for spi p
    by (auto simp: gives_def status_body_def Option.bind_eq_Some_conv Let_def split: if_splits option.splits)
  then show ?thesis
    unfolding cmd_status_def by (intro gives_seq session_gives) simp_all
qed

lemma scan_code: "gives code_ok (cmd_scan out)"
proof -
  have "gives code_ok (scan_body spi p out)" for spi p
    by (rule gives_mono [OF scan_body_code]) (auto split: if_splits)
  then show ?thesis unfolding cmd_scan_session by (rule session_gives)
qed

lemma verify_code: "gives code_ok (cmd_verify file out)"
proof -
  have "gives code_ok (verify_body hdr out spi p)" for hdr spi p
    using verify_body_result by (fastforce simp: gives_def verified_def)
  then have s: "gives code_ok (session (verify_body hdr out))" for hdr by (rule session_gives)
  show ?thesis
  proof (cases "file")
    case (Some bytes)
    have "gives code_ok (\<lambda>s. do { ((code, ls), s) \<leftarrow> session (verify_body hdr out) s; Some ((code, f ls), s) })"
      for hdr and f :: "verify_line list \<Rightarrow> verify_line list"
      by (rule gives_bind [OF s]) (auto simp: gives_def)
    with Some show ?thesis by (auto simp: cmd_verify_def gives_def Let_def)
  qed (simp add: cmd_verify_def gives_def)
qed

lemma join_code: "gives (\<lambda>c. c = 0 \<or> c = 1) (cmd_join stk out)"
proof -
  have "gives (\<lambda>c. c = 0 \<or> c = 1) (join_attempt left spi p upd out)" for left spi p upd out
  proof (induction left arbitrary: out)
    case 0
    show ?case unfolding join_attempt.simps by (intro gives_seq) simp_all
  next
    case (Suc left)
    show ?case unfolding join_attempt.simps by (intro gives_seq Suc) simp_all
  qed
  then have "gives (\<lambda>c. c = 0 \<or> c = 1) (join_body stk out spi p)" for spi p
    by (fastforce simp: gives_def join_body_def Option.bind_eq_Some_conv split: if_splits option.splits)
  then show ?thesis unfolding cmd_join_def by (intro gives_ifs gives_fail session_gives)
qed

lemma leave_code: "gives (\<lambda>c. c = 0 \<or> c = 1) (cmd_leave out)"
proof -
  have "gives (\<lambda>c. c = 0 \<or> c = 1) (leave_wait i spi p out)" for i spi p out
    by (induction i arbitrary: out) (auto simp: gives_def Option.bind_eq_Some_conv split: if_splits)
  then show ?thesis
    unfolding cmd_leave_def leave_body_def by (intro session_gives gives_seq) simp_all
qed

lemma run_code: "gives (\<lambda>r. \<forall>code. r = Unavailable code \<longrightarrow> code = 1) (cmd_run rounds fuel ok stk out)"
proof -
  have "gives (\<lambda>r. \<forall>code. r = Unavailable code \<longrightarrow> code = 1) (run_body rounds fuel ok stk out spi p)" for spi p
    by (auto simp: gives_def run_body_def Option.bind_eq_Some_conv split_beta split: if_splits)
  then show ?thesis unfolding cmd_run_def by (intro gives_seq)
qed

lemma bridge_rounds_serve: "bridge_rounds as b s = Some (r, t) \<Longrightarrow> r = Serving"
  by (induction as arbitrary: b s) (auto simp: Option.bind_eq_Some_conv)

lemma dispatch_code: "gives exit_ok (dispatch c pos e)"
proof -
  have "gives exit_ok (serve_bridge e)"
    by (auto simp: gives_def serve_bridge_def Option.bind_eq_Some_conv dest: bridge_rounds_serve)
  moreover have "gives exit_ok (serve_run e)"
    unfolding serve_run_def
    by (rule gives_bind [OF run_code]) (auto intro!: gives_value split: run_result.split)
  moreover have "gives exit_ok (\<lambda>s. Some (Exit 1, s))" by (simp add: gives_def)
  ultimately show ?thesis
    unfolding dispatch_def
    by (intro gives_if_value gives_exits report_codes control_codes status_code scan_code verify_code
        gives_exits_with join_code leave_code)
qed

text \<open>
  C36: \<open>main\<close> ends with the exit code 0 or 1, whatever the command, its options and what the
  devices answer; \<open>run\<close> and \<open>bridge\<close> do not end once they serve.
\<close>

theorem main_exit_codes:
  "gives (\<lambda>r. r = Exit 0 \<or> r = Exit 1 \<or> r = Serving) (main c vs pos e)"
proof -
  have "r = Exit 0 \<or> r = Exit 1 \<or> r = Serving" if m: "main c vs pos e s = Some (r, t)" for s r t
  proof (cases c)
    case None
    with m show ?thesis by (simp add: main_def)
  next
    case (Some cmd)
    with m obtain q s1 where 1: "parse_options vs False s = Some (q, s1)" and
      2: "(case q of Stop code \<Rightarrow> Some (Exit code, s1)
        | Proceed flip \<Rightarrow> if cmd = ''probe'' then exits cmd_probe s1
            else dispatch cmd pos e (if flip then update_cfg flip_ext_pan_id s1 else s1)) = Some (r, t)"
      by (auto simp: main_def Option.bind_eq_Some_conv)
    have "gives code_ok cmd_probe"
      unfolding cmd_probe_def by (intro gives_seq) simp
    from 2 parse_outside [OF 1] givesD [OF gives_exits [OF this]] givesD [OF dispatch_code] show ?thesis
      by (cases q) (auto split: if_splits)
  qed
  then show ?thesis by (simp add: gives_def)
qed

end
