(* ===== verification/Spec2Isabelle.thy ===== *)
theory Spec2Isabelle
  imports Dispatch
begin

text \<open>
  A model of \<open>ezsp-spi\<close> (package/ezsp-spi/src), the OpenWrt program that drives the EM3581
  Zigbee NCP of the Linksys WHW03 over SPI, makes a Zigbee router of it, or offers it to a
  host stack over TCP.

  The program. A command frame goes out over SPI inside one chip select assertion, the NCP
  answers after a number of wait states, and the host must clock exactly to the reply's
  terminator (spi.c). Two lines, nRESET and nWAKE, reset and wake the NCP; which GPIO lines
  they are depends on the board (board.c, gpio.c). A command is sent again once when the NCP
  reports that it had been reset (probe.c). EZSP commands use a frame layout that depends on
  the negotiated version (ezsp.c). \<open>join\<close> looks at the network, configures the NCP and tries to
  join with retries until the NCP reports NETWORK_UP; \<open>leave\<close> undoes it (zcl.c). The daemon
  \<open>run\<close> (control.c) restores the stored network and then, round by round, serves one request of
  its control socket, drains the NCP's callbacks, answers attribute reads on the Basic cluster
  and sends a periodic report (zcl.c). \<open>status\<close>, \<open>permit\<close>, \<open>power\<close> and \<open>neighbors\<close> ask a running
  daemon first and use the radio themselves if there is none; the reports of ezsp.c and
  \<open>verify\<close>, \<open>bootloader\<close> query the NCP. The bridge (bridge.c) speaks ASH to one TCP client:
  frames with a checksum and byte stuffing, acknowledged and resent by number, whose payload
  is relayed to the NCP; callbacks, which SPI has to poll, are pushed to the client. main.c
  reads the options into the configuration and calls the command.

  The model. Every effectful C function is a HOL function on the record \<open>sys\<close> that returns
  its result and the next state, or \<open>None\<close> where the code calls \<open>die\<close> (Prelude). \<open>sys\<close>
  (Machine) holds the program's own state (\<open>struct cfg\<close>, \<open>cs_follows\<close>, the sequence byte of
  \<open>ezsp_xfer\<close>, and in \<open>node\<close> the ZCL tag and the report counters of zcl.c), the answers the
  kernel, the NCP, the sockets, the clock and \<open>rand\<close> will give, as lists consumed from the
  front, and the trace of what the process has done. Theorems quantify over the answers, so
  over all behaviours of the devices. \<open>uint8_t\<close>, \<open>uint16_t\<close>, \<open>uint32_t\<close>, \<open>unsigned\<close> and, on the
  32-bit target, \<open>long\<close> are words of their width or integers cut to it; \<open>int\<close> values that
  cannot leave a small range are HOL integers; buffers are lists, and a buffer of fixed size
  that is partly filled is that list padded to its size. Uninitialised stack buffers are
  arguments (\<open>out\<close>, \<open>stk\<close>): a theorem that holds for all of them does not depend on them.

  The theories, in the order of the calls:
    \<^item> Prelude: the calculi \<open>keeps\<close>, \<open>lives\<close>, \<open>gives\<close> that carry a relation, the absence of
      \<open>die\<close>, and a property of the result through sequences of calls; words and buffers.
    \<^item> Machine (config.c, gpio.c, \<open>struct cfg\<close>): configuration, state, GPIO primitives; the
      relation \<open>radio\<close>: only lines and the SPI bus were used.
    \<^item> Spi (spi.c): \<open>spi_raw\<close>, chip select, \<open>spi_txn_framed\<close>, \<open>decode_response\<close>. Its lemmas
      give the exact result and trace of a transaction with an NCP that answers, and what
      holds whatever it sends.
    \<^item> Board (board.c): the board table, \<open>pins_open\<close>, \<open>ncp_reset\<close>, \<open>ncp_wake\<close>; the relation
      \<open>boots_app\<close>: nWAKE was high at every release of nRESET.
    \<^item> Probe (probe.c): \<open>classify\<close>, \<open>do_cmd\<close>, \<open>cmd_probe\<close>; \<open>answers\<close> describes the bytes of an
      NCP that answers a command.
    \<^item> Ash (bridge.c up to \<open>ash_retransmit\<close>): mask, checksum, stuffing, sending, resending. The
      locales \<open>checksum\<close> and \<open>burst_checksum\<close> state what error detection needs of a checksum
      step; the code's step is shown to be one.
    \<^item> Bridge (the rest of bridge.c): relaying, frames, the receiver, the rounds of the main
      loop, \<open>bridge_reach\<close> for the states it goes through. The locale \<open>ncp_port\<close> is the
      contract of \<open>do_cmd\<close> its proofs rest on.
    \<^item> Ezsp (ezsp.c without its reports): \<open>ezsp_xfer\<close>, \<open>ezsp_init\<close>, configuration, permit-join,
      the scans. The locale \<open>ezsp_port\<close> is the contract of \<open>ezsp_xfer\<close>. \<open>converses\<close> describes
      the bytes of an NCP that gives a list of replies to a list of commands; \<open>session\<close> is the
      frame that the one-shot commands share: open, reset, negotiate, body, release.
    \<^item> Zcl (zcl.c up to \<open>ezsp_apply_config\<close>): power, endpoint, unicasts, attribute responses,
      reports. \<open>decode_attrs\<close> is the reader its responses are proved against.
    \<^item> Join (the rest of zcl.c): \<open>join_precheck\<close>, \<open>join_setup\<close>, \<open>join_attempt\<close> with \<open>join_wait\<close>,
      \<open>cmd_join\<close>, \<open>cmd_leave\<close>: what a result 0 means, when a join is refused, that it returns,
      and that it succeeds through transient failures.
    \<^item> Text (\<open>parse_ext_pan_id\<close> of control.c, and the conversions of \<open>printf\<close>, \<open>strtoul\<close>,
      \<open>strtol\<close>, \<open>snprintf\<close> that the program uses), with their round trips.
    \<^item> Report (the reports of ezsp.c): the name tables, \<open>cmd_info\<close>, \<open>cmd_config\<close>, \<open>cmd_policy\<close>,
      \<open>cmd_keys\<close>, \<open>cmd_neighbors\<close>, \<open>control_query\<close>; what is printed is a list of lines.
    \<^item> Control (control.c up to \<open>cmd_bootloader\<close>): \<open>control_accept\<close> with its requests and the
      text of its replies, and the commands \<open>status\<close>, \<open>permit\<close>, \<open>power\<close>, \<open>verify\<close>, \<open>bootloader\<close>.
    \<^item> Traffic: the locale \<open>traffic\<close>, which carries a relation through every function that
      exchanges EZSP frames. \<open>asks_only\<close> (which frame ids are sent) and \<open>spends\<close> (how much of
      the NCP's bytes is used up) are its two interpretations.
    \<^item> Daemon (\<open>cmd_run\<close>): \<open>run_wait\<close>, \<open>run_drain\<close>, \<open>run_report\<close>, \<open>run_round\<close>: that it stays up,
      keeps its network, keeps the report's schedule and counts failed sends.
    \<^item> Dispatch (main.c): \<open>opts\<close>, \<open>parse_options\<close>, \<open>dispatch\<close>, \<open>main\<close>.

  Bounds and fuel. \<open>wait_states\<close>, \<open>drain_loop\<close>, \<open>find_loop\<close>, \<open>scan_loop\<close>, \<open>join_wait\<close>,
  \<open>join_attempt\<close>, \<open>leave_wait\<close> and \<open>table_loop\<close> recurse on the bound the code itself has
  (\<open>cfg.wait_bytes\<close>, 32, 80, 240, the timeout in quarter seconds, the retries, 40, the
  table's size). \<open>retransmit_slots\<close> has fuel 8: frame numbers have three bits, and
  \<open>retransmit_slots_enough\<close> shows that it ends. \<open>run_drain\<close> polls until the NCP has nothing
  left, for which the code has no bound; it has fuel and is \<open>None\<close> without, and
  \<open>run_drain_returns\<close> shows that fuel beyond the NCP's bytes is enough. The loops of
  \<open>cmd_bridge\<close> and \<open>cmd_run\<close> do not end: the one is a step relation, the other
  \<open>run_rounds\<close> for any number of rounds, and each round is shown to return.

  Not modelled. What is printed, except where it is the result of a command; \<open>getopt_long\<close>
  (the model starts from the options it finds), \<open>usage\<close>, the sockets' set-up and the seed of
  \<open>rand\<close>; the kernel's side of GPIO and SPI, whose answers are inputs; time, except as the
  sleeps in the trace and the clock's answers. Nothing in the program ignores SIGPIPE, so a
  write to a client of the control socket that has gone is \<open>None\<close>. In \<open>ezsp_xfer\<close> the transmit
  buffer of 160 bytes is not tracked: its length check admits three more parameter bytes than
  fit with a 5-byte header, and no caller passes more than 80. The shell scripts, the LuCI
  application and the kernel patch around the program are not modelled.
\<close>

unbundle bit_operations_syntax

section \<open>From the client's bytes to the radio and back\<close>

text \<open>
  C1: A client's DATA frame, as its bytes arrive, is relayed verbatim in both directions. If
  the NCP answers, the NCP is sent the client's EZSP bytes in one SPI command; the client is
  sent an ACK for the frame's number plus one, before it, and then a DATA frame with the NCP's
  EZSP bytes; after that the queued callbacks are collected and the receiver is idle again.
\<close>

theorem client_to_radio:
  fixes b :: bridge and ctrl :: u8
  assumes "b_ready b" and "ctrl AND 0x80 = 0" and "0 \<le> b_cli b"
    and "kfail s = []" and "list_all willing (writes s)"
    and "ezsp \<noteq> []" and "length ezsp \<le> 140" and "resp \<noteq> []" and "length resp + 1 \<le> ASH_MAX_FRAME"
    and "answers (cfg s) (spi_frame ezsp) (spi_frame resp) m" and "miso s = m @ rest"
  defines "b1 \<equiv> data_acked (b\<lparr>b_rx := (ctrl # ash_mask ezsp) @ crc_tail (ctrl # ash_mask ezsp), b_esc := False\<rparr>) ctrl"
  shows "\<exists>t. bridge_feed (idle_rx b) (ash_encode (ctrl # ash_mask ezsp)) s = do {
      (b, s) \<leftarrow> bridge_drain_callbacks (after_data (adopt_version b1 ezsp resp) resp) t;
      Some (idle_rx b, s) } \<and>
    sent_to (b_cli b) (trace t) = sent_to (b_cli b) (trace s) @
      ash_encode [0x80 OR (b_ack b1 AND 7)] @ ash_encode (data_frame b1 resp) \<and>
    miso t = rest \<and> kfail t = [] \<and> list_all willing (writes t) \<and> clocked (spi_frame ezsp) s t"
proof -
  let ?f = "ctrl # ash_mask ezsp"
  let ?b = "b\<lparr>b_rx := ?f @ crc_tail ?f, b_esc := False\<rparr>"
  have n: "?f \<noteq> []" "length ?f + 2 \<le> ASH_MAX_FRAME * 2" using assms(7) by simp_all
  have b: "b_ready ?b" "0 \<le> b_cli ?b" "b_cli ?b = b_cli b" using assms(1,3) by simp_all
  obtain t where t: "bridge_handle_frame ?b ?f s =
      bridge_drain_callbacks (after_data (adopt_version b1 ezsp resp) resp) t"
    "sent_to (b_cli b) (trace t) = sent_to (b_cli b) (trace s) @
      ash_encode [0x80 OR (b_ack b1 AND 7)] @ ash_encode (data_frame b1 resp)"
    "miso t = rest" "kfail t = []" "list_all willing (writes t)" "clocked (spi_frame ezsp) s t"
    using data_relayed [OF b(1) assms(2) b(2) assms(4-11)] unfolding b1_def [symmetric] b(3) by blast
  have f: "ash_encode ?f = stuff (?f @ crc_tail ?f) @ ASH_FLAG # []" by (simp add: ash_encode_def)
  have "bridge_feed (idle_rx b) (ash_encode ?f) s = do {
      (b, s) \<leftarrow> bridge_handle_frame ?b ?f s; Some (idle_rx b, s) }"
    unfolding f feed_idle_frame [OF n] bridge_feed.simps(1) by simp
  with t show ?thesis by auto
qed

definition echo_sys :: sys where
  \<comment> \<open>an NCP that answers the EZSP bytes 0, 0, 5 with 0, 0x80, 5\<close>
  "echo_sys = sys0\<lparr>miso := (replicate 6 0xFF @ replicate 0 0xFF @ spi_frame [0x00, 0x80, 0x05]) @ []\<rparr>"

theorem client_to_radio_witness:
  "\<exists>b t. bridge_feed (idle_rx sample_bridge) (ash_encode (0x20 # ash_mask [0x00, 0x00, 0x05])) echo_sys =
       do { (b, s) \<leftarrow> bridge_drain_callbacks b t; Some (idle_rx b, s) } \<and>
     sent_to 11 (trace t) = ash_encode [0x83] @ ash_encode (0x13 # ash_mask [0x00, 0x80, 0x05]) \<and>
     clocked [0xFE, 0x03, 0x00, 0x00, 0x05, 0xA7] echo_sys t \<and> miso t = []"
proof -
  have c: "cfg echo_sys = default_cfg" "kfail echo_sys = []" "list_all willing (writes echo_sys)"
    "sent_to 11 (trace echo_sys) = []"
    by (simp_all add: echo_sys_def sys0_def)
  have a: "answers default_cfg (spi_frame [0x00, 0x00, 0x05]) (spi_frame [0x00, 0x80, 0x05])
      (replicate 6 0xFF @ replicate 0 0xFF @ spi_frame [0x00, 0x80, 0x05])"
    by (rule answersI) (simp_all add: default_wait_bytes spi_frame_def)
  have m: "miso echo_sys = (replicate 6 0xFF @ replicate 0 0xFF @ spi_frame [0x00, 0x80, 0x05]) @ []"
    by (simp add: echo_sys_def)
  have b: "b_ready sample_bridge" "0 \<le> b_cli sample_bridge" "b_cli sample_bridge = 11"
    by (simp_all add: sample_bridge_def)
  have f: "spi_frame [0x00, 0x00, 0x05] = [0xFE, 0x03, 0x00, 0x00, 0x05, 0xA7]" by (simp add: spi_frame_def)
  have d: "data_frame (data_acked (sample_bridge\<lparr>b_rx := r, b_esc := e\<rparr>) 0x20) x = 0x13 # ash_mask x"
    "0x80 OR (b_ack (data_acked (sample_bridge\<lparr>b_rx := r, b_esc := e\<rparr>) 0x20) AND 7) = 0x83" for x r e
    by (simp_all add: data_frame_def data_ctrl_def data_acked_def sample_bridge_def)
  have h: "(0x20 :: u8) AND 0x80 = 0" "[0x00, 0x00, 0x05 :: u8] \<noteq> []" "length [0x00, 0x00, 0x05 :: u8] \<le> 140"
    "[0x00, 0x80, 0x05 :: u8] \<noteq> []" "length [0x00, 0x80, 0x05 :: u8] + 1 \<le> ASH_MAX_FRAME"
    by simp_all
  show ?thesis
    using client_to_radio [OF b(1) h(1) b(2) c(2,3) h(2-5) a [folded c(1)] m]
    unfolding b(3) c(4) d f append_Nil by blast
qed
end
